theory Spec2Isabelle
  imports Main "HOL-Library.Word" "HOL-Library.Sublist"
begin

unbundle bit_operations_syntax

section \<open>mcbootflash: packet codec (protocol.py)\<close>

text \<open>
  Python integers are modelled as \<open>int\<close>, a byte of a \<open>bytes\<close> object as an
  8-bit word. Every exception the code can raise is a constructor of \<open>error\<close>; the
  classes of \<open>mcbootflash.error\<close> (BootloaderError and its four device-reported
  subclasses) are constructors too. \<open>Blocked\<close> is not an exception: it marks a
  blocking read that never returns.
\<close>

type_synonym byte = "8 word"

datatype error =
    BootloaderError string
  | UnsupportedCommand
  | BadAddress
  | BadLength
  | VerifyFail
  | StructError
  | KeyError
  | ValueError string
  | IndexError
  | TypeError
  | ZeroDivisionError
  | SerialException
  | Blocked

subsection \<open>The struct module, as far as the format strings of protocol.py use it\<close>

text \<open>
  A format string in standard mode (leading \<open>=\<close>: little-endian here, no alignment)
  is a list of format characters; a repeat count is written out. \<open>B\<close>, \<open>H\<close> and
  \<open>I\<close> are unsigned integers of 1, 2 and 4 bytes, \<open>X\<close> is the pad byte \<open>x\<close>.
\<close>

datatype fmt = B | H | I | X

fun width :: "fmt \<Rightarrow> nat" where
  "width B = 1"
| "width H = 2"
| "width I = 4"
| "width X = 1"

fun calcsize :: "fmt list \<Rightarrow> nat" where
  "calcsize [] = 0"
| "calcsize (f # fs) = width f + calcsize fs"

text \<open>\<open>int.to_bytes(n, "little")\<close> and \<open>int.from_bytes(bs, "little")\<close>.\<close>

fun le_bytes :: "nat \<Rightarrow> int \<Rightarrow> byte list" where
  "le_bytes 0 v = []"
| "le_bytes (Suc n) v = word_of_int v # le_bytes n (v div 256)"

fun from_le :: "byte list \<Rightarrow> int" where
  "from_le [] = 0"
| "from_le (b # bs) = uint b + 256 * from_le bs"

definition fits :: "fmt \<Rightarrow> int \<Rightarrow> bool" where
  "fits f v = (0 \<le> v \<and> v < 256 ^ width f)"

text \<open>
  \<open>struct.pack\<close>: one value per non-pad character, each within the range of its
  character, otherwise \<open>struct.error\<close>. A pad byte is written as zero.
\<close>

fun struct_pack :: "fmt list \<Rightarrow> int list \<Rightarrow> error + byte list" where
  "struct_pack [] [] = Inr []"
| "struct_pack [] (v # vs) = Inl StructError"
| "struct_pack (X # fs) vs =
     (case struct_pack fs vs of Inl e \<Rightarrow> Inl e | Inr bs \<Rightarrow> Inr (0 # bs))"
| "struct_pack (f # fs) [] = Inl StructError"
| "struct_pack (f # fs) (v # vs) =
     (if fits f v
      then (case struct_pack fs vs of
              Inl e \<Rightarrow> Inl e
            | Inr bs \<Rightarrow> Inr (le_bytes (width f) v @ bs))
      else Inl StructError)"

text \<open>
  \<open>struct.unpack\<close>: the buffer must have exactly \<open>calcsize\<close> bytes, otherwise
  \<open>struct.error\<close>; pad bytes yield no value.
\<close>

fun unpack_fields :: "fmt list \<Rightarrow> byte list \<Rightarrow> int list" where
  "unpack_fields [] bs = []"
| "unpack_fields (X # fs) bs = unpack_fields fs (drop 1 bs)"
| "unpack_fields (f # fs) bs =
     from_le (take (width f) bs) # unpack_fields fs (drop (width f) bs)"

definition struct_unpack :: "fmt list \<Rightarrow> byte list \<Rightarrow> error + int list" where
  "struct_unpack fs bs =
     (if length bs = calcsize fs then Inr (unpack_fields fs bs) else Inl StructError)"

subsection \<open>Command and response codes\<close>

datatype BootCommand =
    READ_VERSION
  | READ_FLASH
  | WRITE_FLASH
  | ERASE_FLASH
  | CALC_CHECKSUM
  | RESET_DEVICE
  | SELF_VERIFY
  | GET_MEMORY_ADDRESS_RANGE

fun command_value :: "BootCommand \<Rightarrow> int" where
  "command_value READ_VERSION = 0x00"
| "command_value READ_FLASH = 0x01"
| "command_value WRITE_FLASH = 0x02"
| "command_value ERASE_FLASH = 0x03"
| "command_value CALC_CHECKSUM = 0x08"
| "command_value RESET_DEVICE = 0x09"
| "command_value SELF_VERIFY = 0x0A"
| "command_value GET_MEMORY_ADDRESS_RANGE = 0x0B"

text \<open>The enum's constructor call \<open>BootCommand(v)\<close>: \<open>None\<close> is its ValueError.\<close>

definition BootCommand_of :: "int \<Rightarrow> BootCommand option" where
  "BootCommand_of v =
     (if v = 0x00 then Some READ_VERSION
      else if v = 0x01 then Some READ_FLASH
      else if v = 0x02 then Some WRITE_FLASH
      else if v = 0x03 then Some ERASE_FLASH
      else if v = 0x08 then Some CALC_CHECKSUM
      else if v = 0x09 then Some RESET_DEVICE
      else if v = 0x0A then Some SELF_VERIFY
      else if v = 0x0B then Some GET_MEMORY_ADDRESS_RANGE
      else None)"

datatype BootResponse =
    UNDEFINED
  | SUCCESS
  | UNSUPPORTED_COMMAND
  | BAD_ADDRESS
  | BAD_LENGTH
  | VERIFY_FAIL

fun response_value :: "BootResponse \<Rightarrow> int" where
  "response_value UNDEFINED = 0x00"
| "response_value SUCCESS = 0x01"
| "response_value UNSUPPORTED_COMMAND = 0xFF"
| "response_value BAD_ADDRESS = 0xFE"
| "response_value BAD_LENGTH = 0xFD"
| "response_value VERIFY_FAIL = 0xFC"

subsection \<open>The packet classes\<close>

text \<open>
  Each dataclass is a record extending its base class; its fields hold plain integers
  (\<open>from_bytes\<close> stores what \<open>struct.unpack\<close> returns, an enum member compares
  equal to its value). The class variable \<open>format\<close> is the base class's format with
  the subclass's characters appended.
\<close>

record Packet =
  command :: int
  data_length :: int
  unlock_sequence :: int
  address :: int

record VersionResponsePacket = Packet +
  version :: int
  max_packet_length :: int
  device_id :: int
  erase_size :: int
  write_size :: int

record ResponsePacket = Packet +
  success :: int

record MemoryRangePacket = ResponsePacket +
  program_start :: int
  program_end :: int

record ChecksumPacket = ResponsePacket +
  checksum :: int

definition Packet_format :: "fmt list" where
  "Packet_format = [B, H, I, I]"

definition VersionResponsePacket_format :: "fmt list" where
  "VersionResponsePacket_format =
     Packet_format @ [H, H, X, X, H, X, X, H, H, X, X, X, X, X, X, X, X, X, X, X, X]"

definition ResponsePacket_format :: "fmt list" where
  "ResponsePacket_format = Packet_format @ [B]"

definition MemoryRangePacket_format :: "fmt list" where
  "MemoryRangePacket_format = ResponsePacket_format @ [I, I]"

definition ChecksumPacket_format :: "fmt list" where
  "ChecksumPacket_format = ResponsePacket_format @ [H]"

text \<open>\<open>__bytes__\<close>: \<open>struct.pack(self.format, *asdict(self).values())\<close>.\<close>

definition Packet_bytes :: "Packet \<Rightarrow> error + byte list" where
  "Packet_bytes p =
     struct_pack Packet_format [command p, data_length p, unlock_sequence p, address p]"

definition VersionResponsePacket_bytes :: "VersionResponsePacket \<Rightarrow> error + byte list" where
  "VersionResponsePacket_bytes p =
     struct_pack VersionResponsePacket_format
       [command p, data_length p, unlock_sequence p, address p,
        version p, max_packet_length p, device_id p, erase_size p, write_size p]"

definition ResponsePacket_bytes :: "ResponsePacket \<Rightarrow> error + byte list" where
  "ResponsePacket_bytes p =
     struct_pack ResponsePacket_format
       [command p, data_length p, unlock_sequence p, address p, success p]"

definition MemoryRangePacket_bytes :: "MemoryRangePacket \<Rightarrow> error + byte list" where
  "MemoryRangePacket_bytes p =
     struct_pack MemoryRangePacket_format
       [command p, data_length p, unlock_sequence p, address p, success p,
        program_start p, program_end p]"

definition ChecksumPacket_bytes :: "ChecksumPacket \<Rightarrow> error + byte list" where
  "ChecksumPacket_bytes p =
     struct_pack ChecksumPacket_format
       [command p, data_length p, unlock_sequence p, address p, success p, checksum p]"

text \<open>
  \<open>from_bytes\<close>: \<open>cls(*struct.unpack(cls.format, data))\<close>. The last case is the
  constructor called with a wrong number of arguments.
\<close>

definition Packet_from_bytes :: "byte list \<Rightarrow> error + Packet" where
  "Packet_from_bytes data =
     (case struct_unpack Packet_format data of
        Inl e \<Rightarrow> Inl e
      | Inr [c, l, u, a] \<Rightarrow>
          Inr \<lparr>command = c, data_length = l, unlock_sequence = u, address = a\<rparr>
      | Inr _ \<Rightarrow> Inl TypeError)"

definition VersionResponsePacket_from_bytes :: "byte list \<Rightarrow> error + VersionResponsePacket" where
  "VersionResponsePacket_from_bytes data =
     (case struct_unpack VersionResponsePacket_format data of
        Inl e \<Rightarrow> Inl e
      | Inr [c, l, u, a, v, m, d, e, w] \<Rightarrow>
          Inr \<lparr>command = c, data_length = l, unlock_sequence = u, address = a,
               version = v, max_packet_length = m, device_id = d, erase_size = e,
               write_size = w\<rparr>
      | Inr _ \<Rightarrow> Inl TypeError)"

definition ResponsePacket_from_bytes :: "byte list \<Rightarrow> error + ResponsePacket" where
  "ResponsePacket_from_bytes data =
     (case struct_unpack ResponsePacket_format data of
        Inl e \<Rightarrow> Inl e
      | Inr [c, l, u, a, s] \<Rightarrow>
          Inr \<lparr>command = c, data_length = l, unlock_sequence = u, address = a,
               success = s\<rparr>
      | Inr _ \<Rightarrow> Inl TypeError)"

definition MemoryRangePacket_from_bytes :: "byte list \<Rightarrow> error + MemoryRangePacket" where
  "MemoryRangePacket_from_bytes data =
     (case struct_unpack MemoryRangePacket_format data of
        Inl e \<Rightarrow> Inl e
      | Inr [c, l, u, a, s, ps, pe] \<Rightarrow>
          Inr \<lparr>command = c, data_length = l, unlock_sequence = u, address = a,
               success = s, program_start = ps, program_end = pe\<rparr>
      | Inr _ \<Rightarrow> Inl TypeError)"

definition ChecksumPacket_from_bytes :: "byte list \<Rightarrow> error + ChecksumPacket" where
  "ChecksumPacket_from_bytes data =
     (case struct_unpack ChecksumPacket_format data of
        Inl e \<Rightarrow> Inl e
      | Inr [c, l, u, a, s, k] \<Rightarrow>
          Inr \<lparr>command = c, data_length = l, unlock_sequence = u, address = a,
               success = s, checksum = k\<rparr>
      | Inr _ \<Rightarrow> Inl TypeError)"

text \<open>\<open>get_size\<close>: \<open>struct.calcsize(cls.format)\<close>.\<close>

definition Packet_get_size :: nat where
  "Packet_get_size = calcsize Packet_format"

definition VersionResponsePacket_get_size :: nat where
  "VersionResponsePacket_get_size = calcsize VersionResponsePacket_format"

definition ResponsePacket_get_size :: nat where
  "ResponsePacket_get_size = calcsize ResponsePacket_format"

definition MemoryRangePacket_get_size :: nat where
  "MemoryRangePacket_get_size = calcsize MemoryRangePacket_format"

definition ChecksumPacket_get_size :: nat where
  "ChecksumPacket_get_size = calcsize ChecksumPacket_format"

section \<open>mcbootflash: collaborators of the engine (connection.py)\<close>

subsection \<open>The serial port and what an observer sees\<close>

text \<open>
  \<open>serial.Serial\<close> is not part of the repository. The engine uses its \<open>write\<close>,
  its \<open>read\<close> and its \<open>timeout\<close> attribute. The port and the device behind it are
  modelled by a record: \<open>timeout\<close> is the attribute (\<open>None\<close>: block for ever; counted in
  whole units, float arithmetic is not modelled), \<open>rx\<close> holds the bytes the device
  delivers, in order, and \<open>fails_after\<close> says when the port breaks: \<open>None\<close> never,
  \<open>Some k\<close> after \<open>k\<close> more calls of \<open>write\<close> or \<open>read\<close>; from then on every call
  raises SerialException. So a port can fail at its first call, between a \<open>write\<close> and
  the \<open>read\<close> that follows it, or at any later call. \<open>events\<close> records, oldest first,
  what the engine does to the outside: every \<open>write\<close> with its bytes, every \<open>read\<close>
  that returns with the bytes it returns, and every call of the progress callback with
  its two arguments.

  A \<open>read\<close> of \<open>n\<close> bytes returns the next \<open>n\<close> bytes; when fewer remain it returns
  those after the timeout, or never returns when there is no timeout.
\<close>

datatype event = Write "byte list" | Read "byte list" | Progress int int

record world =
  timeout :: "int option"
  fails_after :: "nat option"
  rx :: "byte list"
  events :: "event list"

text \<open>One call on the port: it fails, or it uses up one of the calls left.\<close>

definition port_call :: "world \<Rightarrow> world option" where
  "port_call w =
     (case fails_after w of
        None \<Rightarrow> Some w
      | Some 0 \<Rightarrow> None
      | Some (Suc k) \<Rightarrow> Some (w\<lparr>fails_after := Some k\<rparr>))"

definition interface_write :: "byte list \<Rightarrow> world \<Rightarrow> (error + unit) \<times> world" where
  "interface_write data w =
     (case port_call w of
        None \<Rightarrow> (Inl SerialException, w)
      | Some w1 \<Rightarrow> (Inr (), w1\<lparr>events := events w1 @ [Write data]\<rparr>))"

definition interface_read :: "nat \<Rightarrow> world \<Rightarrow> (error + byte list) \<times> world" where
  "interface_read n w =
     (case port_call w of
        None \<Rightarrow> (Inl SerialException, w)
      | Some w1 \<Rightarrow>
          (if length (rx w1) < n \<and> timeout w1 = None then (Inl Blocked, w1)
           else (Inr (take n (rx w1)),
                 w1\<lparr>rx := drop n (rx w1), events := events w1 @ [Read (take n (rx w1))]\<rparr>)))"

subsection \<open>Python ranges\<close>

text \<open>
  \<open>Range start stop step\<close> is the object \<open>range(start, stop, step)\<close>; Python refuses
  to build one with step 0. Its length and its items are computed as CPython
  computes them.
\<close>

datatype pyrange = Range int int int

fun range_len :: "pyrange \<Rightarrow> int" where
  "range_len (Range start stop step) =
     (if 0 < step
      then (if start < stop then (stop - start - 1) div step + 1 else 0)
      else (if stop < start then (start - stop - 1) div (- step) + 1 else 0))"

fun range_item :: "pyrange \<Rightarrow> int \<Rightarrow> int" where
  "range_item (Range start stop step) i = start + i * step"

text \<open>\<open>r[0]\<close> and \<open>r[-1]\<close>.\<close>

definition range_first :: "pyrange \<Rightarrow> error + int" where
  "range_first r = (if range_len r = 0 then Inl IndexError else Inr (range_item r 0))"

definition range_last :: "pyrange \<Rightarrow> error + int" where
  "range_last r =
     (if range_len r = 0 then Inl IndexError else Inr (range_item r (range_len r - 1)))"

text \<open>The assignment \<open>start, *_, end = r\<close>: it needs at least two items.\<close>

definition unpack_first_last :: "pyrange \<Rightarrow> error + int \<times> int" where
  "unpack_first_last r =
     (if range_len r < 2 then Inl (ValueError ''not enough values to unpack'')
      else Inr (range_item r 0, range_item r (range_len r - 1)))"

text \<open>The items a \<open>for\<close> loop over \<open>range(start, stop, step)\<close> visits.\<close>

function range_elems :: "int \<Rightarrow> int \<Rightarrow> int \<Rightarrow> int list" where
  "range_elems start stop step =
     (if (0 < step \<and> start < stop) \<or> (step < 0 \<and> stop < start)
      then start # range_elems (start + step) stop step
      else [])"
  by pat_completeness auto
termination
  by (relation "measure (\<lambda>(start, stop, step). nat (if 0 < step then stop - start else start - stop))")
     auto

declare range_elems.simps [simp del]

definition py_range :: "int \<Rightarrow> int \<Rightarrow> int \<Rightarrow> error + int list" where
  "py_range start stop step =
     (if step = 0 then Inl (ValueError ''range() arg 3 must not be zero'')
      else Inr (range_elems start stop step))"

subsection \<open>Firmware images\<close>

text \<open>
  \<open>intelhex.IntelHex\<close> is not part of the repository either. An image is the
  dictionary of its populated addresses, kept here as a list of (address, byte) pairs
  in ascending order of address, each address once, and its pad byte. An address is a
  natural number: the library refuses a negative one. The engine uses \<open>len\<close> (the
  number of populated addresses), \<open>minaddr\<close> and \<open>maxaddr\<close> (\<open>None\<close> on an empty
  image), slicing, \<open>segments\<close> (the maximal runs of consecutive addresses, each as
  first address and last address plus one) and \<open>tobinstr\<close> (the bytes from the lowest
  to the highest address, a gap filled with the pad byte).

  The slice \<open>ih[lo:hi]\<close> is a new image, with the default pad byte \<open>0xFF\<close>, of the
  bytes whose address lies in the half-open range. The library computes the bounds as
  \<open>start = addr.start or addresses[0]\<close> and \<open>stop = addr.stop or addresses[-1] + 1\<close>:
  a bound of 0 is false and stands for no bound, so \<open>ih[lo:0]\<close> runs to the end of the
  image. Slicing an empty image gives an empty image.
\<close>

record IntelHex =
  buf :: "(nat \<times> byte) list"
  padding :: byte

definition ih_len :: "IntelHex \<Rightarrow> int" where
  "ih_len ih = int (length (buf ih))"

definition minaddr :: "IntelHex \<Rightarrow> int option" where
  "minaddr ih = (case buf ih of [] \<Rightarrow> None | (a, v) # rest \<Rightarrow> Some (int a))"

definition maxaddr :: "IntelHex \<Rightarrow> int option" where
  "maxaddr ih =
     (case buf ih of [] \<Rightarrow> None | x # rest \<Rightarrow> Some (int (fst (last (x # rest)))))"

definition ih_slice :: "int \<Rightarrow> int \<Rightarrow> IntelHex \<Rightarrow> IntelHex" where
  "ih_slice lo hi ih =
     (case (minaddr ih, maxaddr ih) of
        (Some first_address, Some last_address) \<Rightarrow>
          (let start = (if lo = 0 then first_address else lo);
               stop = (if hi = 0 then last_address + 1 else hi)
           in \<lparr>buf = filter (\<lambda>(a, v). start \<le> int a \<and> int a < stop) (buf ih),
               padding = 0xFF\<rparr>)
      | _ \<Rightarrow> \<lparr>buf = [], padding = 0xFF\<rparr>)"

fun address_runs :: "nat list \<Rightarrow> (nat \<times> nat) list" where
  "address_runs [] = []"
| "address_runs (a # as) =
     (case address_runs as of
        [] \<Rightarrow> [(a, a + 1)]
      | (u, l) # runs \<Rightarrow> if u = a + 1 then (a, l) # runs else (a, a + 1) # (u, l) # runs)"

definition ih_segments :: "IntelHex \<Rightarrow> (int \<times> int) list" where
  "ih_segments ih = map (\<lambda>(u, l). (int u, int l)) (address_runs (map fst (buf ih)))"

definition tobinstr :: "IntelHex \<Rightarrow> byte list" where
  "tobinstr ih =
     (case buf ih of
        [] \<Rightarrow> []
      | (lo, v) # rest \<Rightarrow>
          map (\<lambda>a. case map_of (buf ih) a of None \<Rightarrow> padding ih | Some v \<Rightarrow> v)
            [lo..<Suc (fst (last (buf ih)))])"

section \<open>mcbootflash: the flash engine (connection.py)\<close>

text \<open>
  connection.py imports the packet classes under the names Command, Response, Version,
  MemoryRange and Checksum and the enums as CommandCode and ResponseCode; protocol.py
  declares them as CommandPacket (a Packet with nothing added), ResponsePacket,
  VersionResponsePacket, MemoryRangePacket, ChecksumPacket, BootCommand and
  BootResponse. A method \<open>Bootloader.m\<close> is the constant \<open>Bootloader_m\<close>, so the
  private \<open>Bootloader._m\<close> is \<open>Bootloader__m\<close>. A method that reads or writes the
  port takes the world and returns its outcome with the world it leaves behind, also
  when it raises.
\<close>

definition BOOTLOADER_EXCEPTIONS :: "(int \<times> error) list" where
  "BOOTLOADER_EXCEPTIONS =
     [(response_value UNSUPPORTED_COMMAND, UnsupportedCommand),
      (response_value BAD_ADDRESS, BadAddress),
      (response_value BAD_LENGTH, BadLength),
      (response_value VERIFY_FAIL, VerifyFail)]"

datatype response_type = VersionT | ResponseT | ChecksumT | MemoryRangeT

definition RESPONSE_TYPE_MAP :: "(int \<times> response_type) list" where
  "RESPONSE_TYPE_MAP =
     [(command_value READ_VERSION, VersionT),
      (command_value READ_FLASH, ResponseT),
      (command_value WRITE_FLASH, ResponseT),
      (command_value ERASE_FLASH, ResponseT),
      (command_value CALC_CHECKSUM, ChecksumT),
      (command_value RESET_DEVICE, ResponseT),
      (command_value SELF_VERIFY, ResponseT),
      (command_value GET_MEMORY_ADDRESS_RANGE, MemoryRangeT)]"

text \<open>A decoded response: an instance of one of the four response classes.\<close>

datatype ResponseBase =
    Version VersionResponsePacket
  | Response ResponsePacket
  | Checksum ChecksumPacket
  | MemoryRange MemoryRangePacket

fun response_command :: "ResponseBase \<Rightarrow> int" where
  "response_command (Version p) = command p"
| "response_command (Response p) = command p"
| "response_command (Checksum p) = command p"
| "response_command (MemoryRange p) = command p"

fun get_size :: "response_type \<Rightarrow> nat" where
  "get_size VersionT = VersionResponsePacket_get_size"
| "get_size ResponseT = ResponsePacket_get_size"
| "get_size ChecksumT = ChecksumPacket_get_size"
| "get_size MemoryRangeT = MemoryRangePacket_get_size"

fun from_bytes :: "response_type \<Rightarrow> byte list \<Rightarrow> error + ResponseBase" where
  "from_bytes VersionT data =
     (case VersionResponsePacket_from_bytes data of Inl e \<Rightarrow> Inl e | Inr p \<Rightarrow> Inr (Version p))"
| "from_bytes ResponseT data =
     (case ResponsePacket_from_bytes data of Inl e \<Rightarrow> Inl e | Inr p \<Rightarrow> Inr (Response p))"
| "from_bytes ChecksumT data =
     (case ChecksumPacket_from_bytes data of Inl e \<Rightarrow> Inl e | Inr p \<Rightarrow> Inr (Checksum p))"
| "from_bytes MemoryRangeT data =
     (case MemoryRangePacket_from_bytes data of Inl e \<Rightarrow> Inl e | Inr p \<Rightarrow> Inr (MemoryRange p))"

text \<open>\<open>from_serial\<close>: \<open>cls.from_bytes(interface.read(cls.get_size()))\<close>.\<close>

definition from_serial :: "response_type \<Rightarrow> world \<Rightarrow> (error + ResponseBase) \<times> world" where
  "from_serial t w =
     (case interface_read (get_size t) w of
        (Inl e, w') \<Rightarrow> (Inl e, w')
      | (Inr data, w') \<Rightarrow> (from_bytes t data, w'))"

definition FLASH_UNLOCK_KEY :: int where
  "FLASH_UNLOCK_KEY = 0x00AA0055"

text \<open>The constructor call \<open>Command(command, data_length, unlock_sequence, address)\<close>.\<close>

definition Command :: "BootCommand \<Rightarrow> int \<Rightarrow> int \<Rightarrow> int \<Rightarrow> Packet" where
  "Command c l u a =
     \<lparr>command = command_value c, data_length = l, unlock_sequence = u, address = a\<rparr>"

text \<open>
  \<open>_verify_good_response\<close>. On a command code mismatch the second debug line
  evaluates \<open>CommandCode(response_packet.command).name\<close> before the raise, so a code
  that is no member of the enum ends in the enum's ValueError. The lookup
  \<open>_BOOTLOADER_EXCEPTIONS[response_packet.success]\<close> raises KeyError on a code the
  dictionary does not hold.
\<close>

definition raise_for_success :: "int \<Rightarrow> error + unit" where
  "raise_for_success s =
     (if s \<noteq> response_value SUCCESS
      then (case map_of BOOTLOADER_EXCEPTIONS s of None \<Rightarrow> Inl KeyError | Some e \<Rightarrow> Inl e)
      else Inr ())"

definition Bootloader__verify_good_response :: "Packet \<Rightarrow> ResponseBase \<Rightarrow> error + unit" where
  "Bootloader__verify_good_response command_packet response_packet =
     (if response_command response_packet \<noteq> command command_packet
      then (case BootCommand_of (response_command response_packet) of
              None \<Rightarrow> Inl (ValueError ''not a valid CommandCode'')
            | Some c \<Rightarrow> Inl (BootloaderError ''Command code mismatch''))
      else (case response_packet of
              Version p \<Rightarrow> Inr ()
            | Response p \<Rightarrow> raise_for_success (success p)
            | Checksum p \<Rightarrow> raise_for_success (success p)
            | MemoryRange p \<Rightarrow> raise_for_success (success p)))"

definition Bootloader__send_and_receive ::
    "Packet \<Rightarrow> byte list \<Rightarrow> world \<Rightarrow> (error + ResponseBase) \<times> world" where
  "Bootloader__send_and_receive c data w =
     (case Packet_bytes c of
        Inl e \<Rightarrow> (Inl e, w)
      | Inr header \<Rightarrow>
          (case interface_write (header @ data) w of
             (Inl e, w1) \<Rightarrow> (Inl e, w1)
           | (Inr u, w1) \<Rightarrow>
               (case map_of RESPONSE_TYPE_MAP (command c) of
                  None \<Rightarrow> (Inl KeyError, w1)
                | Some t \<Rightarrow>
                    (case from_serial t w1 of
                       (Inl e, w2) \<Rightarrow> (Inl e, w2)
                     | (Inr response, w2) \<Rightarrow>
                         (case Bootloader__verify_good_response c response of
                            Inl e \<Rightarrow> (Inl e, w2)
                          | Inr u' \<Rightarrow> (Inr response, w2))))))"

text \<open>
  \<open>_read_version\<close> and \<open>_get_memory_address_range\<close>. The \<open>assert isinstance\<close> of
  each cannot fail, the response class being the one RESPONSE\_TYPE\_MAP gives for the
  command; its branch here is TypeError.
\<close>

definition Bootloader__read_version ::
    "world \<Rightarrow> (error + int \<times> int \<times> int \<times> int \<times> int) \<times> world" where
  "Bootloader__read_version w =
     (case Bootloader__send_and_receive (Command READ_VERSION 0 0 0) [] w of
        (Inl e, w') \<Rightarrow> (Inl e, w')
      | (Inr (Version p), w') \<Rightarrow>
          (Inr (version p, max_packet_length p, device_id p, erase_size p, write_size p), w')
      | (Inr other, w') \<Rightarrow> (Inl TypeError, w'))"

definition Bootloader__get_memory_address_range ::
    "world \<Rightarrow> (error + int \<times> int) \<times> world" where
  "Bootloader__get_memory_address_range w =
     (case Bootloader__send_and_receive (Command GET_MEMORY_ADDRESS_RANGE 0 0 0) [] w of
        (Inl e, w') \<Rightarrow> (Inl e, w')
      | (Inr (MemoryRange p), w') \<Rightarrow> (Inr (program_start p, program_end p), w')
      | (Inr other, w') \<Rightarrow> (Inl TypeError, w'))"

text \<open>
  The attributes \<open>__init__\<close> captures. \<open>__init__\<close> itself: the port is open (the world
  given); only \<open>struct.error\<close> is caught and replaced.
\<close>

record Bootloader =
  self_max_packet_length :: int
  self_erase_size :: int
  self_write_size :: int
  self_memory_range :: pyrange

definition no_response :: "error \<Rightarrow> error" where
  "no_response e =
     (if e = StructError then BootloaderError ''No response from bootloader'' else e)"

definition Bootloader_init :: "world \<Rightarrow> (error + Bootloader) \<times> world" where
  "Bootloader_init w =
     (case Bootloader__read_version w of
        (Inl e, w1) \<Rightarrow> (Inl (no_response e), w1)
      | (Inr (v, m, d, es, ws), w1) \<Rightarrow>
          (case Bootloader__get_memory_address_range w1 of
             (Inl e, w2) \<Rightarrow> (Inl (no_response e), w2)
           | (Inr (ps, pe), w2) \<Rightarrow>
               (Inr \<lparr>self_max_packet_length = m, self_erase_size = es,
                     self_write_size = ws, self_memory_range = Range ps pe 1\<rparr>, w2)))"

definition Bootloader__self_verify :: "world \<Rightarrow> (error + unit) \<times> world" where
  "Bootloader__self_verify w =
     (case Bootloader__send_and_receive (Command SELF_VERIFY 0 0 0) [] w of
        (Inl e, w') \<Rightarrow> (Inl e, w')
      | (Inr r, w') \<Rightarrow> (Inr (), w'))"

text \<open>\<open>_detect_program\<close>: VerifyFail is the answer False, any other error is raised.\<close>

definition Bootloader__detect_program :: "world \<Rightarrow> (error + bool) \<times> world" where
  "Bootloader__detect_program w =
     (case Bootloader__self_verify w of
        (Inl e, w') \<Rightarrow> (if e = VerifyFail then (Inr False, w') else (Inl e, w'))
      | (Inr u, w') \<Rightarrow> (Inr True, w'))"

text \<open>
  \<open>_erase_flash\<close>: the timeout is saved, multiplied by ten unless it is None, and
  assigned back after \<open>_send_and_receive\<close> has returned. The division that computes
  \<open>data_length\<close> raises ZeroDivisionError for an erase size of 0.
\<close>

definition Bootloader__erase_flash ::
    "Bootloader \<Rightarrow> int \<Rightarrow> int \<Rightarrow> world \<Rightarrow> (error + unit) \<times> world" where
  "Bootloader__erase_flash self start_address end_address w =
     (let normal_timeout = timeout w;
          w1 = (case timeout w of None \<Rightarrow> w | Some t \<Rightarrow> w\<lparr>timeout := Some (t * 10)\<rparr>)
      in if self_erase_size self = 0 then (Inl ZeroDivisionError, w1)
         else (case Bootloader__send_and_receive
                      (Command ERASE_FLASH
                         ((end_address - start_address) div self_erase_size self)
                         FLASH_UNLOCK_KEY start_address) [] w1 of
                 (Inl e, w2) \<Rightarrow> (Inl e, w2)
               | (Inr r, w2) \<Rightarrow> (Inr (), w2\<lparr>timeout := normal_timeout\<rparr>)))"

text \<open>
  \<open>erase_flash\<close>. \<open>erase_range if erase_range else self._memory_range\<close>: None and an
  empty range are both false.
\<close>

definition Bootloader_erase_flash ::
    "Bootloader \<Rightarrow> pyrange option \<Rightarrow> bool \<Rightarrow> bool \<Rightarrow> world \<Rightarrow> (error + unit) \<times> world" where
  "Bootloader_erase_flash self erase_range force verify w =
     (case unpack_first_last
             (case erase_range of
                None \<Rightarrow> self_memory_range self
              | Some r \<Rightarrow> if range_len r = 0 then self_memory_range self else r) of
        Inl e \<Rightarrow> (Inl e, w)
      | Inr (start_address, end_address) \<Rightarrow>
          (case (if force then (Inr True, w) else Bootloader__detect_program w) of
             (Inl e, w1) \<Rightarrow> (Inl e, w1)
           | (Inr False, w1) \<Rightarrow> (Inr (), w1)
           | (Inr True, w1) \<Rightarrow>
               (case Bootloader__erase_flash self start_address end_address w1 of
                  (Inl e, w2) \<Rightarrow> (Inl e, w2)
                | (Inr u, w2) \<Rightarrow>
                    (if verify
                     then (case Bootloader__detect_program w2 of
                             (Inl e, w3) \<Rightarrow> (Inl e, w3)
                           | (Inr True, w3) \<Rightarrow>
                               (Inl (BootloaderError ''Existing application could not be erased''), w3)
                           | (Inr False, w3) \<Rightarrow> (Inr (), w3))
                     else (Inr (), w2)))))"

text \<open>
  \<open>_chunk\<close>: \<open>range(start, stop, size)\<close> with \<open>stop = hexdata.maxaddr()\<close>. On an
  empty image both addresses are None and \<open>range\<close> raises TypeError.
\<close>

definition Bootloader__chunk :: "IntelHex \<Rightarrow> int \<Rightarrow> error + IntelHex list" where
  "Bootloader__chunk hexdata chunk_size =
     (case (minaddr hexdata, maxaddr hexdata) of
        (Some start, Some stop) \<Rightarrow>
          (case py_range start stop chunk_size of
             Inl e \<Rightarrow> Inl e
           | Inr starts \<Rightarrow> Inr (map (\<lambda>i. ih_slice i (i + chunk_size) hexdata) starts))
      | _ \<Rightarrow> Inl TypeError)"

text \<open>
  \<open>_write_flash\<close>. \<open>[data.padding] * k\<close> is empty for \<open>k \<le> 0\<close>; \<open>len(data) % align\<close>
  raises ZeroDivisionError for \<open>align = 0\<close>; on an empty image \<open>minaddr()\<close> is None and
  formatting it raises TypeError.
\<close>

definition Bootloader__write_flash ::
    "IntelHex \<Rightarrow> int \<Rightarrow> world \<Rightarrow> (error + unit) \<times> world" where
  "Bootloader__write_flash data align w =
     (if align = 0 then (Inl ZeroDivisionError, w)
      else (let pad = replicate (nat ((align - ih_len data mod align) mod align)) (padding data)
            in case minaddr data of
                 None \<Rightarrow> (Inl TypeError, w)
               | Some lo \<Rightarrow>
                   (case Bootloader__send_and_receive
                           (Command WRITE_FLASH (ih_len data + int (length pad))
                              FLASH_UNLOCK_KEY (drop_bit 1 lo))
                           (tobinstr data @ pad) w of
                      (Inl e, w') \<Rightarrow> (Inl e, w')
                    | (Inr r, w') \<Rightarrow> (Inr (), w'))))"

definition Bootloader__get_remote_checksum ::
    "int \<Rightarrow> int \<Rightarrow> world \<Rightarrow> (error + int) \<times> world" where
  "Bootloader__get_remote_checksum a l w =
     (case Bootloader__send_and_receive (Command CALC_CHECKSUM l 0 a) [] w of
        (Inl e, w') \<Rightarrow> (Inl e, w')
      | (Inr (Checksum p), w') \<Rightarrow> (Inr (checksum p), w')
      | (Inr other, w') \<Rightarrow> (Inl TypeError, w'))"

text \<open>
  \<open>_get_local_checksum\<close>: the loop over \<open>range(start, stop, 4)\<close> with the running
  checksum, then the final mask. On an empty image \<open>start\<close> is None and the addition
  raises TypeError.
\<close>

fun local_checksum_loop :: "IntelHex \<Rightarrow> int list \<Rightarrow> int \<Rightarrow> int" where
  "local_checksum_loop data [] acc = acc"
| "local_checksum_loop data (i # rest) acc =
     (let databytes = tobinstr (ih_slice i (i + 4) data);
          acc1 = acc + (from_le databytes AND 0xFFFF);
          acc2 = acc1 + (drop_bit 16 (from_le databytes) AND 0xFF)
      in local_checksum_loop data rest acc2)"

definition Bootloader__get_local_checksum :: "IntelHex \<Rightarrow> error + int" where
  "Bootloader__get_local_checksum data =
     (case minaddr data of
        None \<Rightarrow> Inl TypeError
      | Some start \<Rightarrow>
          Inr (local_checksum_loop data (range_elems start (start + ih_len data) 4) 0
               AND 0xFFFF))"

definition Bootloader__checksum :: "IntelHex \<Rightarrow> world \<Rightarrow> (error + unit) \<times> world" where
  "Bootloader__checksum hexdata w =
     (case Bootloader__get_local_checksum hexdata of
        Inl e \<Rightarrow> (Inl e, w)
      | Inr checksum1 \<Rightarrow>
          (case minaddr hexdata of
             None \<Rightarrow> (Inl TypeError, w)
           | Some lo \<Rightarrow>
               (case Bootloader__get_remote_checksum (drop_bit 1 lo) (ih_len hexdata) w of
                  (Inl e, w') \<Rightarrow> (Inl e, w')
                | (Inr checksum2, w') \<Rightarrow>
                    (if checksum1 \<noteq> checksum2
                     then (Inl (BootloaderError ''Checksum mismatch while writing''), w')
                     else (Inr (), w')))))"

text \<open>
  \<open>flash\<close>. The argument \<open>hexfile\<close> is the image \<open>IntelHex(path)\<close> loads;
  \<open>progress_callback\<close> says whether a callback is given, and calling it is the event
  \<open>Progress\<close>. The two loops of lines 124 to 138 are \<open>flash_chunks\<close> (the inner one,
  over the chunks of a segment) and \<open>flash_segments\<close>; both carry \<open>written_bytes\<close>.
\<close>

fun flash_chunks ::
    "Bootloader \<Rightarrow> bool \<Rightarrow> int \<Rightarrow> IntelHex list \<Rightarrow> int \<Rightarrow> world \<Rightarrow> (error + int) \<times> world" where
  "flash_chunks self progress_callback total_bytes [] written_bytes w = (Inr written_bytes, w)"
| "flash_chunks self progress_callback total_bytes (chunk # chunks) written_bytes w =
     (case Bootloader__write_flash chunk (self_write_size self) w of
        (Inl e, w1) \<Rightarrow> (Inl e, w1)
      | (Inr u, w1) \<Rightarrow>
          (case Bootloader__checksum chunk w1 of
             (Inl e, w2) \<Rightarrow> (Inl e, w2)
           | (Inr u', w2) \<Rightarrow>
               flash_chunks self progress_callback total_bytes chunks
                 (written_bytes + ih_len chunk)
                 (if progress_callback
                  then w2\<lparr>events := events w2 @ [Progress (written_bytes + ih_len chunk) total_bytes]\<rparr>
                  else w2)))"

fun flash_segments ::
    "Bootloader \<Rightarrow> bool \<Rightarrow> int \<Rightarrow> int \<Rightarrow> IntelHex list \<Rightarrow> int \<Rightarrow> world \<Rightarrow> (error + int) \<times> world" where
  "flash_segments self progress_callback total_bytes chunk_size [] written_bytes w =
     (Inr written_bytes, w)"
| "flash_segments self progress_callback total_bytes chunk_size (segment # segments) written_bytes w =
     (case Bootloader__chunk segment chunk_size of
        Inl e \<Rightarrow> (Inl e, w)
      | Inr chunks \<Rightarrow>
          (case flash_chunks self progress_callback total_bytes chunks written_bytes w of
             (Inl e, w1) \<Rightarrow> (Inl e, w1)
           | (Inr written', w1) \<Rightarrow>
               flash_segments self progress_callback total_bytes chunk_size segments written' w1))"

definition Bootloader_flash ::
    "Bootloader \<Rightarrow> IntelHex \<Rightarrow> bool \<Rightarrow> world \<Rightarrow> (error + unit) \<times> world" where
  "Bootloader_flash self hexfile progress_callback w =
     (case range_first (self_memory_range self) of
        Inl e \<Rightarrow> (Inl e, w)
      | Inr first_address \<Rightarrow>
     (case range_last (self_memory_range self) of
        Inl e \<Rightarrow> (Inl e, w)
      | Inr last_address \<Rightarrow>
     (let hexdata = ih_slice (2 * first_address) (2 * last_address) hexfile;
          segments = map (\<lambda>(u, l). ih_slice u l hexdata) (ih_segments hexdata)
      in if segments = []
         then (Inl (BootloaderError
                 ''HEX file contains no data that fits entirely within program memory''), w)
         else
     (case Bootloader_erase_flash self (Some (self_memory_range self)) False True w of
        (Inl e, w1) \<Rightarrow> (Inl e, w1)
      | (Inr u, w1) \<Rightarrow>
     (if self_write_size self = 0 then (Inl ZeroDivisionError, w1)
      else
     (let chunk_size0 = self_max_packet_length self - int Packet_get_size;
          chunk_size = chunk_size0 - chunk_size0 mod self_write_size self;
          total_bytes = sum_list (map ih_len segments)
      in case flash_segments self progress_callback total_bytes chunk_size segments 0 w1 of
           (Inl e, w2) \<Rightarrow> (Inl e, w2)
         | (Inr written, w2) \<Rightarrow> Bootloader__self_verify w2))))))"

text \<open>\<open>reset\<close>.\<close>

definition Bootloader_reset :: "world \<Rightarrow> (error + unit) \<times> world" where
  "Bootloader_reset w =
     (case Bootloader__send_and_receive (Command RESET_DEVICE 0 0 0) [] w of
        (Inl e, w') \<Rightarrow> (Inl e, w')
      | (Inr r, w') \<Rightarrow> (Inr (), w'))"

section \<open>Notions the properties are stated with\<close>

text \<open>
  An image is contiguous when each populated address is its predecessor plus one; the
  segments \<open>flash\<close> builds and the chunks it cuts from them are.
\<close>

fun consecutive :: "nat list \<Rightarrow> bool" where
  "consecutive [] = True"
| "consecutive [x] = True"
| "consecutive (x # y # ys) = (y = x + 1 \<and> consecutive (y # ys))"

definition contiguous :: "IntelHex \<Rightarrow> bool" where
  "contiguous ih = consecutive (map fst (buf ih))"

definition addresses :: "IntelHex \<Rightarrow> nat set" where
  "addresses ih = fst ` set (buf ih)"

text \<open>All of the first image lies below all of the second.\<close>

definition before :: "IntelHex \<Rightarrow> IntelHex \<Rightarrow> bool" where
  "before c d = (\<forall>x \<in> addresses c. \<forall>y \<in> addresses d. x < y)"

text \<open>
  The checksum in the words of the specification: the bytes are taken in groups of four
  (the last group holds what is left), a group is read as a little-endian number, its
  lower 16 bits and its bits 16 to 23 are added to the sum, and the result is the sum
  modulo 65536.
\<close>

fun groups_of_four :: "byte list \<Rightarrow> byte list list" where
  "groups_of_four (a # b # c # d # rest) = [a, b, c, d] # groups_of_four rest"
| "groups_of_four [] = []"
| "groups_of_four bs = [bs]"

definition group_sum :: "byte list \<Rightarrow> int" where
  "group_sum g = from_le g mod 65536 + (from_le g div 65536) mod 256"

definition spec_checksum :: "byte list \<Rightarrow> int" where
  "spec_checksum bs = sum_list (map group_sum (groups_of_four bs)) mod 65536"

text \<open>The port survives its next \<open>n\<close> calls.\<close>

definition port_works :: "nat \<Rightarrow> world \<Rightarrow> bool" where
  "port_works n w = (case fails_after w of None \<Rightarrow> True | Some k \<Rightarrow> n \<le> k)"

text \<open>
  The event of a command written with its payload; the WRITE\_FLASH and the
  CALC\_CHECKSUM command \<open>flash\<close> writes for a chunk.
\<close>

definition sent :: "Packet \<Rightarrow> byte list \<Rightarrow> event" where
  "sent c data = Write ((case Packet_bytes c of Inl e \<Rightarrow> [] | Inr header \<Rightarrow> header) @ data)"

definition write_flash_event :: "IntelHex \<Rightarrow> int \<Rightarrow> event" where
  "write_flash_event data align =
     (let pad = replicate (nat ((align - ih_len data mod align) mod align)) (padding data)
      in sent (Command WRITE_FLASH (ih_len data + int (length pad)) FLASH_UNLOCK_KEY
                (drop_bit 1 (case minaddr data of None \<Rightarrow> 0 | Some lo \<Rightarrow> lo)))
              (tobinstr data @ pad))"

definition checksum_event :: "IntelHex \<Rightarrow> event" where
  "checksum_event hexdata =
     sent (Command CALC_CHECKSUM (ih_len hexdata) 0
            (drop_bit 1 (case minaddr hexdata of None \<Rightarrow> 0 | Some lo \<Rightarrow> lo))) []"

text \<open>
  The bytes read in answer to a WRITE\_FLASH command are good when they decode to a
  response that echoes the command and reports SUCCESS. The bytes read in answer to the
  CALC\_CHECKSUM command of a chunk are good when they decode to a checksum response
  that echoes the command, reports SUCCESS and carries the checksum the engine computes
  for the chunk: then, and only then, the verification of the chunk has passed.
\<close>

definition write_reply_ok :: "byte list \<Rightarrow> bool" where
  "write_reply_ok bs =
     (case ResponsePacket_from_bytes bs of
        Inl e \<Rightarrow> False
      | Inr p \<Rightarrow> command p = command_value WRITE_FLASH \<and> success p = response_value SUCCESS)"

definition checksum_reply_ok :: "IntelHex \<Rightarrow> byte list \<Rightarrow> bool" where
  "checksum_reply_ok chunk bs =
     (case ChecksumPacket_from_bytes bs of
        Inl e \<Rightarrow> False
      | Inr p \<Rightarrow> command p = command_value CALC_CHECKSUM \<and>
                 success p = response_value SUCCESS \<and>
                 Bootloader__get_local_checksum chunk = Inr (checksum p))"

text \<open>
  A chunk that \<open>flash\<close> has completed is recorded with the two replies read for it.
  Its events, in their order: the WRITE\_FLASH command, the read of its reply, the
  CALC\_CHECKSUM command, the read of its reply, and then the call of the callback,
  when there is one, with the advanced counter and the total. \<open>chunks_events\<close> lists
  them chunk after chunk; \<open>verified\<close> says that both replies of a chunk are good.
\<close>

fun chunks_events ::
    "Bootloader \<Rightarrow> bool \<Rightarrow> int \<Rightarrow> (IntelHex \<times> byte list \<times> byte list) list \<Rightarrow> int \<Rightarrow>
     event list" where
  "chunks_events self progress_callback total_bytes [] written_bytes = []"
| "chunks_events self progress_callback total_bytes ((chunk, r, s) # rest) written_bytes =
     [write_flash_event chunk (self_write_size self), Read r, checksum_event chunk, Read s] @
     (if progress_callback
      then [Progress (written_bytes + ih_len chunk) total_bytes] else []) @
     chunks_events self progress_callback total_bytes rest (written_bytes + ih_len chunk)"

definition verified :: "IntelHex \<times> byte list \<times> byte list \<Rightarrow> bool" where
  "verified = (\<lambda>(chunk, r, s). write_reply_ok r \<and> checksum_reply_ok chunk s)"

text \<open>
  The events of a chunk at which \<open>flash\<close> fails: a beginning of its four port events,
  never the callback. When the CALC\_CHECKSUM command has been written the reply to
  WRITE\_FLASH was good, and when the reply to CALC\_CHECKSUM has been read it was not
  good.
\<close>

definition unfinished :: "Bootloader \<Rightarrow> IntelHex \<Rightarrow> event list \<Rightarrow> bool" where
  "unfinished self chunk es =
     (es = [] \<or>
      es = [write_flash_event chunk (self_write_size self)] \<or>
      (\<exists>r. es = [write_flash_event chunk (self_write_size self), Read r]) \<or>
      (\<exists>r. es = [write_flash_event chunk (self_write_size self), Read r,
                 checksum_event chunk] \<and> write_reply_ok r) \<or>
      (\<exists>r s. es = [write_flash_event chunk (self_write_size self), Read r,
                   checksum_event chunk, Read s] \<and>
             write_reply_ok r \<and> \<not> checksum_reply_ok chunk s))"

text \<open>
  The chunk size \<open>flash\<close> computes, the segments it cuts from an image for a device
  whose memory range is not empty, and the chunks of a list of segments in the order
  the two loops visit them.
\<close>

definition flash_chunk_size :: "Bootloader \<Rightarrow> int" where
  "flash_chunk_size self =
     (self_max_packet_length self - int Packet_get_size) -
     (self_max_packet_length self - int Packet_get_size) mod self_write_size self"

definition flash_segments_list :: "Bootloader \<Rightarrow> IntelHex \<Rightarrow> IntelHex list" where
  "flash_segments_list self hexfile =
     (let r = self_memory_range self;
          hexdata = ih_slice (2 * range_item r 0) (2 * range_item r (range_len r - 1)) hexfile
      in map (\<lambda>(u, l). ih_slice u l hexdata) (ih_segments hexdata))"

definition all_chunks :: "int \<Rightarrow> IntelHex list \<Rightarrow> IntelHex list" where
  "all_chunks chunk_size segments =
     concat (map (\<lambda>segment. case Bootloader__chunk segment chunk_size of
                              Inl e \<Rightarrow> [] | Inr chunks \<Rightarrow> chunks) segments)"

section \<open>Properties of the codec\<close>

lemma length_le_bytes: "length (le_bytes n v) = n"
  by (induction n arbitrary: v) simp_all

lemma from_le_le_bytes:
  "0 \<le> v \<Longrightarrow> v < 256 ^ n \<Longrightarrow> from_le (le_bytes n v) = v"
proof (induction n arbitrary: v)
  case 0
  then show ?case by simp
next
  case (Suc n)
  have d: "0 \<le> v div 256" "v div 256 < 256 ^ n"
    using Suc.prems by (simp_all add: div_less_iff_less_mult pos_imp_zdiv_nonneg_iff mult.commute)
  have b: "uint (word_of_int v :: byte) = v mod 256"
    by (simp add: uint_word_of_int take_bit_eq_mod)
  show ?case
    using Suc.IH [OF d] b by simp
qed

lemma le_bytes_numeral [simp]:
  "le_bytes (numeral k) v = word_of_int v # le_bytes (pred_numeral k) (v div 256)"
  by (simp add: numeral_eq_Suc)

lemma struct_pack_value:
  "f \<noteq> X \<Longrightarrow> struct_pack (f # fs) (v # vs) =
     (if fits f v
      then (case struct_pack fs vs of
              Inl e \<Rightarrow> Inl e
            | Inr bs \<Rightarrow> Inr (le_bytes (width f) v @ bs))
      else Inl StructError)"
  by (cases f) (simp_all split: sum.splits)

lemma struct_pack_no_value: "f \<noteq> X \<Longrightarrow> struct_pack (f # fs) [] = Inl StructError"
  by (cases f) simp_all

lemma unpack_fields_value:
  "f \<noteq> X \<Longrightarrow> unpack_fields (f # fs) bs =
     from_le (take (width f) bs) # unpack_fields fs (drop (width f) bs)"
  by (cases f) simp_all

text \<open>What \<open>struct.pack\<close> produces has the size of the format and unpacks to the values.\<close>

lemma struct_pack_unpack:
  "struct_pack fs vs = Inr bs \<Longrightarrow> length bs = calcsize fs \<and> unpack_fields fs bs = vs"
proof (induction fs arbitrary: vs bs)
  case Nil
  then show ?case by (cases vs) simp_all
next
  case (Cons f fs)
  show ?case
  proof (cases "f = X")
    case True
    with Cons.prems obtain bs' where bs': "struct_pack fs vs = Inr bs'" "bs = 0 # bs'"
      by (auto split: sum.splits)
    from Cons.IH [OF bs'(1)] bs'(2) True show ?thesis by simp
  next
    case False
    with Cons.prems obtain v vs' where vs: "vs = v # vs'"
      by (cases vs) (simp_all add: struct_pack_no_value)
    with Cons.prems False obtain bs' where
      bs': "fits f v" "struct_pack fs vs' = Inr bs'" "bs = le_bytes (width f) v @ bs'"
      by (auto simp: struct_pack_value split: if_splits sum.splits)
    have "from_le (le_bytes (width f) v) = v"
      using bs'(1) by (simp add: fits_def from_le_le_bytes)
    with Cons.IH [OF bs'(2)] bs'(3) vs False show ?thesis
      by (simp add: unpack_fields_value length_le_bytes)
  qed
qed

lemma struct_unpack_pack:
  "struct_pack fs vs = Inr bs \<Longrightarrow> struct_unpack fs bs = Inr vs"
  by (simp add: struct_unpack_def struct_pack_unpack)

lemma Packet_roundtrip:
  assumes "fits B (command p)" "fits H (data_length p)" "fits I (unlock_sequence p)"
    "fits I (address p)"
  shows "\<exists>bs. Packet_bytes p = Inr bs \<and> Packet_from_bytes bs = Inr p"
proof -
  obtain bs where bs: "Packet_bytes p = Inr bs"
    using assms by (simp add: Packet_bytes_def Packet_format_def)
  then have "struct_unpack Packet_format bs =
      Inr [command p, data_length p, unlock_sequence p, address p]"
    unfolding Packet_bytes_def by (rule struct_unpack_pack)
  then have "Packet_from_bytes bs = Inr p"
    by (simp add: Packet_from_bytes_def)
  with bs show ?thesis by blast
qed

lemma VersionResponsePacket_roundtrip:
  assumes "fits B (command p)" "fits H (data_length p)" "fits I (unlock_sequence p)"
    "fits I (address p)" "fits H (version p)" "fits H (max_packet_length p)"
    "fits H (device_id p)" "fits H (erase_size p)" "fits H (write_size p)"
  shows "\<exists>bs. VersionResponsePacket_bytes p = Inr bs \<and>
              VersionResponsePacket_from_bytes bs = Inr p"
proof -
  obtain bs where bs: "VersionResponsePacket_bytes p = Inr bs"
    using assms
    by (simp add: VersionResponsePacket_bytes_def VersionResponsePacket_format_def
        Packet_format_def)
  then have "struct_unpack VersionResponsePacket_format bs =
      Inr [command p, data_length p, unlock_sequence p, address p,
           version p, max_packet_length p, device_id p, erase_size p, write_size p]"
    unfolding VersionResponsePacket_bytes_def by (rule struct_unpack_pack)
  then have "VersionResponsePacket_from_bytes bs = Inr p"
    by (simp add: VersionResponsePacket_from_bytes_def)
  with bs show ?thesis by blast
qed

lemma ResponsePacket_roundtrip:
  assumes "fits B (command p)" "fits H (data_length p)" "fits I (unlock_sequence p)"
    "fits I (address p)" "fits B (success p)"
  shows "\<exists>bs. ResponsePacket_bytes p = Inr bs \<and> ResponsePacket_from_bytes bs = Inr p"
proof -
  obtain bs where bs: "ResponsePacket_bytes p = Inr bs"
    using assms
    by (simp add: ResponsePacket_bytes_def ResponsePacket_format_def Packet_format_def)
  then have "struct_unpack ResponsePacket_format bs =
      Inr [command p, data_length p, unlock_sequence p, address p, success p]"
    unfolding ResponsePacket_bytes_def by (rule struct_unpack_pack)
  then have "ResponsePacket_from_bytes bs = Inr p"
    by (simp add: ResponsePacket_from_bytes_def)
  with bs show ?thesis by blast
qed

lemma MemoryRangePacket_roundtrip:
  assumes "fits B (command p)" "fits H (data_length p)" "fits I (unlock_sequence p)"
    "fits I (address p)" "fits B (success p)" "fits I (program_start p)"
    "fits I (program_end p)"
  shows "\<exists>bs. MemoryRangePacket_bytes p = Inr bs \<and> MemoryRangePacket_from_bytes bs = Inr p"
proof -
  obtain bs where bs: "MemoryRangePacket_bytes p = Inr bs"
    using assms
    by (simp add: MemoryRangePacket_bytes_def MemoryRangePacket_format_def
        ResponsePacket_format_def Packet_format_def)
  then have "struct_unpack MemoryRangePacket_format bs =
      Inr [command p, data_length p, unlock_sequence p, address p, success p,
           program_start p, program_end p]"
    unfolding MemoryRangePacket_bytes_def by (rule struct_unpack_pack)
  then have "MemoryRangePacket_from_bytes bs = Inr p"
    by (simp add: MemoryRangePacket_from_bytes_def)
  with bs show ?thesis by blast
qed

lemma ChecksumPacket_roundtrip:
  assumes "fits B (command p)" "fits H (data_length p)" "fits I (unlock_sequence p)"
    "fits I (address p)" "fits B (success p)" "fits H (checksum p)"
  shows "\<exists>bs. ChecksumPacket_bytes p = Inr bs \<and> ChecksumPacket_from_bytes bs = Inr p"
proof -
  obtain bs where bs: "ChecksumPacket_bytes p = Inr bs"
    using assms
    by (simp add: ChecksumPacket_bytes_def ChecksumPacket_format_def
        ResponsePacket_format_def Packet_format_def)
  then have "struct_unpack ChecksumPacket_format bs =
      Inr [command p, data_length p, unlock_sequence p, address p, success p, checksum p]"
    unfolding ChecksumPacket_bytes_def by (rule struct_unpack_pack)
  then have "ChecksumPacket_from_bytes bs = Inr p"
    by (simp add: ChecksumPacket_from_bytes_def)
  with bs show ?thesis by blast
qed

text \<open>
  C7. For each of the five packet classes (Command, which is a plain Packet, Response,
  VersionResponse, MemoryRangeResponse, ChecksumResponse) and all field values that fit
  the format character of their field, encoding succeeds and decoding the bytes gives
  back the packet.
\<close>

theorem decode_encode_roundtrip:
  fixes c :: Packet and r :: ResponsePacket and v :: VersionResponsePacket
    and m :: MemoryRangePacket and k :: ChecksumPacket
  shows
    "(fits B (command c) \<and> fits H (data_length c) \<and> fits I (unlock_sequence c) \<and>
      fits I (address c) \<longrightarrow>
        (\<exists>bs. Packet_bytes c = Inr bs \<and> Packet_from_bytes bs = Inr c)) \<and>
     (fits B (command r) \<and> fits H (data_length r) \<and> fits I (unlock_sequence r) \<and>
      fits I (address r) \<and> fits B (success r) \<longrightarrow>
        (\<exists>bs. ResponsePacket_bytes r = Inr bs \<and> ResponsePacket_from_bytes bs = Inr r)) \<and>
     (fits B (command v) \<and> fits H (data_length v) \<and> fits I (unlock_sequence v) \<and>
      fits I (address v) \<and> fits H (version v) \<and> fits H (max_packet_length v) \<and>
      fits H (device_id v) \<and> fits H (erase_size v) \<and> fits H (write_size v) \<longrightarrow>
        (\<exists>bs. VersionResponsePacket_bytes v = Inr bs \<and>
              VersionResponsePacket_from_bytes bs = Inr v)) \<and>
     (fits B (command m) \<and> fits H (data_length m) \<and> fits I (unlock_sequence m) \<and>
      fits I (address m) \<and> fits B (success m) \<and> fits I (program_start m) \<and>
      fits I (program_end m) \<longrightarrow>
        (\<exists>bs. MemoryRangePacket_bytes m = Inr bs \<and>
              MemoryRangePacket_from_bytes bs = Inr m)) \<and>
     (fits B (command k) \<and> fits H (data_length k) \<and> fits I (unlock_sequence k) \<and>
      fits I (address k) \<and> fits B (success k) \<and> fits H (checksum k) \<longrightarrow>
        (\<exists>bs. ChecksumPacket_bytes k = Inr bs \<and> ChecksumPacket_from_bytes bs = Inr k))"
  using Packet_roundtrip [of c] ResponsePacket_roundtrip [of r]
    VersionResponsePacket_roundtrip [of v] MemoryRangePacket_roundtrip [of m]
    ChecksumPacket_roundtrip [of k]
  by blast

theorem decode_encode_roundtrip_witness:
  "(\<exists>bs. Packet_bytes (Command ERASE_FLASH 3 FLASH_UNLOCK_KEY 0x1000) = Inr bs \<and>
         Packet_from_bytes bs = Inr (Command ERASE_FLASH 3 FLASH_UNLOCK_KEY 0x1000)) \<and>
   (\<exists>bs. ResponsePacket_bytes
           \<lparr>command = 0x0A, data_length = 0, unlock_sequence = 0, address = 0,
            success = 0xFC\<rparr> = Inr bs \<and>
         ResponsePacket_from_bytes bs =
           Inr \<lparr>command = 0x0A, data_length = 0, unlock_sequence = 0, address = 0,
                success = 0xFC\<rparr>) \<and>
   (\<exists>bs. VersionResponsePacket_bytes
           \<lparr>command = 0, data_length = 0, unlock_sequence = 0, address = 0,
            version = 0x0102, max_packet_length = 256, device_id = 0x3456,
            erase_size = 1024, write_size = 8\<rparr> = Inr bs \<and>
         VersionResponsePacket_from_bytes bs =
           Inr \<lparr>command = 0, data_length = 0, unlock_sequence = 0, address = 0,
                version = 0x0102, max_packet_length = 256, device_id = 0x3456,
                erase_size = 1024, write_size = 8\<rparr>) \<and>
   (\<exists>bs. MemoryRangePacket_bytes
           \<lparr>command = 0x0B, data_length = 8, unlock_sequence = 0, address = 0,
            success = 1, program_start = 0x1000, program_end = 0xFFFFFFFF\<rparr> = Inr bs \<and>
         MemoryRangePacket_from_bytes bs =
           Inr \<lparr>command = 0x0B, data_length = 8, unlock_sequence = 0, address = 0,
                success = 1, program_start = 0x1000, program_end = 0xFFFFFFFF\<rparr>) \<and>
   (\<exists>bs. ChecksumPacket_bytes
           \<lparr>command = 8, data_length = 0xFFFF, unlock_sequence = 0, address = 0x1000,
            success = 1, checksum = 0xBEEF\<rparr> = Inr bs \<and>
         ChecksumPacket_from_bytes bs =
           Inr \<lparr>command = 8, data_length = 0xFFFF, unlock_sequence = 0, address = 0x1000,
                success = 1, checksum = 0xBEEF\<rparr>)"
  using decode_encode_roundtrip
    [of "Command ERASE_FLASH 3 FLASH_UNLOCK_KEY 0x1000"
        "\<lparr>command = 0x0A, data_length = 0, unlock_sequence = 0, address = 0,
          success = 0xFC\<rparr>"
        "\<lparr>command = 0, data_length = 0, unlock_sequence = 0, address = 0,
          version = 0x0102, max_packet_length = 256, device_id = 0x3456,
          erase_size = 1024, write_size = 8\<rparr>"
        "\<lparr>command = 0x0B, data_length = 8, unlock_sequence = 0, address = 0,
          success = 1, program_start = 0x1000, program_end = 0xFFFFFFFF\<rparr>"
        "\<lparr>command = 8, data_length = 0xFFFF, unlock_sequence = 0, address = 0x1000,
          success = 1, checksum = 0xBEEF\<rparr>"]
  by (simp add: fits_def Command_def FLASH_UNLOCK_KEY_def)

section \<open>Properties of the engine\<close>

lemmas codec_defs =
  Packet_bytes_def ResponsePacket_bytes_def ChecksumPacket_bytes_def
  VersionResponsePacket_bytes_def MemoryRangePacket_bytes_def
  Packet_from_bytes_def ResponsePacket_from_bytes_def ChecksumPacket_from_bytes_def
  VersionResponsePacket_from_bytes_def MemoryRangePacket_from_bytes_def
  Packet_format_def ResponsePacket_format_def ChecksumPacket_format_def
  VersionResponsePacket_format_def MemoryRangePacket_format_def
  Packet_get_size_def ResponsePacket_get_size_def ChecksumPacket_get_size_def
  VersionResponsePacket_get_size_def MemoryRangePacket_get_size_def
  struct_unpack_def fits_def

lemmas exchange_defs =
  Bootloader__send_and_receive_def Bootloader__verify_good_response_def
  raise_for_success_def BOOTLOADER_EXCEPTIONS_def RESPONSE_TYPE_MAP_def
  from_serial_def interface_read_def interface_write_def port_call_def Command_def
  BootCommand_of_def FLASH_UNLOCK_KEY_def

lemmas erase_defs =
  Bootloader_erase_flash_def Bootloader__detect_program_def Bootloader__self_verify_def
  unpack_first_last_def Bootloader__erase_flash_def

lemmas image_defs =
  ih_slice_def ih_len_def minaddr_def maxaddr_def ih_segments_def tobinstr_def

lemmas flash_defs =
  Bootloader_flash_def range_first_def range_last_def Bootloader__chunk_def py_range_def
  range_elems.simps
  Bootloader__write_flash_def Bootloader__checksum_def Bootloader__get_local_checksum_def
  Bootloader__get_remote_checksum_def

lemma replicate_numeral [simp]:
  "replicate (numeral k) x = x # replicate (pred_numeral k) x"
  by (simp add: numeral_eq_Suc)

subsection \<open>Which errors an exchange can raise\<close>

lemma struct_pack_error: "struct_pack fs vs = Inl e \<Longrightarrow> e = StructError"
  by (induction fs vs arbitrary: e rule: struct_pack.induct)
     (auto split: sum.splits if_splits)

lemma struct_unpack_error: "struct_unpack fs bs = Inl e \<Longrightarrow> e = StructError"
  by (auto simp: struct_unpack_def split: if_splits)

lemma from_bytes_error: "from_bytes t data = Inl e \<Longrightarrow> e = StructError \<or> e = TypeError"
  by (cases t)
     (auto simp: VersionResponsePacket_from_bytes_def ResponsePacket_from_bytes_def
        ChecksumPacket_from_bytes_def MemoryRangePacket_from_bytes_def
        dest: struct_unpack_error split: sum.splits list.splits)

lemma raise_for_success_error:
  "raise_for_success s = Inl e \<Longrightarrow>
     e = KeyError \<or> e = UnsupportedCommand \<or> e = BadAddress \<or> e = BadLength \<or> e = VerifyFail"
  by (auto simp: raise_for_success_def BOOTLOADER_EXCEPTIONS_def split: if_splits)

lemma verify_good_response_error:
  "Bootloader__verify_good_response c r = Inl e \<Longrightarrow>
     e = ValueError ''not a valid CommandCode'' \<or>
     e = BootloaderError ''Command code mismatch'' \<or>
     e = KeyError \<or> e = UnsupportedCommand \<or> e = BadAddress \<or> e = BadLength \<or> e = VerifyFail"
  by (cases r)
     (auto simp: Bootloader__verify_good_response_def split: if_splits option.splits
        dest: raise_for_success_error)

lemma send_and_receive_error:
  "Bootloader__send_and_receive c d w = (Inl e, w') \<Longrightarrow>
     e \<in> {StructError, SerialException, KeyError, Blocked, TypeError,
          ValueError ''not a valid CommandCode'', BootloaderError ''Command code mismatch'',
          UnsupportedCommand, BadAddress, BadLength, VerifyFail}"
  unfolding Bootloader__send_and_receive_def from_serial_def interface_read_def
    interface_write_def port_call_def Packet_bytes_def
  by (auto split: sum.splits prod.splits if_splits option.splits nat.splits
      dest: struct_pack_error from_bytes_error verify_good_response_error)

subsection \<open>Checking a response\<close>

text \<open>
  The four device-reported codes raise their mapped error, SUCCESS raises nothing, and a
  response with a matching command code and any other success code never passes.
\<close>

lemma verify_good_response_mapped:
  "Bootloader__verify_good_response (Command c l u a)
     (Response \<lparr>command = command_value c, data_length = l', unlock_sequence = u',
                address = a', success = s\<rparr>) =
   (if s = 0x01 then Inr ()
    else if s = 0xFF then Inl UnsupportedCommand
    else if s = 0xFE then Inl BadAddress
    else if s = 0xFD then Inl BadLength
    else if s = 0xFC then Inl VerifyFail
    else Inl KeyError)"
  by (simp add: exchange_defs)

text \<open>
  C4. The claim holds for the four mapped codes and fails for the rest. A response to
  SELF\_VERIFY that echoes the command code and carries the success code UNDEFINED
  (\<open>0x00\<close>) raises KeyError, the failed dictionary lookup, where the claim asks for the
  protocol mismatch error; a response that echoes \<open>0x04\<close>, which is no command code,
  raises the enum's ValueError out of the debug message, where the claim asks for the
  protocol mismatch error too. The third part is the first one seen from the port.
\<close>

theorem verify_good_response_unmapped_code:
  "Bootloader__verify_good_response (Command SELF_VERIFY 0 0 0)
     (Response \<lparr>command = 0x0A, data_length = 0, unlock_sequence = 0, address = 0,
                success = 0x00\<rparr>) = Inl KeyError \<and>
   Bootloader__verify_good_response (Command SELF_VERIFY 0 0 0)
     (Response \<lparr>command = 0x04, data_length = 0, unlock_sequence = 0, address = 0,
                success = 0x01\<rparr>) = Inl (ValueError ''not a valid CommandCode'') \<and>
   Bootloader__send_and_receive (Command SELF_VERIFY 0 0 0) []
     \<lparr>timeout = Some 1, fails_after = None,
      rx = [0x0A, 0, 0, 0, 0, 0, 0, 0, 0, 0, 0, 0x00], events = []\<rparr> =
     (Inl KeyError,
      \<lparr>timeout = Some 1, fails_after = None, rx = [],
       events = [Write [0x0A, 0, 0, 0, 0, 0, 0, 0, 0, 0, 0],
                 Read [0x0A, 0, 0, 0, 0, 0, 0, 0, 0, 0, 0, 0x00]]\<rparr>)"
  by (simp add: exchange_defs codec_defs)

subsection \<open>Erasing\<close>

text \<open>
  C3. For the device range \<open>range(0x1000, 0x2000)\<close> and an erase size of 1024, with a
  program detected before the erase and none after it, \<open>erase_flash\<close> sends SELF\_VERIFY,
  ERASE\_FLASH and SELF\_VERIFY, reading the answer to each. The ERASE\_FLASH header written is that of
  \<open>data_length = 3\<close>, unlock sequence \<open>0x00AA0055\<close> and address \<open>0x1000\<close>: the
  unpacking \<open>start, *_, end\<close> takes the last item \<open>0x1FFF\<close> of the range as the end,
  and \<open>(0x1FFF - 0x1000) // 1024 = 3\<close>, where the claim says 4.
\<close>

theorem erase_flash_data_length_scenario:
  "Bootloader_erase_flash
     \<lparr>self_max_packet_length = 256, self_erase_size = 1024, self_write_size = 8,
      self_memory_range = Range 0x1000 0x2000 1\<rparr>
     (Some (Range 0x1000 0x2000 1)) False True
     \<lparr>timeout = Some 1, fails_after = None,
      rx = [0x0A, 0, 0, 0, 0, 0, 0, 0, 0, 0, 0, 0x01] @
           [0x03, 0, 0, 0, 0, 0, 0, 0, 0, 0, 0, 0x01] @
           [0x0A, 0, 0, 0, 0, 0, 0, 0, 0, 0, 0, 0xFC],
      events = []\<rparr> =
     (Inr (),
      \<lparr>timeout = Some 1, fails_after = None, rx = [],
       events = [Write [0x0A, 0, 0, 0, 0, 0, 0, 0, 0, 0, 0],
                 Read [0x0A, 0, 0, 0, 0, 0, 0, 0, 0, 0, 0, 0x01],
                 Write [0x03, 3, 0, 0x55, 0, 0xAA, 0, 0, 0x10, 0, 0],
                 Read [0x03, 0, 0, 0, 0, 0, 0, 0, 0, 0, 0, 0x01],
                 Write [0x0A, 0, 0, 0, 0, 0, 0, 0, 0, 0, 0],
                 Read [0x0A, 0, 0, 0, 0, 0, 0, 0, 0, 0, 0, 0xFC]]\<rparr>) \<and>
   Packet_from_bytes [0x03, 3, 0, 0x55, 0, 0xAA, 0, 0, 0x10, 0, 0] =
     Inr (Command ERASE_FLASH 3 FLASH_UNLOCK_KEY 0x1000)"
  by (simp add: erase_defs exchange_defs codec_defs)

text \<open>
  When the exchange succeeds the timeout is back at its value; the erase command carries
  the quotient of the two addresses \<open>_erase_flash\<close> is given, the unlock key and the
  start address.
\<close>

lemma erase_flash_private_success:
  assumes "Bootloader__erase_flash self a b w = (Inr u, w')"
  shows "timeout w' = timeout w"
  using assms
  unfolding Bootloader__erase_flash_def Bootloader__send_and_receive_def from_serial_def
    interface_read_def interface_write_def port_call_def Let_def
  by (auto split: sum.splits prod.splits if_splits option.splits nat.splits)

text \<open>
  C5. With a timeout of 1 and a device that answers ERASE\_FLASH with BAD\_ADDRESS, the
  forced erase raises BadAddress and leaves the timeout at 10: the assignment that
  restores it stands after the exchange and is skipped by the exception.
\<close>

theorem erase_flash_timeout_after_error:
  "Bootloader_erase_flash
     \<lparr>self_max_packet_length = 256, self_erase_size = 1024, self_write_size = 8,
      self_memory_range = Range 0x1000 0x2000 1\<rparr>
     None True False
     \<lparr>timeout = Some 1, fails_after = None,
      rx = [0x03, 0, 0, 0, 0, 0, 0, 0, 0, 0, 0, 0xFE], events = []\<rparr> =
     (Inl BadAddress,
      \<lparr>timeout = Some 10, fails_after = None, rx = [],
       events = [Write [0x03, 3, 0, 0x55, 0, 0xAA, 0, 0, 0x10, 0, 0],
                 Read [0x03, 0, 0, 0, 0, 0, 0, 0, 0, 0, 0, 0xFE]]\<rparr>)"
  by (simp add: erase_defs exchange_defs codec_defs)

subsection \<open>An exchange, call by call\<close>

lemma sent_ok: "Packet_bytes c = Inr header \<Longrightarrow> sent c data = Write (header @ data)"
  by (simp add: sent_def)

lemma port_works_less: "port_works n w \<Longrightarrow> m \<le> n \<Longrightarrow> port_works m w"
  by (auto simp: port_works_def split: option.splits)

lemma port_works_two:
  "port_works 2 w \<Longrightarrow> fails_after w = None \<or> (\<exists>k. fails_after w = Some (Suc (Suc k)))"
  by (cases "fails_after w")
     (auto simp: port_works_def numeral_2_eq_2 Suc_le_eq dest!: less_imp_Suc_add)

lemma exchange_write_fails:
  assumes "Packet_bytes c = Inr header" "fails_after w = Some 0"
  shows "Bootloader__send_and_receive c d w = (Inl SerialException, w)"
  using assms
  by (simp add: Bootloader__send_and_receive_def interface_write_def port_call_def)

lemma exchange_read_fails:
  assumes "Packet_bytes c = Inr header" "map_of RESPONSE_TYPE_MAP (command c) = Some t"
    and "fails_after w = Some (Suc 0)"
  shows "fst (Bootloader__send_and_receive c d w) = Inl SerialException \<and>
         events (snd (Bootloader__send_and_receive c d w)) = events w @ [sent c d]"
  using assms
  by (simp add: Bootloader__send_and_receive_def from_serial_def interface_read_def
      interface_write_def port_call_def sent_def)

lemma exchange_port_failure:
  assumes "Packet_bytes c = Inr header" "map_of RESPONSE_TYPE_MAP (command c) = Some t"
    and "fails_after w = Some k" "k < 2"
  shows "fst (Bootloader__send_and_receive c d w) = Inl SerialException"
proof -
  from assms(4) consider "k = 0" | "k = Suc 0" by linarith
  then show ?thesis
  proof cases
    case 1
    with assms exchange_write_fails [of c header w d] show ?thesis by simp
  next
    case 2
    with assms exchange_read_fails [of c header t w d] show ?thesis by simp
  qed
qed

lemma exchange_result:
  assumes "Packet_bytes c = Inr header" "map_of RESPONSE_TYPE_MAP (command c) = Some t"
    and "port_works 2 w" "timeout w \<noteq> None \<or> get_size t \<le> length (rx w)"
  shows "\<exists>w'. Bootloader__send_and_receive c d w =
           (case from_bytes t (take (get_size t) (rx w)) of
              Inl e \<Rightarrow> Inl e
            | Inr r \<Rightarrow> (case Bootloader__verify_good_response c r of
                         Inl e \<Rightarrow> Inl e | Inr u \<Rightarrow> Inr r), w') \<and>
         timeout w' = timeout w \<and>
         rx w' = drop (get_size t) (rx w) \<and>
         fails_after w' = map_option (\<lambda>k. k - 2) (fails_after w) \<and>
         events w' = events w @ [sent c d, Read (take (get_size t) (rx w))]"
proof -
  from port_works_two [OF assms(3)] show ?thesis
  proof
    assume "fails_after w = None"
    then show ?thesis
      using assms(1,2,4)
      by (auto simp add: Bootloader__send_and_receive_def from_serial_def interface_read_def
          interface_write_def port_call_def sent_def split: sum.splits)
  next
    assume "\<exists>k. fails_after w = Some (Suc (Suc k))"
    then show ?thesis
      using assms(1,2,4)
      by (auto simp add: Bootloader__send_and_receive_def from_serial_def interface_read_def
          interface_write_def port_call_def sent_def split: sum.splits)
  qed
qed

subsection \<open>Bring-up\<close>

lemma no_response_not_struct: "no_response e \<noteq> StructError"
  by (simp add: no_response_def)

lemma init_never_struct_error: "fst (Bootloader_init w) \<noteq> Inl StructError"
  unfolding Bootloader_init_def
  by (auto split: prod.splits sum.splits simp: no_response_not_struct)

lemma read_version_error:
  assumes "Bootloader__read_version w = (Inl e, w')"
  shows "e \<noteq> BootloaderError ''No response from bootloader''"
proof (cases "Bootloader__send_and_receive (Command READ_VERSION 0 0 0) [] w")
  case (Pair res w1)
  show ?thesis
  proof (cases res)
    case (Inl e1)
    with Pair assms have "e = e1" by (simp add: Bootloader__read_version_def)
    with Pair Inl send_and_receive_error [of _ _ w e1 w1] show ?thesis by auto
  next
    case (Inr r)
    with Pair assms show ?thesis
      by (cases r) (auto simp: Bootloader__read_version_def)
  qed
qed

lemma get_memory_address_range_error:
  assumes "Bootloader__get_memory_address_range w = (Inl e, w')"
  shows "e \<noteq> BootloaderError ''No response from bootloader''"
proof (cases "Bootloader__send_and_receive (Command GET_MEMORY_ADDRESS_RANGE 0 0 0) [] w")
  case (Pair res w1)
  show ?thesis
  proof (cases res)
    case (Inl e1)
    with Pair assms have "e = e1" by (simp add: Bootloader__get_memory_address_range_def)
    with Pair Inl send_and_receive_error [of _ _ w e1 w1] show ?thesis by auto
  next
    case (Inr r)
    with Pair assms show ?thesis
      by (cases r) (auto simp: Bootloader__get_memory_address_range_def)
  qed
qed

text \<open>
  \<open>__init__\<close> raises what the first exchange that fails raises, with
  \<open>struct.error\<close> replaced.
\<close>

lemma init_first_error:
  assumes "Bootloader__read_version w = (Inl e, w')"
  shows "Bootloader_init w = (Inl (no_response e), w')"
  using assms by (simp add: Bootloader_init_def)

lemma init_second_error:
  assumes "Bootloader__read_version w = (Inr x, w')"
    and "Bootloader__get_memory_address_range w' = (Inl e, w'')"
  shows "Bootloader_init w = (Inl (no_response e), w'')"
  using assms by (cases x) (simp add: Bootloader_init_def)

lemma init_no_response_iff:
  "fst (Bootloader_init w) = Inl (BootloaderError ''No response from bootloader'') \<longleftrightarrow>
   fst (Bootloader__read_version w) = Inl StructError \<or>
   (\<exists>x w'. Bootloader__read_version w = (Inr x, w') \<and>
           fst (Bootloader__get_memory_address_range w') = Inl StructError)"
proof (cases "Bootloader__read_version w")
  case (Pair r1 w1)
  show ?thesis
  proof (cases r1)
    case (Inl e)
    with Pair read_version_error have "e \<noteq> BootloaderError ''No response from bootloader''"
      by blast
    with Pair Inl show ?thesis
      by (auto simp: Bootloader_init_def no_response_def)
  next
    case (Inr x)
    obtain r2 w2 where g: "Bootloader__get_memory_address_range w1 = (r2, w2)"
      by (cases "Bootloader__get_memory_address_range w1")
    show ?thesis
    proof (cases r2)
      case (Inl e)
      with g get_memory_address_range_error
      have "e \<noteq> BootloaderError ''No response from bootloader''" by blast
      with Pair Inr g Inl show ?thesis
        by (cases x) (auto simp: Bootloader_init_def no_response_def)
    next
      case r2: (Inr y)
      with Pair Inr g show ?thesis
        by (cases x; cases y) (auto simp: Bootloader_init_def)
    qed
  qed
qed

lemma version_decoded_length:
  "VersionResponsePacket_from_bytes bs = Inr v \<Longrightarrow> length bs = VersionResponsePacket_get_size"
  by (auto simp: VersionResponsePacket_from_bytes_def struct_unpack_def
      VersionResponsePacket_get_size_def split: if_splits sum.splits)

lemma read_version_command:
  "Packet_bytes (Command READ_VERSION 0 0 0) = Inr [0, 0, 0, 0, 0, 0, 0, 0, 0, 0, 0]"
  "map_of RESPONSE_TYPE_MAP (command (Command READ_VERSION 0 0 0)) = Some VersionT"
  by (simp_all add: codec_defs Command_def RESPONSE_TYPE_MAP_def)

lemma get_memory_address_range_command:
  "Packet_bytes (Command GET_MEMORY_ADDRESS_RANGE 0 0 0) = Inr [0x0B, 0, 0, 0, 0, 0, 0, 0, 0, 0, 0]"
  "map_of RESPONSE_TYPE_MAP (command (Command GET_MEMORY_ADDRESS_RANGE 0 0 0)) =
     Some MemoryRangeT"
  by (simp_all add: codec_defs Command_def RESPONSE_TYPE_MAP_def)

lemma read_version_short:
  assumes "port_works 2 w" "timeout w \<noteq> None" "length (rx w) < VersionResponsePacket_get_size"
  shows "fst (Bootloader__read_version w) = Inl StructError"
proof -
  have "VersionResponsePacket_from_bytes (take VersionResponsePacket_get_size (rx w)) =
      Inl StructError"
    using assms(3)
    by (simp add: VersionResponsePacket_from_bytes_def struct_unpack_def
        VersionResponsePacket_get_size_def)
  with exchange_result [OF read_version_command assms(1), of "[]"] assms(2)
  show ?thesis by (auto simp: Bootloader__read_version_def)
qed

lemma get_memory_address_range_short:
  assumes "port_works 2 w" "timeout w \<noteq> None" "length (rx w) < MemoryRangePacket_get_size"
  shows "fst (Bootloader__get_memory_address_range w) = Inl StructError"
proof -
  have "MemoryRangePacket_from_bytes (take MemoryRangePacket_get_size (rx w)) =
      Inl StructError"
    using assms(3)
    by (simp add: MemoryRangePacket_from_bytes_def struct_unpack_def
        MemoryRangePacket_get_size_def)
  with exchange_result [OF get_memory_address_range_command assms(1), of "[]"] assms(2)
  show ?thesis by (auto simp: Bootloader__get_memory_address_range_def)
qed

lemma read_version_port_failure:
  assumes "fails_after w = Some k" "k < 2"
  shows "fst (Bootloader__read_version w) = Inl SerialException"
  using exchange_port_failure [OF read_version_command assms, of "[]"]
  by (cases "Bootloader__send_and_receive (Command READ_VERSION 0 0 0) [] w")
     (simp add: Bootloader__read_version_def)

lemma get_memory_address_range_port_failure:
  assumes "fails_after w = Some k" "k < 2"
  shows "fst (Bootloader__get_memory_address_range w) = Inl SerialException"
  using exchange_port_failure [OF get_memory_address_range_command assms, of "[]"]
  by (cases "Bootloader__send_and_receive (Command GET_MEMORY_ADDRESS_RANGE 0 0 0) [] w")
     (simp add: Bootloader__get_memory_address_range_def)

text \<open>
  A complete version response that echoes READ\_VERSION, whatever its pad bytes hold,
  completes the first exchange; two calls of the port are used up.
\<close>

lemma read_version_ok:
  assumes "port_works 2 w"
    and "VersionResponsePacket_from_bytes (take VersionResponsePacket_get_size (rx w)) = Inr v"
    and "command v = command_value READ_VERSION"
  shows "\<exists>w'. Bootloader__read_version w =
           (Inr (version v, max_packet_length v, device_id v, erase_size v, write_size v), w') \<and>
         timeout w' = timeout w \<and>
         rx w' = drop VersionResponsePacket_get_size (rx w) \<and>
         fails_after w' = map_option (\<lambda>k. k - 2) (fails_after w)"
proof -
  have "length (take VersionResponsePacket_get_size (rx w)) = VersionResponsePacket_get_size"
    using assms(2) by (rule version_decoded_length)
  then have len: "get_size VersionT \<le> length (rx w)" by simp
  have "Bootloader__verify_good_response (Command READ_VERSION 0 0 0) (Version v) = Inr ()"
    using assms(3) by (simp add: Bootloader__verify_good_response_def Command_def)
  with exchange_result [OF read_version_command assms(1), of "[]"] len assms(2)
  show ?thesis by (auto simp: Bootloader__read_version_def)
qed

text \<open>
  C9, as amended. Bring-up never raises \<open>struct.error\<close>. A response that is cut
  short (with a timeout set, fewer bytes arrive than the response class has), in the
  READ\_VERSION exchange or, after a complete version response, in the
  GET\_MEMORY\_ADDRESS\_RANGE exchange, surfaces as BootloaderError "No response from
  bootloader"; that error is raised exactly when one of the two exchanges raises
  \<open>struct.error\<close>. A failure of the port is not caught: whether it strikes at the
  \<open>write\<close> or at the \<open>read\<close> of the first exchange (the port fails after no call
  or after one) or, after a complete version response, at the \<open>write\<close> or at the
  \<open>read\<close> of the second exchange (after two calls or after three), it surfaces as
  the SerialException it is. Any error of an exchange other than \<open>struct.error\<close>
  is raised unchanged.
\<close>

theorem bring_up_short_response:
  "fst (Bootloader_init w) \<noteq> Inl StructError \<and>
   (port_works 2 w1 \<and> timeout w1 \<noteq> None \<and> length (rx w1) < VersionResponsePacket_get_size \<longrightarrow>
      fst (Bootloader_init w1) = Inl (BootloaderError ''No response from bootloader'')) \<and>
   (port_works 4 w2 \<and> timeout w2 \<noteq> None \<and>
    VersionResponsePacket_from_bytes (take VersionResponsePacket_get_size (rx w2)) = Inr v2 \<and>
    command v2 = command_value READ_VERSION \<and>
    length (drop VersionResponsePacket_get_size (rx w2)) < MemoryRangePacket_get_size \<longrightarrow>
      fst (Bootloader_init w2) = Inl (BootloaderError ''No response from bootloader'')) \<and>
   (fails_after w3 = Some k3 \<and> k3 < 2 \<longrightarrow> fst (Bootloader_init w3) = Inl SerialException) \<and>
   (fails_after w4 = Some k4 \<and> 2 \<le> k4 \<and> k4 < 4 \<and>
    VersionResponsePacket_from_bytes (take VersionResponsePacket_get_size (rx w4)) = Inr v4 \<and>
    command v4 = command_value READ_VERSION \<longrightarrow>
      fst (Bootloader_init w4) = Inl SerialException) \<and>
   (fst (Bootloader_init w) = Inl (BootloaderError ''No response from bootloader'') \<longleftrightarrow>
      fst (Bootloader__read_version w) = Inl StructError \<or>
      (\<exists>x w'. Bootloader__read_version w = (Inr x, w') \<and>
              fst (Bootloader__get_memory_address_range w') = Inl StructError)) \<and>
   (Bootloader__read_version w5 = (Inl e5, w5') \<and> e5 \<noteq> StructError \<longrightarrow>
      Bootloader_init w5 = (Inl e5, w5')) \<and>
   (Bootloader__read_version w6 = (Inr x6, w6') \<and>
    Bootloader__get_memory_address_range w6' = (Inl e6, w6'') \<and> e6 \<noteq> StructError \<longrightarrow>
      Bootloader_init w6 = (Inl e6, w6''))"
proof (intro conjI impI)
  show "fst (Bootloader_init w) \<noteq> Inl StructError"
    by (rule init_never_struct_error)
next
  assume "port_works 2 w1 \<and> timeout w1 \<noteq> None \<and>
    length (rx w1) < VersionResponsePacket_get_size"
  then have "fst (Bootloader__read_version w1) = Inl StructError"
    by (simp add: read_version_short)
  then show "fst (Bootloader_init w1) = Inl (BootloaderError ''No response from bootloader'')"
    by (simp add: init_no_response_iff)
next
  assume a: "port_works 4 w2 \<and> timeout w2 \<noteq> None \<and>
    VersionResponsePacket_from_bytes (take VersionResponsePacket_get_size (rx w2)) = Inr v2 \<and>
    command v2 = command_value READ_VERSION \<and>
    length (drop VersionResponsePacket_get_size (rx w2)) < MemoryRangePacket_get_size"
  then have "port_works 2 w2" by (auto intro: port_works_less)
  with a obtain w' where rv: "Bootloader__read_version w2 =
      (Inr (version v2, max_packet_length v2, device_id v2, erase_size v2, write_size v2), w')"
    and w': "timeout w' = timeout w2" "rx w' = drop VersionResponsePacket_get_size (rx w2)"
      "fails_after w' = map_option (\<lambda>k. k - 2) (fails_after w2)"
    using read_version_ok [of w2 v2] by blast
  have "port_works 2 w'"
    using a w'(3) by (auto simp: port_works_def split: option.splits)
  then have "fst (Bootloader__get_memory_address_range w') = Inl StructError"
    using a w' by (intro get_memory_address_range_short) simp_all
  with rv show "fst (Bootloader_init w2) = Inl (BootloaderError ''No response from bootloader'')"
    unfolding init_no_response_iff by blast
next
  assume "fails_after w3 = Some k3 \<and> k3 < 2"
  then have "fst (Bootloader__read_version w3) = Inl SerialException"
    using read_version_port_failure by blast
  then show "fst (Bootloader_init w3) = Inl SerialException"
    by (cases "Bootloader__read_version w3") (simp add: init_first_error no_response_def)
next
  assume a: "fails_after w4 = Some k4 \<and> 2 \<le> k4 \<and> k4 < 4 \<and>
    VersionResponsePacket_from_bytes (take VersionResponsePacket_get_size (rx w4)) = Inr v4 \<and>
    command v4 = command_value READ_VERSION"
  then have "port_works 2 w4" by (simp add: port_works_def)
  with a obtain w' where rv: "Bootloader__read_version w4 =
      (Inr (version v4, max_packet_length v4, device_id v4, erase_size v4, write_size v4), w')"
    and w': "fails_after w' = map_option (\<lambda>k. k - 2) (fails_after w4)"
    using read_version_ok [of w4 v4] by blast
  have "fails_after w' = Some (k4 - 2)" "k4 - 2 < 2" using a w' by auto
  then have "fst (Bootloader__get_memory_address_range w') = Inl SerialException"
    by (rule get_memory_address_range_port_failure)
  with rv show "fst (Bootloader_init w4) = Inl SerialException"
    by (cases "Bootloader__get_memory_address_range w'")
       (simp add: init_second_error no_response_def)
next
  show "fst (Bootloader_init w) = Inl (BootloaderError ''No response from bootloader'') \<longleftrightarrow>
      fst (Bootloader__read_version w) = Inl StructError \<or>
      (\<exists>x w'. Bootloader__read_version w = (Inr x, w') \<and>
              fst (Bootloader__get_memory_address_range w') = Inl StructError)"
    by (rule init_no_response_iff)
next
  assume "Bootloader__read_version w5 = (Inl e5, w5') \<and> e5 \<noteq> StructError"
  then show "Bootloader_init w5 = (Inl e5, w5')"
    by (simp add: init_first_error no_response_def)
next
  assume "Bootloader__read_version w6 = (Inr x6, w6') \<and>
    Bootloader__get_memory_address_range w6' = (Inl e6, w6'') \<and> e6 \<noteq> StructError"
  then show "Bootloader_init w6 = (Inl e6, w6'')"
    by (simp add: init_second_error no_response_def)
qed

theorem bring_up_short_response_witness:
  "fst (Bootloader_init \<lparr>timeout = Some 1, fails_after = None, rx = [],
      events = []\<rparr>) \<noteq> Inl StructError \<and>
   fst (Bootloader_init \<lparr>timeout = Some 1, fails_after = None, rx = [],
       events = []\<rparr>) = Inl (BootloaderError ''No response from bootloader'') \<and>
   VersionResponsePacket_from_bytes
     [0, 0, 0, 0, 0, 0, 0, 0, 0, 0, 0, 0x02, 0x01, 0x00, 0x01, 0xAA, 0xBB, 0x56, 0x34, 0xCC,
         0xDD, 0x00, 0x04, 0x08, 0x00, 0xEE, 0xEE, 0xEE, 0xEE, 0xEE, 0xEE, 0xEE, 0xEE, 0xEE,
         0xEE, 0xEE, 0xEE] =
     Inr \<lparr>command = 0, data_length = 0, unlock_sequence = 0, address = 0,
         version = 0x0102, max_packet_length = 256, device_id = 0x3456, erase_size = 1024,
         write_size = 8\<rparr> \<and>
   fst (Bootloader_init
     \<lparr>timeout = Some 1, fails_after = Some 4, rx = [0, 0, 0, 0, 0, 0, 0, 0, 0, 0, 0,
         0x02, 0x01, 0x00, 0x01, 0xAA, 0xBB, 0x56, 0x34, 0xCC, 0xDD, 0x00, 0x04, 0x08, 0x00,
         0xEE, 0xEE, 0xEE, 0xEE, 0xEE, 0xEE, 0xEE, 0xEE, 0xEE, 0xEE, 0xEE, 0xEE] @ [0x0B, 0,
         0], events = []\<rparr>) = Inl (BootloaderError ''No response from bootloader'') \<and>
   fst (Bootloader_init
     \<lparr>timeout = Some 1, fails_after = Some 1, rx = [0, 0, 0, 0, 0, 0, 0, 0, 0, 0, 0,
         0x02, 0x01, 0x00, 0x01, 0xAA, 0xBB, 0x56, 0x34, 0xCC, 0xDD, 0x00, 0x04, 0x08, 0x00,
         0xEE, 0xEE, 0xEE, 0xEE, 0xEE, 0xEE, 0xEE, 0xEE, 0xEE, 0xEE, 0xEE, 0xEE],
         events = []\<rparr>) = Inl SerialException \<and>
   fst (Bootloader_init
     \<lparr>timeout = Some 1, fails_after = Some 3, rx = [0, 0, 0, 0, 0, 0, 0, 0, 0, 0, 0,
         0x02, 0x01, 0x00, 0x01, 0xAA, 0xBB, 0x56, 0x34, 0xCC, 0xDD, 0x00, 0x04, 0x08, 0x00,
         0xEE, 0xEE, 0xEE, 0xEE, 0xEE, 0xEE, 0xEE, 0xEE, 0xEE, 0xEE, 0xEE, 0xEE] @ [0x0B, 0, 0,
         0, 0, 0, 0, 0, 0, 0, 0, 0xFE, 0x00, 0x10, 0, 0, 0x00, 0x20, 0, 0],
         events = []\<rparr>) = Inl SerialException \<and>
   fst (Bootloader__read_version \<lparr>timeout = Some 1, fails_after = None, rx = [],
       events = []\<rparr>) = Inl StructError \<and>
   Bootloader__read_version \<lparr>timeout = None, fails_after = Some 0, rx = [],
       events = []\<rparr> =
     (Inl SerialException, \<lparr>timeout = None, fails_after = Some 0, rx = [],
         events = []\<rparr>) \<and>
   Bootloader_init \<lparr>timeout = None, fails_after = Some 0, rx = [], events = []\<rparr> =
     (Inl SerialException, \<lparr>timeout = None, fails_after = Some 0, rx = [],
         events = []\<rparr>) \<and>
   Bootloader__read_version
     \<lparr>timeout = Some 1, fails_after = None, rx = [0, 0, 0, 0, 0, 0, 0, 0, 0, 0, 0, 0x02,
         0x01, 0x00, 0x01, 0, 0, 0x56, 0x34, 0, 0, 0x00, 0x04, 0x08, 0x00, 0, 0, 0, 0, 0, 0, 0,
         0, 0, 0, 0, 0] @ [0x0B, 0, 0, 0, 0, 0, 0, 0, 0, 0, 0, 0xFE, 0x00, 0x10, 0, 0, 0x00,
         0x20, 0, 0], events = []\<rparr> =
     (Inr (0x0102, 256, 0x3456, 1024, 8),
      \<lparr>timeout = Some 1, fails_after = None, rx = [0x0B, 0, 0, 0, 0, 0, 0, 0, 0, 0, 0,
          0xFE, 0x00, 0x10, 0, 0, 0x00, 0x20, 0, 0], events = [Write [0, 0, 0, 0, 0, 0, 0, 0,
          0, 0, 0], Read [0, 0, 0, 0, 0, 0, 0, 0, 0, 0, 0, 0x02, 0x01, 0x00, 0x01, 0, 0, 0x56,
          0x34, 0, 0, 0x00, 0x04, 0x08, 0x00, 0, 0, 0, 0, 0, 0, 0, 0, 0, 0, 0,
          0]]\<rparr>) \<and>
   Bootloader__get_memory_address_range
     \<lparr>timeout = Some 1, fails_after = None, rx = [0x0B, 0, 0, 0, 0, 0, 0, 0, 0, 0, 0,
         0xFE, 0x00, 0x10, 0, 0, 0x00, 0x20, 0, 0], events = [Write [0, 0, 0, 0, 0, 0, 0, 0, 0,
         0, 0], Read [0, 0, 0, 0, 0, 0, 0, 0, 0, 0, 0, 0x02, 0x01, 0x00, 0x01, 0, 0, 0x56,
         0x34, 0, 0, 0x00, 0x04, 0x08, 0x00, 0, 0, 0, 0, 0, 0, 0, 0, 0, 0, 0, 0]]\<rparr> =
     (Inl BadAddress,
      \<lparr>timeout = Some 1, fails_after = None, rx = [], events = [Write [0, 0, 0, 0, 0, 0,
          0, 0, 0, 0, 0], Read [0, 0, 0, 0, 0, 0, 0, 0, 0, 0, 0, 0x02, 0x01, 0x00, 0x01, 0, 0,
          0x56, 0x34, 0, 0, 0x00, 0x04, 0x08, 0x00, 0, 0, 0, 0, 0, 0, 0, 0, 0, 0, 0, 0],
          Write [0x0B, 0, 0, 0, 0, 0, 0, 0, 0, 0, 0], Read [0x0B, 0, 0, 0, 0, 0, 0, 0, 0, 0, 0,
          0xFE, 0x00, 0x10, 0, 0, 0x00, 0x20, 0, 0]]\<rparr>) \<and>
   Bootloader_init
     \<lparr>timeout = Some 1, fails_after = None, rx = [0, 0, 0, 0, 0, 0, 0, 0, 0, 0, 0, 0x02,
         0x01, 0x00, 0x01, 0, 0, 0x56, 0x34, 0, 0, 0x00, 0x04, 0x08, 0x00, 0, 0, 0, 0, 0, 0, 0,
         0, 0, 0, 0, 0] @ [0x0B, 0, 0, 0, 0, 0, 0, 0, 0, 0, 0, 0xFE, 0x00, 0x10, 0, 0, 0x00,
         0x20, 0, 0], events = []\<rparr> =
     (Inl BadAddress,
      \<lparr>timeout = Some 1, fails_after = None, rx = [], events = [Write [0, 0, 0, 0, 0, 0,
          0, 0, 0, 0, 0], Read [0, 0, 0, 0, 0, 0, 0, 0, 0, 0, 0, 0x02, 0x01, 0x00, 0x01, 0, 0,
          0x56, 0x34, 0, 0, 0x00, 0x04, 0x08, 0x00, 0, 0, 0, 0, 0, 0, 0, 0, 0, 0, 0, 0],
          Write [0x0B, 0, 0, 0, 0, 0, 0, 0, 0, 0, 0], Read [0x0B, 0, 0, 0, 0, 0, 0, 0, 0, 0, 0,
          0xFE, 0x00, 0x10, 0, 0, 0x00, 0x20, 0, 0]]\<rparr>)"
  using bring_up_short_response
    [where w = "\<lparr>timeout = Some 1, fails_after = None, rx = [], events = []\<rparr>"
       and ?w1.0 = "\<lparr>timeout = Some 1, fails_after = None, rx = [], events = []\<rparr>"
       and ?w2.0 = "\<lparr>timeout = Some 1, fails_after = Some 4, rx = [0, 0, 0, 0, 0, 0, 0,
           0, 0, 0, 0, 0x02, 0x01, 0x00, 0x01, 0xAA, 0xBB, 0x56, 0x34, 0xCC, 0xDD, 0x00, 0x04,
           0x08, 0x00, 0xEE, 0xEE, 0xEE, 0xEE, 0xEE, 0xEE, 0xEE, 0xEE, 0xEE, 0xEE, 0xEE,
           0xEE] @ [0x0B, 0, 0], events = []\<rparr>"
       and ?v2.0 = "\<lparr>command = 0, data_length = 0, unlock_sequence = 0, address = 0,
           version = 0x0102, max_packet_length = 256, device_id = 0x3456, erase_size = 1024,
           write_size = 8\<rparr>"
       and ?w3.0 = "\<lparr>timeout = Some 1, fails_after = Some 1, rx = [0, 0, 0, 0, 0, 0, 0,
           0, 0, 0, 0, 0x02, 0x01, 0x00, 0x01, 0xAA, 0xBB, 0x56, 0x34, 0xCC, 0xDD, 0x00, 0x04,
           0x08, 0x00, 0xEE, 0xEE, 0xEE, 0xEE, 0xEE, 0xEE, 0xEE, 0xEE, 0xEE, 0xEE, 0xEE, 0xEE],
           events = []\<rparr>" and ?k3.0 = 1
       and ?w4.0 = "\<lparr>timeout = Some 1, fails_after = Some 3, rx = [0, 0, 0, 0, 0, 0, 0,
           0, 0, 0, 0, 0x02, 0x01, 0x00, 0x01, 0xAA, 0xBB, 0x56, 0x34, 0xCC, 0xDD, 0x00, 0x04,
           0x08, 0x00, 0xEE, 0xEE, 0xEE, 0xEE, 0xEE, 0xEE, 0xEE, 0xEE, 0xEE, 0xEE, 0xEE,
           0xEE] @ [0x0B, 0, 0, 0, 0, 0, 0, 0, 0, 0, 0, 0xFE, 0x00, 0x10, 0, 0, 0x00, 0x20, 0,
           0], events = []\<rparr>" and ?k4.0 = 3
       and ?v4.0 = "\<lparr>command = 0, data_length = 0, unlock_sequence = 0, address = 0,
           version = 0x0102, max_packet_length = 256, device_id = 0x3456, erase_size = 1024,
           write_size = 8\<rparr>"
       and ?w5.0 = "\<lparr>timeout = None, fails_after = Some 0, rx = [],
           events = []\<rparr>" and ?e5.0 = SerialException
       and ?w5' = "\<lparr>timeout = None, fails_after = Some 0, rx = [], events = []\<rparr>"
       and ?w6.0 = "\<lparr>timeout = Some 1, fails_after = None, rx = [0, 0, 0, 0, 0, 0, 0, 0,
           0, 0, 0, 0x02, 0x01, 0x00, 0x01, 0, 0, 0x56, 0x34, 0, 0, 0x00, 0x04, 0x08, 0x00, 0,
           0, 0, 0, 0, 0, 0, 0, 0, 0, 0, 0] @ [0x0B, 0, 0, 0, 0, 0, 0, 0, 0, 0, 0, 0xFE, 0x00,
           0x10, 0, 0, 0x00, 0x20, 0, 0], events = []\<rparr>"
       and ?x6.0 = "(0x0102, 256, 0x3456, 1024, 8)"
       and ?w6' = "\<lparr>timeout = Some 1, fails_after = None, rx = [0x0B, 0, 0, 0, 0, 0, 0,
           0, 0, 0, 0, 0xFE, 0x00, 0x10, 0, 0, 0x00, 0x20, 0, 0], events = [Write [0, 0, 0, 0,
           0, 0, 0, 0, 0, 0, 0], Read [0, 0, 0, 0, 0, 0, 0, 0, 0, 0, 0, 0x02, 0x01, 0x00, 0x01,
           0, 0, 0x56, 0x34, 0, 0, 0x00, 0x04, 0x08, 0x00, 0, 0, 0, 0, 0, 0, 0, 0, 0, 0, 0,
           0]]\<rparr>"
       and ?e6.0 = BadAddress
       and ?w6'' = "\<lparr>timeout = Some 1, fails_after = None, rx = [], events = [Write [0,
           0, 0, 0, 0, 0, 0, 0, 0, 0, 0], Read [0, 0, 0, 0, 0, 0, 0, 0, 0, 0, 0, 0x02, 0x01,
           0x00, 0x01, 0, 0, 0x56, 0x34, 0, 0, 0x00, 0x04, 0x08, 0x00, 0, 0, 0, 0, 0, 0, 0, 0,
           0, 0, 0, 0], Write [0x0B, 0, 0, 0, 0, 0, 0, 0, 0, 0, 0], Read [0x0B, 0, 0, 0, 0, 0,
           0, 0, 0, 0, 0, 0xFE, 0x00, 0x10, 0, 0, 0x00, 0x20, 0, 0]]\<rparr>"]
  by (simp add: port_works_def Bootloader__read_version_def
      Bootloader__get_memory_address_range_def exchange_defs codec_defs)

text \<open>
  C9 as stated fails when the port itself fails during bring-up: the \<open>write\<close> of
  the READ\_VERSION command, or the \<open>read\<close> that follows it, raises SerialException,
  which \<open>__init__\<close> does not catch.
\<close>

theorem bring_up_port_failure_propagates:
  "fst (Bootloader_init \<lparr>timeout = Some 1, fails_after = Some 0, rx = [],
      events = []\<rparr>) =
     Inl SerialException \<and>
   fst (Bootloader_init \<lparr>timeout = Some 1, fails_after = Some 1, rx = [],
       events = []\<rparr>) =
     Inl SerialException \<and>
   SerialException \<noteq> BootloaderError ''No response from bootloader''"
  by (simp add: Bootloader_init_def Bootloader__read_version_def exchange_defs codec_defs
      no_response_def)

subsection \<open>The range given to \<open>erase_flash\<close>\<close>

lemma send_and_receive_not_unpack:
  assumes "Bootloader__send_and_receive c d w = (Inl e, w')"
  shows "e \<noteq> ValueError ''not enough values to unpack''"
  using send_and_receive_error [OF assms] by auto

lemma detect_program_error:
  assumes "Bootloader__detect_program w = (Inl e, w')"
  shows "e \<noteq> ValueError ''not enough values to unpack''"
proof (cases "Bootloader__send_and_receive (Command SELF_VERIFY 0 0 0) [] w")
  case (Pair res w1)
  show ?thesis
  proof (cases res)
    case (Inl e1)
    with Pair assms have "e = e1"
      by (simp add: Bootloader__detect_program_def Bootloader__self_verify_def split: if_splits)
    with Pair Inl send_and_receive_not_unpack show ?thesis by blast
  next
    case (Inr r)
    with Pair assms show ?thesis
      by (simp add: Bootloader__detect_program_def Bootloader__self_verify_def)
  qed
qed

lemma erase_flash_private_error:
  assumes "Bootloader__erase_flash self a b w = (Inl e, w')"
  shows "e \<noteq> ValueError ''not enough values to unpack''"
proof (cases "self_erase_size self = 0")
  case True
  with assms show ?thesis by (auto simp: Bootloader__erase_flash_def Let_def)
next
  case False
  define w1 where
    "w1 = (case timeout w of None \<Rightarrow> w | Some t \<Rightarrow> w\<lparr>timeout := Some (t * 10)\<rparr>)"
  define c where
    "c = Command ERASE_FLASH ((b - a) div self_erase_size self) FLASH_UNLOCK_KEY a"
  obtain res w2 where sr: "Bootloader__send_and_receive c [] w1 = (res, w2)"
    by (cases "Bootloader__send_and_receive c [] w1")
  show ?thesis
  proof (cases res)
    case (Inl e1)
    with sr assms False have "e = e1"
      by (simp add: Bootloader__erase_flash_def Let_def w1_def c_def)
    with sr Inl send_and_receive_not_unpack show ?thesis by blast
  next
    case (Inr r)
    with sr assms False show ?thesis
      by (simp add: Bootloader__erase_flash_def Let_def w1_def c_def)
  qed
qed

text \<open>Once the unpacking has succeeded, nothing later raises its error.\<close>

lemma erase_flash_unpacked:
  assumes "unpack_first_last r = Inr (a, b)"
    and "(case erase_range of None \<Rightarrow> self_memory_range self
          | Some r' \<Rightarrow> if range_len r' = 0 then self_memory_range self else r') = r"
  shows "fst (Bootloader_erase_flash self erase_range force verify w) \<noteq>
        Inl (ValueError ''not enough values to unpack'')"
proof -
  obtain d w1 where d: "(if force then (Inr True, w) else Bootloader__detect_program w) = (d, w1)"
    by (cases "if force then (Inr True, w) else Bootloader__detect_program w")
  have body: "Bootloader_erase_flash self erase_range force verify w =
     (case (d, w1) of
             (Inl e, w1) \<Rightarrow> (Inl e, w1)
           | (Inr False, w1) \<Rightarrow> (Inr (), w1)
           | (Inr True, w1) \<Rightarrow>
               (case Bootloader__erase_flash self a b w1 of
                  (Inl e, w2) \<Rightarrow> (Inl e, w2)
                | (Inr u, w2) \<Rightarrow>
                    (if verify
                     then (case Bootloader__detect_program w2 of
                             (Inl e, w3) \<Rightarrow> (Inl e, w3)
                           | (Inr True, w3) \<Rightarrow>
                               (Inl (BootloaderError ''Existing application could not be erased''), w3)
                           | (Inr False, w3) \<Rightarrow> (Inr (), w3))
                     else (Inr (), w2))))"
    using assms d by (simp add: Bootloader_erase_flash_def)
  show ?thesis
  proof (cases d)
    case (Inl e)
    with d have "\<not> force" "Bootloader__detect_program w = (Inl e, w1)"
      by (auto split: if_splits)
    then show ?thesis using body Inl detect_program_error by auto
  next
    case (Inr p)
    show ?thesis
    proof (cases p)
      case False
      with Inr body show ?thesis by simp
    next
      case True
      obtain x w2 where x: "Bootloader__erase_flash self a b w1 = (x, w2)"
        by (cases "Bootloader__erase_flash self a b w1")
      show ?thesis
      proof (cases x)
        case (Inl e)
        with x True Inr body erase_flash_private_error show ?thesis by auto
      next
        case (Inr u)
        obtain y w3 where y: "Bootloader__detect_program w2 = (y, w3)"
          by (cases "Bootloader__detect_program w2")
        show ?thesis
          using body True \<open>d = Inr p\<close> x Inr y detect_program_error [of w2 _ w3]
          by (cases y; cases verify) (auto split: bool.splits)
      qed
    qed
  qed
qed

text \<open>
  C10, as amended. An explicit \<open>erase_range\<close> of exactly one item fails with the
  unpacking error and leaves the world untouched (no exchange is issued). An empty
  \<open>erase_range\<close> is false, like None: the call is the call with None, where the
  device's memory range is unpacked in its place; so it fails with the unpacking error,
  the world untouched, when the device's range has fewer than two items, and never
  with that error when the device's range has two items or more. With an explicit
  range of two items or more the unpacking error is never raised.
\<close>

theorem erase_range_unpacking:
  "(range_len r1 = 1 \<longrightarrow>
      Bootloader_erase_flash self (Some r1) force verify w =
        (Inl (ValueError ''not enough values to unpack''), w)) \<and>
   (range_len r0 = 0 \<longrightarrow>
      Bootloader_erase_flash self (Some r0) force verify w =
        Bootloader_erase_flash self None force verify w) \<and>
   (2 \<le> range_len r2 \<longrightarrow>
      fst (Bootloader_erase_flash self (Some r2) force verify w) \<noteq>
        Inl (ValueError ''not enough values to unpack'')) \<and>
   (range_len r3 = 0 \<and> range_len (self_memory_range self3) < 2 \<longrightarrow>
      Bootloader_erase_flash self3 (Some r3) force verify w =
        (Inl (ValueError ''not enough values to unpack''), w)) \<and>
   (range_len r4 = 0 \<and> 2 \<le> range_len (self_memory_range self4) \<longrightarrow>
      fst (Bootloader_erase_flash self4 (Some r4) force verify w) \<noteq>
        Inl (ValueError ''not enough values to unpack''))"
proof (intro conjI impI)
  assume "range_len r1 = 1"
  then show "Bootloader_erase_flash self (Some r1) force verify w =
        (Inl (ValueError ''not enough values to unpack''), w)"
    by (simp add: Bootloader_erase_flash_def unpack_first_last_def)
next
  assume "range_len r0 = 0"
  then show "Bootloader_erase_flash self (Some r0) force verify w =
        Bootloader_erase_flash self None force verify w"
    by (simp add: Bootloader_erase_flash_def)
next
  assume "2 \<le> range_len r2"
  then show "fst (Bootloader_erase_flash self (Some r2) force verify w) \<noteq>
        Inl (ValueError ''not enough values to unpack'')"
    by (intro erase_flash_unpacked [where r = r2]) (simp_all add: unpack_first_last_def)
next
  assume "range_len r3 = 0 \<and> range_len (self_memory_range self3) < 2"
  then show "Bootloader_erase_flash self3 (Some r3) force verify w =
        (Inl (ValueError ''not enough values to unpack''), w)"
    by (simp add: Bootloader_erase_flash_def unpack_first_last_def)
next
  assume "range_len r4 = 0 \<and> 2 \<le> range_len (self_memory_range self4)"
  then show "fst (Bootloader_erase_flash self4 (Some r4) force verify w) \<noteq>
        Inl (ValueError ''not enough values to unpack'')"
    by (intro erase_flash_unpacked [where r = "self_memory_range self4"])
       (simp_all add: unpack_first_last_def)
qed

theorem erase_range_unpacking_witness:
  "Bootloader_erase_flash
     \<lparr>self_max_packet_length = 256, self_erase_size = 1024, self_write_size = 8,
      self_memory_range = Range 0x1000 0x2000 1\<rparr>
     (Some (Range 5 6 1)) False True
     \<lparr>timeout = Some 1, fails_after = None,
      rx = [0x0A, 0, 0, 0, 0, 0, 0, 0, 0, 0, 0, 0xFC], events = []\<rparr> =
     (Inl (ValueError ''not enough values to unpack''),
      \<lparr>timeout = Some 1, fails_after = None,
      rx = [0x0A, 0, 0, 0, 0, 0, 0, 0, 0, 0, 0, 0xFC], events = []\<rparr>) \<and>
   Bootloader_erase_flash
     \<lparr>self_max_packet_length = 256, self_erase_size = 1024, self_write_size = 8,
      self_memory_range = Range 0x1000 0x2000 1\<rparr>
     (Some (Range 5 5 1)) False True
     \<lparr>timeout = Some 1, fails_after = None,
      rx = [0x0A, 0, 0, 0, 0, 0, 0, 0, 0, 0, 0, 0xFC], events = []\<rparr> =
   Bootloader_erase_flash
     \<lparr>self_max_packet_length = 256, self_erase_size = 1024, self_write_size = 8,
      self_memory_range = Range 0x1000 0x2000 1\<rparr>
     None False True
     \<lparr>timeout = Some 1, fails_after = None,
      rx = [0x0A, 0, 0, 0, 0, 0, 0, 0, 0, 0, 0, 0xFC], events = []\<rparr> \<and>
   fst (Bootloader_erase_flash
     \<lparr>self_max_packet_length = 256, self_erase_size = 1024, self_write_size = 8,
      self_memory_range = Range 0x1000 0x2000 1\<rparr>
     (Some (Range 0x1000 0x1002 1)) False True
     \<lparr>timeout = Some 1, fails_after = None,
      rx = [0x0A, 0, 0, 0, 0, 0, 0, 0, 0, 0, 0, 0xFC], events = []\<rparr>) \<noteq>
     Inl (ValueError ''not enough values to unpack'') \<and>
   Bootloader_erase_flash
     \<lparr>self_max_packet_length = 256, self_erase_size = 1024, self_write_size = 8,
      self_memory_range = Range 0x1000 0x1001 1\<rparr>
     (Some (Range 5 5 1)) False True
     \<lparr>timeout = Some 1, fails_after = None,
      rx = [0x0A, 0, 0, 0, 0, 0, 0, 0, 0, 0, 0, 0xFC], events = []\<rparr> =
     (Inl (ValueError ''not enough values to unpack''),
      \<lparr>timeout = Some 1, fails_after = None,
      rx = [0x0A, 0, 0, 0, 0, 0, 0, 0, 0, 0, 0, 0xFC], events = []\<rparr>) \<and>
   fst (Bootloader_erase_flash
     \<lparr>self_max_packet_length = 256, self_erase_size = 1024, self_write_size = 8,
      self_memory_range = Range 0x1000 0x2000 1\<rparr>
     (Some (Range 7 7 1)) False True
     \<lparr>timeout = Some 1, fails_after = None,
      rx = [0x0A, 0, 0, 0, 0, 0, 0, 0, 0, 0, 0, 0xFC], events = []\<rparr>) \<noteq>
     Inl (ValueError ''not enough values to unpack'')"
  using erase_range_unpacking
    [where ?r1.0 = "Range 5 6 1" and ?r0.0 = "Range 5 5 1" and ?r2.0 = "Range 0x1000 0x1002 1"
       and self = "\<lparr>self_max_packet_length = 256, self_erase_size = 1024, self_write_size = 8,
      self_memory_range = Range 0x1000 0x2000 1\<rparr>"
       and force = False and verify = True
       and w = "\<lparr>timeout = Some 1, fails_after = None,
      rx = [0x0A, 0, 0, 0, 0, 0, 0, 0, 0, 0, 0, 0xFC], events = []\<rparr>"
       and ?r3.0 = "Range 5 5 1"
       and ?self3.0 = "\<lparr>self_max_packet_length = 256, self_erase_size = 1024, self_write_size = 8,
      self_memory_range = Range 0x1000 0x1001 1\<rparr>"
       and ?r4.0 = "Range 7 7 1"
       and ?self4.0 = "\<lparr>self_max_packet_length = 256, self_erase_size = 1024, self_write_size = 8,
      self_memory_range = Range 0x1000 0x2000 1\<rparr>"]
  by simp

text \<open>
  C10 as stated fails for an empty explicit range: \<open>erase_flash(range(5, 5))\<close> raises
  nothing, falls back to the device's range and issues the \<lparr>self_max_packet_length = 256, self_erase_size = 1024, self_write_size = 8,
      self_memory_range = Range 0x1000 0x2000 1\<rparr>\_VERIFY probe (here
  answered VERIFY\_FAIL, so the erase is skipped).
\<close>

theorem erase_flash_empty_range_probes:
  "Bootloader_erase_flash
     \<lparr>self_max_packet_length = 256, self_erase_size = 1024, self_write_size = 8,
      self_memory_range = Range 0x1000 0x2000 1\<rparr>
     (Some (Range 5 5 1)) False True
     \<lparr>timeout = Some 1, fails_after = None,
      rx = [0x0A, 0, 0, 0, 0, 0, 0, 0, 0, 0, 0, 0xFC], events = []\<rparr> =
     (Inr (),
      \<lparr>timeout = Some 1, fails_after = None, rx = [],
       events = [Write [0x0A, 0, 0, 0, 0, 0, 0, 0, 0, 0, 0],
                 Read [0x0A, 0, 0, 0, 0, 0, 0, 0, 0, 0, 0, 0xFC]]\<rparr>)"
  by (simp add: erase_defs exchange_defs codec_defs)

subsection \<open>Chunks and the image in scope\<close>

text \<open>
  C2. The chunk size is \<open>256 - 11 = 245\<close> rounded down to a multiple of 8, 240. A
  segment of one byte at \<open>0x2000\<close> has \<open>minaddr = maxaddr\<close>, so
  \<open>range(start, stop, size)\<close> is empty and \<open>_chunk\<close> yields no chunk; \<open>flash\<close>
  then sends the SELF\_VERIFY probe of the erase and the final SELF\_VERIFY, reads
  their answers, sends no WRITE\_FLASH, and returns normally. A segment of nine bytes cut with a chunk size of
  8 yields the one chunk of the first eight bytes: the byte at \<open>0x2008\<close> is in no chunk.
  \<open>maxaddr\<close> is the last address, not the one after it.
\<close>

theorem chunk_drops_last_byte:
  "Bootloader__chunk \<lparr>buf = [(0x2000, 0x12)], padding = 0xFF\<rparr> 240 = Inr [] \<and>
   Bootloader_flash
     \<lparr>self_max_packet_length = 256, self_erase_size = 1024, self_write_size = 8,
      self_memory_range = Range 0x1000 0x2000 1\<rparr>
     \<lparr>buf = [(0x2000, 0x12)], padding = 0xFF\<rparr> True
     \<lparr>timeout = Some 1, fails_after = None,
      rx = [0x0A, 0, 0, 0, 0, 0, 0, 0, 0, 0, 0, 0xFC] @
           [0x0A, 0, 0, 0, 0, 0, 0, 0, 0, 0, 0, 0x01],
      events = []\<rparr> =
     (Inr (),
      \<lparr>timeout = Some 1, fails_after = None, rx = [],
       events = [Write [0x0A, 0, 0, 0, 0, 0, 0, 0, 0, 0, 0],
                 Read [0x0A, 0, 0, 0, 0, 0, 0, 0, 0, 0, 0, 0xFC],
                 Write [0x0A, 0, 0, 0, 0, 0, 0, 0, 0, 0, 0],
                 Read [0x0A, 0, 0, 0, 0, 0, 0, 0, 0, 0, 0, 0x01]]\<rparr>) \<and>
   Bootloader__chunk
     \<lparr>buf = [(0x2000, 1), (0x2001, 2), (0x2002, 3), (0x2003, 4), (0x2004, 5),
             (0x2005, 6), (0x2006, 7), (0x2007, 8), (0x2008, 9)], padding = 0xFF\<rparr> 8 =
     Inr [\<lparr>buf = [(0x2000, 1), (0x2001, 2), (0x2002, 3), (0x2003, 4), (0x2004, 5),
                  (0x2005, 6), (0x2006, 7), (0x2007, 8)], padding = 0xFF\<rparr>]"
  by (simp add: flash_defs image_defs erase_defs exchange_defs codec_defs)

text \<open>
  C6. The device range is \<open>range(0x1000, 0x2000)\<close>, so the bytes in scope are those
  at \<open>0x2000\<close> up to \<open>0x3FFF\<close>. An image whose only bytes are at \<open>0x3FFE\<close> and
  \<open>0x3FFF\<close> is refused as holding no data in program memory, before any exchange: the
  slice ends at twice the last item of the range, \<open>2 * 0x1FFF = 0x3FFE\<close>.
\<close>

theorem flash_scope_excludes_last_word:
  "Bootloader_flash
     \<lparr>self_max_packet_length = 256, self_erase_size = 1024, self_write_size = 8,
      self_memory_range = Range 0x1000 0x2000 1\<rparr>
     \<lparr>buf = [(0x3FFE, 0x12), (0x3FFF, 0x34)], padding = 0xFF\<rparr> True
     \<lparr>timeout = Some 1, fails_after = None, rx = [], events = []\<rparr> =
     (Inl (BootloaderError
        ''HEX file contains no data that fits entirely within program memory''),
      \<lparr>timeout = Some 1, fails_after = None, rx = [], events = []\<rparr>)"
  by (simp add: flash_defs image_defs erase_defs exchange_defs codec_defs)

text \<open>
  An image with no byte in the slice is refused with the world untouched, whatever the
  device answers: no exchange comes before the error.
\<close>

lemma flash_empty_image:
  assumes "range_first (self_memory_range self) = Inr a"
    and "range_last (self_memory_range self) = Inr b"
    and "buf (ih_slice (2 * a) (2 * b) hexfile) = []"
  shows "Bootloader_flash self hexfile progress_callback w =
     (Inl (BootloaderError
        ''HEX file contains no data that fits entirely within program memory''), w)"
  using assms by (simp add: Bootloader_flash_def ih_segments_def)

subsection \<open>The order of the actions of \<open>flash\<close>\<close>

text \<open>
  C8 as stated fails: in a run with one chunk of two bytes and a callback, the callback
  is called after the CALC\_CHECKSUM command of the chunk has been sent and its answer
  read, not before. The events are the SELF\_VERIFY probe (no program, no erase),
  WRITE\_FLASH, CALC\_CHECKSUM, the callback with (2, 2), and the final SELF\_VERIFY,
  each command followed by the read of its answer.
\<close>

theorem flash_callback_after_checksum:
  "Bootloader_flash
     \<lparr>self_max_packet_length = 256, self_erase_size = 1024, self_write_size = 8,
      self_memory_range = Range 0x1000 0x2000 1\<rparr>
     \<lparr>buf = [(0x2000, 0x12), (0x2001, 0x34)], padding = 0xFF\<rparr> True
     \<lparr>timeout = Some 1, fails_after = None,
      rx = [0x0A, 0, 0, 0, 0, 0, 0, 0, 0, 0, 0, 0xFC] @
           [0x02, 0, 0, 0, 0, 0, 0, 0, 0, 0, 0, 0x01] @
           [0x08, 0, 0, 0, 0, 0, 0, 0, 0, 0, 0, 0x01, 0x12, 0x34] @
           [0x0A, 0, 0, 0, 0, 0, 0, 0, 0, 0, 0, 0x01],
      events = []\<rparr> =
     (Inr (),
      \<lparr>timeout = Some 1, fails_after = None, rx = [],
       events = [Write [0x0A, 0, 0, 0, 0, 0, 0, 0, 0, 0, 0],
                 Read [0x0A, 0, 0, 0, 0, 0, 0, 0, 0, 0, 0, 0xFC],
                 Write [0x02, 8, 0, 0x55, 0, 0xAA, 0, 0, 0x10, 0, 0,
                        0x12, 0x34, 0xFF, 0xFF, 0xFF, 0xFF, 0xFF, 0xFF],
                 Read [0x02, 0, 0, 0, 0, 0, 0, 0, 0, 0, 0, 0x01],
                 Write [0x08, 2, 0, 0, 0, 0, 0, 0, 0x10, 0, 0],
                 Read [0x08, 0, 0, 0, 0, 0, 0, 0, 0, 0, 0, 0x01, 0x12, 0x34],
                 Progress 2 2,
                 Write [0x0A, 0, 0, 0, 0, 0, 0, 0, 0, 0, 0],
                 Read [0x0A, 0, 0, 0, 0, 0, 0, 0, 0, 0, 0, 0x01]]\<rparr>)"
  by (simp add: flash_defs image_defs erase_defs exchange_defs codec_defs)

subsection \<open>Contiguous images\<close>

lemma and_FFFF: "(x::int) AND 0xFFFF = x mod 65536"
proof -
  have "x AND 0xFFFF = x AND mask 16" by (simp add: mask_eq_exp_minus_1)
  also have "\<dots> = take_bit 16 x" by (simp only: take_bit_eq_mask)
  also have "\<dots> = x mod 65536" by (simp add: take_bit_eq_mod)
  finally show ?thesis .
qed

lemma and_FF: "(x::int) AND 0xFF = x mod 256"
proof -
  have "x AND 0xFF = x AND mask 8" by (simp add: mask_eq_exp_minus_1)
  also have "\<dots> = take_bit 8 x" by (simp only: take_bit_eq_mask)
  also have "\<dots> = x mod 256" by (simp add: take_bit_eq_mod)
  finally show ?thesis .
qed

lemma drop_bit_16: "drop_bit 16 (x::int) = x div 65536"
  by (simp add: drop_bit_eq_div)

lemma consecutive_tl: "consecutive (x # xs) \<Longrightarrow> consecutive xs"
  by (cases xs) simp_all

lemma consecutive_drop: "consecutive xs \<Longrightarrow> consecutive (drop n xs)"
proof (induction n arbitrary: xs)
  case 0
  then show ?case by simp
next
  case (Suc n)
  then show ?case by (cases xs) (auto dest: consecutive_tl)
qed

lemma consecutive_take: "consecutive xs \<Longrightarrow> consecutive (take n xs)"
proof (induction xs arbitrary: n rule: consecutive.induct)
  case 1
  then show ?case by simp
next
  case (2 x)
  then show ?case by (cases n) simp_all
next
  case (3 x y ys)
  show ?case
  proof (cases n)
    case 0
    then show ?thesis by simp
  next
    case (Suc m)
    have "consecutive (y # ys)" using "3.prems" by auto
    then have "consecutive (take m (y # ys))" by (rule "3.IH")
    with "3.prems" Suc show ?thesis by (cases m) simp_all
  qed
qed

lemma consecutive_lower: "consecutive (x # xs) \<Longrightarrow> e \<in> set xs \<Longrightarrow> x < e"
proof (induction xs arbitrary: x)
  case Nil
  then show ?case by simp
next
  case (Cons y ys)
  then have y: "y = x + 1" and c: "consecutive (y # ys)" by auto
  from Cons.prems(2) consider "e = y" | "e \<in> set ys" by auto
  then show ?case
  proof cases
    case 1
    with y show ?thesis by simp
  next
    case 2
    with Cons.IH [OF c] have "y < e" by simp
    with y show ?thesis by simp
  qed
qed

lemma consecutive_upt: "consecutive xs \<Longrightarrow> xs \<noteq> [] \<Longrightarrow> [hd xs..<Suc (last xs)] = xs"
proof (induction xs rule: consecutive.induct)
  case 1
  then show ?case by simp
next
  case (2 x)
  then show ?case by simp
next
  case (3 x y ys)
  from "3.prems" have c: "consecutive (y # ys)" and y: "y = Suc x" by auto
  have "[hd (y # ys)..<Suc (last (y # ys))] = y # ys"
    using c by (intro "3.IH") simp_all
  then have ih: "[y..<Suc (last (y # ys))] = y # ys" by (simp only: list.sel)
  have "x < Suc (last (y # ys))"
  proof (rule ccontr)
    assume "\<not> x < Suc (last (y # ys))"
    then have "Suc (last (y # ys)) \<le> y" using y by simp
    then have "[y..<Suc (last (y # ys))] = []" by (simp del: last.simps)
    with ih show False by simp
  qed
  then have "[x..<Suc (last (y # ys))] = x # [Suc x..<Suc (last (y # ys))]"
    by (rule upt_conv_Cons)
  also have "\<dots> = x # y # ys" using ih y by (simp only:)
  finally show ?case by (simp only: list.sel last.simps list.distinct if_False)
qed

lemma consecutive_distinct: "consecutive xs \<Longrightarrow> distinct xs"
  by (metis consecutive_upt distinct.simps(1) distinct_upt)

lemma map_lookup_keys:
  "distinct (map fst kvs) \<Longrightarrow>
   map (\<lambda>a. case map_of kvs a of None \<Rightarrow> d | Some v \<Rightarrow> v) (map fst kvs) = map snd kvs"
proof (induction kvs)
  case Nil
  then show ?case by simp
next
  case (Cons kv kvs)
  then have "map (\<lambda>a. case map_of (kv # kvs) a of None \<Rightarrow> d | Some v \<Rightarrow> v) (map fst kvs) =
             map (\<lambda>a. case map_of kvs a of None \<Rightarrow> d | Some v \<Rightarrow> v) (map fst kvs)"
    by (intro map_cong) (auto simp: rev_image_eqI)
  with Cons show ?case by (cases kv) simp
qed

lemma tobinstr_contiguous: "contiguous ih \<Longrightarrow> tobinstr ih = map snd (buf ih)"
proof (cases "buf ih")
  case Nil
  then show ?thesis by (simp add: tobinstr_def)
next
  case (Cons kv kvs)
  assume c: "contiguous ih"
  have ne: "map fst (buf ih) \<noteq> []" using Cons by simp
  have "[hd (map fst (buf ih))..<Suc (last (map fst (buf ih)))] = map fst (buf ih)"
    using c ne unfolding contiguous_def by (rule consecutive_upt)
  moreover have "hd (map fst (buf ih)) = fst kv" using Cons by simp
  moreover have "last (map fst (buf ih)) = fst (last (buf ih))"
    using Cons by (simp add: last_map)
  ultimately have "[fst kv..<Suc (fst (last (buf ih)))] = map fst (buf ih)" by simp
  moreover have "distinct (map fst (buf ih))"
    using c unfolding contiguous_def by (rule consecutive_distinct)
  ultimately show ?thesis
    using Cons map_lookup_keys [of "buf ih" "padding ih"]
    by (cases kv) (simp add: tobinstr_def)
qed

lemma filter_consecutive:
  "consecutive (map fst kvs) \<Longrightarrow> kvs \<noteq> [] \<Longrightarrow> int (fst (hd kvs)) \<le> p \<Longrightarrow>
   filter (\<lambda>(a, v). p \<le> int a \<and> int a < q) kvs =
     take (nat (q - p)) (drop (nat (p - int (fst (hd kvs)))) kvs)"
proof (induction kvs arbitrary: p)
  case Nil
  then show ?case by simp
next
  case (Cons kv kvs)
  obtain x v where kv: "kv = (x, v)" by (cases kv)
  show ?case
  proof (cases kvs)
    case Nil
    with kv Cons.prems show ?thesis by (auto simp: take_Cons' drop_Cons')
  next
    case (Cons kv' kvs')
    obtain y u where kv': "kv' = (y, u)" by (cases kv')
    have y: "y = x + 1" and c: "consecutive (map fst kvs)"
      using Cons.prems(1) kv kv' Cons by auto
    have above: "int y \<le> int (fst e)" if "e \<in> set kvs" for e
    proof (cases "e = kv'")
      case True
      with kv' show ?thesis by simp
    next
      case False
      with that Cons have "fst e \<in> set (map fst kvs')" by auto
      with c Cons kv' consecutive_lower [of y "map fst kvs'" "fst e"] show ?thesis by simp
    qed
    show ?thesis
    proof (cases "int x < p")
      case True
      then have "int (fst (hd kvs)) \<le> p" using y kv' Cons by simp
      from Cons.IH [OF c _ this] Cons have
        "filter (\<lambda>(a, v). p \<le> int a \<and> int a < q) kvs =
           take (nat (q - p)) (drop (nat (p - int y)) kvs)"
        using kv' by simp
      moreover have "nat (p - int x) = Suc (nat (p - int y))" using True y by simp
      ultimately show ?thesis using True kv by simp
    next
      case False
      with Cons.prems(3) kv have px: "p = int x" by simp
      show ?thesis
      proof (cases "int x < q")
        case True
        have "int (fst (hd kvs)) \<le> int y" using kv' Cons by simp
        from Cons.IH [OF c _ this] Cons have
          "filter (\<lambda>(a, v). int y \<le> int a \<and> int a < q) kvs = take (nat (q - int y)) kvs"
          using kv' by simp
        moreover have "filter (\<lambda>(a, v). int y \<le> int a \<and> int a < q) kvs =
            filter (\<lambda>(a, v). p \<le> int a \<and> int a < q) kvs"
        proof (rule filter_cong [OF refl])
          fix e assume "e \<in> set kvs"
          then have "int y \<le> int (fst e)" by (rule above)
          then show "(case e of (a, v) \<Rightarrow> int y \<le> int a \<and> int a < q) =
                     (case e of (a, v) \<Rightarrow> p \<le> int a \<and> int a < q)"
            using px y by (cases e) auto
        qed
        moreover have "nat (q - int x) = Suc (nat (q - int y))" using True y by simp
        ultimately show ?thesis using True kv px by simp
      next
        case False
        have "filter (\<lambda>(a, v). p \<le> int a \<and> int a < q) kvs = []"
        proof -
          have "\<forall>e \<in> set kvs. \<not> int (fst e) < q"
          proof
            fix e assume "e \<in> set kvs"
            then have "int y \<le> int (fst e)" by (rule above)
            with False y show "\<not> int (fst e) < q" by simp
          qed
          then show ?thesis by (auto simp: filter_empty_conv)
        qed
        with False kv px show ?thesis by simp
      qed
    qed
  qed
qed

subsection \<open>The local checksum\<close>

lemma groups_of_four_step:
  "bs \<noteq> [] \<Longrightarrow> groups_of_four bs = take 4 bs # groups_of_four (drop 4 bs)"
  by (induction bs rule: groups_of_four.induct) simp_all

lemma slice_contiguous:
  assumes "contiguous data" "buf data = (lo, v) # rest" "k < length (buf data)" "0 < n"
  shows "tobinstr (ih_slice (int lo + int k) (int lo + int k + n) data) =
         take (nat n) (drop k (map snd (buf data)))"
proof -
  have f: "filter (\<lambda>(a, v). int lo + int k \<le> int a \<and> int a < int lo + int k + n) (buf data) =
           take (nat n) (drop k (buf data))"
    using filter_consecutive [of "buf data" "int lo + int k" "int lo + int k + n"] assms
    by (simp add: contiguous_def)
  have start: "(if int lo + int k = 0 then int lo else int lo + int k) = int lo + int k"
    by simp
  have stop: "int lo + int k + n \<noteq> 0" using assms(4) by simp
  have sl: "buf (ih_slice (int lo + int k) (int lo + int k + n) data) =
      take (nat n) (drop k (buf data))"
    using assms(2) stop f
    by (simp add: ih_slice_def minaddr_def maxaddr_def Let_def start del: of_nat_add)
  have "contiguous (ih_slice (int lo + int k) (int lo + int k + n) data)"
    using assms(1)
    by (simp add: contiguous_def sl take_map [symmetric] drop_map [symmetric]
        consecutive_take consecutive_drop del: take_map drop_map)
  then show ?thesis
    by (simp add: tobinstr_contiguous) (simp add: sl take_map drop_map)
qed

lemma local_checksum_loop_sum:
  assumes "contiguous data" "buf data = (lo, v) # rest"
  shows "local_checksum_loop data
           (range_elems (int lo + int k) (int lo + int (length (buf data))) 4) acc =
         acc + sum_list (map group_sum (groups_of_four (drop k (map snd (buf data)))))"
proof (induction "length (buf data) - k" arbitrary: k acc rule: less_induct)
  case less
  show ?case
  proof (cases "k < length (buf data)")
    case False
    then show ?thesis by (subst range_elems.simps) simp
  next
    case True
    have ne: "drop k (map snd (buf data)) \<noteq> []" using True by simp
    have step: "range_elems (int lo + int k) (int lo + int (length (buf data))) 4 =
        (int lo + int k) # range_elems (int lo + int (k + 4)) (int lo + int (length (buf data))) 4"
      using True by (subst range_elems.simps) (simp add: add.assoc)
    have sl: "tobinstr (ih_slice (int lo + int k) (int lo + int k + 4) data) =
         take 4 (drop k (map snd (buf data)))"
      using slice_contiguous [OF assms True, of 4] by simp
    have ih: "local_checksum_loop data
           (range_elems (int lo + int (k + 4)) (int lo + int (length (buf data))) 4) acc' =
         acc' + sum_list (map group_sum (groups_of_four (drop 4 (drop k (map snd (buf data))))))"
      for acc'
      using True less [of "k + 4" acc'] by (simp add: add.commute)
    show ?thesis
      apply (subst step)
      apply (subst groups_of_four_step [OF ne])
      apply (simp only: local_checksum_loop.simps Let_def sl ih)
      apply (simp add: group_sum_def and_FFFF and_FF drop_bit_16)
      done
  qed
qed

text \<open>
  The loop of \<open>_get_local_checksum\<close> computes the checksum of the specification on
  the bytes of a contiguous image.
\<close>

lemma get_local_checksum_spec:
  assumes "contiguous data" "buf data \<noteq> []"
  shows "Bootloader__get_local_checksum data = Inr (spec_checksum (tobinstr data))"
proof -
  obtain lo v rest where b: "buf data = (lo, v) # rest"
    using assms(2) by (cases "buf data") auto
  have "local_checksum_loop data
           (range_elems (int lo + int 0) (int lo + int (length (buf data))) 4) 0 =
         0 + sum_list (map group_sum (groups_of_four (drop 0 (map snd (buf data)))))"
    using assms(1) b by (rule local_checksum_loop_sum)
  then show ?thesis
    using b assms(1)
    by (simp add: Bootloader__get_local_checksum_def minaddr_def ih_len_def spec_checksum_def
        tobinstr_contiguous and_FFFF)
qed

subsection \<open>The checksum exchange\<close>

lemma get_remote_checksum_ok:
  assumes "fails_after w = None" "fits H l" "fits I a" "ChecksumPacket_bytes p = Inr reply"
    "command p = command_value CALC_CHECKSUM" "success p = response_value SUCCESS"
    "rx w = reply @ rest"
  shows "Bootloader__get_remote_checksum a l w =
     (Inr (checksum p),
      w\<lparr>events := events w @ [sent (Command CALC_CHECKSUM l 0 a) [], Read reply],
        rx := rest\<rparr>)"
proof -
  obtain header where hdr: "Packet_bytes (Command CALC_CHECKSUM l 0 a) = Inr header"
    using assms(2,3) by (simp add: Packet_bytes_def Packet_format_def Command_def fits_def)
  have len: "length reply = ChecksumPacket_get_size"
    using assms(4) struct_pack_unpack
    by (auto simp: ChecksumPacket_bytes_def ChecksumPacket_get_size_def)
  have dec: "ChecksumPacket_from_bytes reply = Inr p"
  proof -
    have "struct_unpack ChecksumPacket_format reply =
      Inr [command p, data_length p, unlock_sequence p, address p, success p, checksum p]"
      using assms(4) unfolding ChecksumPacket_bytes_def by (rule struct_unpack_pack)
    then show ?thesis by (simp add: ChecksumPacket_from_bytes_def)
  qed
  show ?thesis
    using assms(1,5,6,7) len dec hdr sent_ok [OF hdr, of "[]"]
    by (simp add: Bootloader__get_remote_checksum_def Bootloader__send_and_receive_def
        Bootloader__verify_good_response_def raise_for_success_def RESPONSE_TYPE_MAP_def
        from_serial_def interface_read_def interface_write_def port_call_def)
       (simp add: Command_def)
qed

lemma get_remote_checksum_error:
  assumes "Bootloader__get_remote_checksum a l w = (Inl e, w')"
  shows "e \<noteq> BootloaderError ''Checksum mismatch while writing''"
proof (cases "Bootloader__send_and_receive (Command CALC_CHECKSUM l 0 a) [] w")
  case (Pair res w1)
  show ?thesis
  proof (cases res)
    case (Inl e1)
    with Pair assms have "e = e1" by (simp add: Bootloader__get_remote_checksum_def)
    with Pair Inl send_and_receive_error [of _ _ w e1 w1] show ?thesis by auto
  next
    case (Inr r)
    with Pair assms show ?thesis
      by (cases r) (auto simp: Bootloader__get_remote_checksum_def)
  qed
qed

text \<open>
  C1. For a contiguous, non-empty image (a segment or a chunk of one) the local checksum
  is the checksum of the specification on the image's bytes. \<open>_checksum\<close> raises the
  checksum mismatch error exactly when the exchange CALC\_CHECKSUM, addressed at the
  lowest address halved with the number of bytes as length, returns a value that
  differs from it. When the port does not fail, the two numbers fit their fields and the
  device answers with a well-formed checksum packet, the command written is that one,
  the answer is read, and the outcome is the mismatch error or success as the two values
  differ or agree.
\<close>

theorem checksum_matches_spec:
  "(contiguous data \<and> buf data \<noteq> [] \<longrightarrow>
      Bootloader__get_local_checksum data = Inr (spec_checksum (tobinstr data))) \<and>
   (contiguous data \<and> minaddr data = Some lo \<longrightarrow>
      (fst (Bootloader__checksum data w) =
         Inl (BootloaderError ''Checksum mismatch while writing'') \<longleftrightarrow>
       (\<exists>c w'. Bootloader__get_remote_checksum (lo div 2) (ih_len data) w = (Inr c, w') \<and>
              c \<noteq> spec_checksum (tobinstr data)))) \<and>
   (contiguous data \<and> minaddr data = Some lo \<and> fails_after w = None \<and> fits H (ih_len data) \<and>
    fits I (lo div 2) \<and> ChecksumPacket_bytes p = Inr reply \<and>
    command p = command_value CALC_CHECKSUM \<and> success p = response_value SUCCESS \<and>
    rx w = reply @ rest \<longrightarrow>
      Bootloader__checksum data w =
        (if spec_checksum (tobinstr data) \<noteq> checksum p
         then Inl (BootloaderError ''Checksum mismatch while writing'') else Inr (),
         w\<lparr>events := events w @
              [sent (Command CALC_CHECKSUM (ih_len data) 0 (lo div 2)) [], Read reply],
           rx := rest\<rparr>))"
proof (intro conjI impI)
  assume "contiguous data \<and> buf data \<noteq> []"
  then show "Bootloader__get_local_checksum data = Inr (spec_checksum (tobinstr data))"
    by (simp add: get_local_checksum_spec)
next
  assume a: "contiguous data \<and> minaddr data = Some lo"
  then have ne: "buf data \<noteq> []" by (auto simp: minaddr_def)
  with a have loc: "Bootloader__get_local_checksum data = Inr (spec_checksum (tobinstr data))"
    by (simp add: get_local_checksum_spec)
  obtain res w1 where r: "Bootloader__get_remote_checksum (lo div 2) (ih_len data) w = (res, w1)"
    by (cases "Bootloader__get_remote_checksum (lo div 2) (ih_len data) w")
  show "fst (Bootloader__checksum data w) =
         Inl (BootloaderError ''Checksum mismatch while writing'') \<longleftrightarrow>
       (\<exists>c w'. Bootloader__get_remote_checksum (lo div 2) (ih_len data) w = (Inr c, w') \<and>
              c \<noteq> spec_checksum (tobinstr data))"
  proof (cases res)
    case (Inl e)
    with r get_remote_checksum_error have "e \<noteq> BootloaderError ''Checksum mismatch while writing''"
      by blast
    with Inl r a loc show ?thesis
      by (simp add: Bootloader__checksum_def drop_bit_eq_div)
  next
    case (Inr c)
    with r a loc show ?thesis
      by (auto simp: Bootloader__checksum_def drop_bit_eq_div)
  qed
next
  assume a: "contiguous data \<and> minaddr data = Some lo \<and> fails_after w = None \<and> fits H (ih_len data) \<and>
    fits I (lo div 2) \<and> ChecksumPacket_bytes p = Inr reply \<and>
    command p = command_value CALC_CHECKSUM \<and> success p = response_value SUCCESS \<and>
    rx w = reply @ rest"
  then have ne: "buf data \<noteq> []" by (auto simp: minaddr_def)
  with a have loc: "Bootloader__get_local_checksum data = Inr (spec_checksum (tobinstr data))"
    by (simp add: get_local_checksum_spec)
  have "Bootloader__get_remote_checksum (lo div 2) (ih_len data) w =
     (Inr (checksum p),
      w\<lparr>events := events w @
           [sent (Command CALC_CHECKSUM (ih_len data) 0 (lo div 2)) [], Read reply],
        rx := rest\<rparr>)"
    using a by (intro get_remote_checksum_ok) simp_all
  with a loc show "Bootloader__checksum data w =
        (if spec_checksum (tobinstr data) \<noteq> checksum p
         then Inl (BootloaderError ''Checksum mismatch while writing'') else Inr (),
         w\<lparr>events := events w @
              [sent (Command CALC_CHECKSUM (ih_len data) 0 (lo div 2)) [], Read reply],
           rx := rest\<rparr>)"
    by (simp add: Bootloader__checksum_def drop_bit_eq_div)
qed

theorem checksum_matches_spec_witness:
  "Bootloader__get_local_checksum \<lparr>buf = [(0x2000, 0x12), (0x2001, 0x34)], padding = 0xFF\<rparr> =
     Inr 0x3412 \<and>
   (fst (Bootloader__checksum \<lparr>buf = [(0x2000, 0x12), (0x2001, 0x34)], padding = 0xFF\<rparr>
      \<lparr>timeout = Some 1, fails_after = None,
       rx = [0x08, 0, 0, 0, 0, 0, 0, 0, 0, 0, 0, 0x01, 0x12, 0x34] @ [], events = []\<rparr>) =
    Inl (BootloaderError ''Checksum mismatch while writing'') \<longleftrightarrow>
    (\<exists>c w'. Bootloader__get_remote_checksum 0x1000 2
        \<lparr>timeout = Some 1, fails_after = None,
         rx = [0x08, 0, 0, 0, 0, 0, 0, 0, 0, 0, 0, 0x01, 0x12, 0x34] @ [], events = []\<rparr> =
        (Inr c, w') \<and> c \<noteq> 0x3412)) \<and>
   Bootloader__checksum \<lparr>buf = [(0x2000, 0x12), (0x2001, 0x34)], padding = 0xFF\<rparr>
      \<lparr>timeout = Some 1, fails_after = None,
       rx = [0x08, 0, 0, 0, 0, 0, 0, 0, 0, 0, 0, 0x01, 0x12, 0x34] @ [], events = []\<rparr> =
     (Inr (),
      \<lparr>timeout = Some 1, fails_after = None, rx = [],
       events = [Write [0x08, 2, 0, 0, 0, 0, 0, 0, 0x10, 0, 0],
                 Read [0x08, 0, 0, 0, 0, 0, 0, 0, 0, 0, 0, 0x01, 0x12, 0x34]]\<rparr>)"
  using checksum_matches_spec
    [where data = "\<lparr>buf = [(0x2000, 0x12), (0x2001, 0x34)], padding = 0xFF\<rparr>"
       and lo = "0x2000"
       and w = "\<lparr>timeout = Some 1, fails_after = None,
          rx = [0x08, 0, 0, 0, 0, 0, 0, 0, 0, 0, 0, 0x01, 0x12, 0x34] @ [], events = []\<rparr>"
       and p = "\<lparr>command = 8, data_length = 0, unlock_sequence = 0, address = 0,
          success = 1, checksum = 0x3412\<rparr>"
       and reply = "[0x08, 0, 0, 0, 0, 0, 0, 0, 0, 0, 0, 0x01, 0x12, 0x34]"
       and rest = "[]"]
  by (simp add: contiguous_def image_defs flash_defs exchange_defs spec_checksum_def
      group_sum_def sent_def codec_defs)

subsection \<open>The events of a run of \<open>flash\<close>\<close>

lemma send_and_receive_trace:
  assumes "Bootloader__send_and_receive c d w = (res, w')"
  shows "\<And>r. res = Inr r \<Longrightarrow>
           \<exists>t bs. map_of RESPONSE_TYPE_MAP (command c) = Some t \<and>
                  events w' = events w @ [sent c d, Read bs] \<and>
                  from_bytes t bs = Inr r \<and> Bootloader__verify_good_response c r = Inr ()"
    and "\<And>e. res = Inl e \<Longrightarrow>
           events w' = events w \<or> events w' = events w @ [sent c d] \<or>
           (\<exists>t bs. map_of RESPONSE_TYPE_MAP (command c) = Some t \<and>
                   events w' = events w @ [sent c d, Read bs] \<and>
                   (\<forall>r. from_bytes t bs = Inr r \<longrightarrow>
                        Bootloader__verify_good_response c r \<noteq> Inr ()))"
  using assms
  unfolding Bootloader__send_and_receive_def from_serial_def interface_read_def
    interface_write_def port_call_def sent_def
  by (auto split: sum.splits prod.splits if_splits option.splits nat.splits)

lemma verify_good_response_passed:
  "Bootloader__verify_good_response c (Response p) = Inr () \<longleftrightarrow>
     command p = command c \<and> success p = response_value SUCCESS"
  "Bootloader__verify_good_response c (Checksum q) = Inr () \<longleftrightarrow>
     command q = command c \<and> success q = response_value SUCCESS"
  by (auto simp: Bootloader__verify_good_response_def raise_for_success_def
      split: option.splits)

lemma write_flash_trace:
  assumes "Bootloader__write_flash chunk align w = (res, w')"
  shows "\<And>u. res = Inr u \<Longrightarrow>
           \<exists>r. events w' = events w @ [write_flash_event chunk align, Read r] \<and>
               write_reply_ok r"
    and "\<And>e. res = Inl e \<Longrightarrow>
           events w' = events w \<or> events w' = events w @ [write_flash_event chunk align] \<or>
           (\<exists>r. events w' = events w @ [write_flash_event chunk align, Read r])"
proof -
  define pad where
    "pad = replicate (nat ((align - ih_len chunk mod align) mod align)) (padding chunk)"
  show "\<exists>r. events w' = events w @ [write_flash_event chunk align, Read r] \<and> write_reply_ok r"
    if ok: "res = Inr u" for u
  proof -
    from assms ok obtain lo where lo: "minaddr chunk = Some lo" and nz: "align \<noteq> 0"
      by (auto simp: Bootloader__write_flash_def Let_def split: if_splits option.splits)
    define c where
      "c = Command WRITE_FLASH (ih_len chunk + int (length pad)) FLASH_UNLOCK_KEY (drop_bit 1 lo)"
    have ev: "write_flash_event chunk align = sent c (tobinstr chunk @ pad)"
      by (simp add: write_flash_event_def Let_def lo c_def pad_def)
    from assms ok lo nz obtain rr where
      sr: "Bootloader__send_and_receive c (tobinstr chunk @ pad) w = (Inr rr, w')"
      by (auto simp: Bootloader__write_flash_def Let_def c_def pad_def
          split: sum.splits prod.splits)
    from send_and_receive_trace(1) [OF sr refl] obtain t bs where
      t: "map_of RESPONSE_TYPE_MAP (command c) = Some t" and
      e: "events w' = events w @ [sent c (tobinstr chunk @ pad), Read bs]" and
      d: "from_bytes t bs = Inr rr" and v: "Bootloader__verify_good_response c rr = Inr ()"
      by blast
    have cc: "command c = command_value WRITE_FLASH" by (simp add: c_def Command_def)
    from t have "t = ResponseT" by (simp add: RESPONSE_TYPE_MAP_def cc)
    with d obtain p where p: "ResponsePacket_from_bytes bs = Inr p" "rr = Response p"
      by (auto split: sum.splits)
    with v cc have "write_reply_ok bs"
      by (simp add: write_reply_ok_def verify_good_response_passed)
    with e ev show ?thesis by auto
  qed
  show "events w' = events w \<or> events w' = events w @ [write_flash_event chunk align] \<or>
        (\<exists>r. events w' = events w @ [write_flash_event chunk align, Read r])"
    if bad: "res = Inl e" for e
  proof (cases "align = 0 \<or> minaddr chunk = None")
    case True
    with assms show ?thesis
      by (auto simp: Bootloader__write_flash_def Let_def split: if_splits)
  next
    case False
    then obtain lo where lo: "minaddr chunk = Some lo" and nz: "align \<noteq> 0" by auto
    define c where
      "c = Command WRITE_FLASH (ih_len chunk + int (length pad)) FLASH_UNLOCK_KEY (drop_bit 1 lo)"
    have ev: "write_flash_event chunk align = sent c (tobinstr chunk @ pad)"
      by (simp add: write_flash_event_def Let_def lo c_def pad_def)
    from assms bad lo nz have
      sr: "Bootloader__send_and_receive c (tobinstr chunk @ pad) w = (Inl e, w')"
      by (auto simp: Bootloader__write_flash_def Let_def c_def pad_def
          split: sum.splits prod.splits)
    from send_and_receive_trace(2) [OF sr refl] ev show ?thesis by auto
  qed
qed

lemma checksum_trace:
  assumes "Bootloader__checksum chunk w = (res, w')"
  shows "\<And>u. res = Inr u \<Longrightarrow>
           \<exists>s. events w' = events w @ [checksum_event chunk, Read s] \<and>
               checksum_reply_ok chunk s"
    and "\<And>e. res = Inl e \<Longrightarrow>
           events w' = events w \<or> events w' = events w @ [checksum_event chunk] \<or>
           (\<exists>s. events w' = events w @ [checksum_event chunk, Read s] \<and>
                \<not> checksum_reply_ok chunk s)"
proof -
  have main: "(\<forall>u. res = Inr u \<longrightarrow>
           (\<exists>s. events w' = events w @ [checksum_event chunk, Read s] \<and>
               checksum_reply_ok chunk s)) \<and>
        (\<forall>e. res = Inl e \<longrightarrow>
           events w' = events w \<or> events w' = events w @ [checksum_event chunk] \<or>
           (\<exists>s. events w' = events w @ [checksum_event chunk, Read s] \<and>
                \<not> checksum_reply_ok chunk s))"
  proof (cases "Bootloader__get_local_checksum chunk")
    case (Inl e)
    with assms show ?thesis by (auto simp: Bootloader__checksum_def)
  next
    case (Inr c1)
    then obtain lo where lo: "minaddr chunk = Some lo"
      by (auto simp: Bootloader__get_local_checksum_def split: option.splits)
    define c where "c = Command CALC_CHECKSUM (ih_len chunk) 0 (drop_bit 1 lo)"
    have ev: "checksum_event chunk = sent c []"
      by (simp add: checksum_event_def lo c_def)
    have cc: "command c = command_value CALC_CHECKSUM" by (simp add: c_def Command_def)
    have tm: "map_of RESPONSE_TYPE_MAP (command c) = Some t \<Longrightarrow> t = ChecksumT" for t
      by (simp add: RESPONSE_TYPE_MAP_def cc)
    obtain r1 w1 where sr: "Bootloader__send_and_receive c [] w = (r1, w1)"
      by (cases "Bootloader__send_and_receive c [] w")
    show ?thesis
    proof (cases r1)
      case e1: (Inl e1)
      with sr assms Inr lo have r: "res = Inl e1" "w' = w1"
        by (simp_all add: Bootloader__checksum_def Bootloader__get_remote_checksum_def c_def)
      from send_and_receive_trace(2) [OF sr e1] consider
        "events w1 = events w" | "events w1 = events w @ [sent c []]" |
        bs where "events w1 = events w @ [sent c [], Read bs]"
          "\<forall>r. from_bytes ChecksumT bs = Inr r \<longrightarrow>
               Bootloader__verify_good_response c r \<noteq> Inr ()"
        using tm by blast
      then show ?thesis
      proof cases
        case 1
        with r show ?thesis by simp
      next
        case 2
        with r ev show ?thesis by simp
      next
        case 3
        have "\<not> checksum_reply_ok chunk bs"
          using 3(2) cc
          by (auto simp: checksum_reply_ok_def verify_good_response_passed split: sum.splits)
        with 3(1) r ev show ?thesis by auto
      qed
    next
      case rr: (Inr rr)
      from send_and_receive_trace(1) [OF sr rr] tm obtain bs where
        e: "events w1 = events w @ [sent c [], Read bs]" and
        d: "from_bytes ChecksumT bs = Inr rr" and
        v: "Bootloader__verify_good_response c rr = Inr ()"
        by blast
      from d obtain p where p: "ChecksumPacket_from_bytes bs = Inr p" "rr = Checksum p"
        by (auto split: sum.splits)
      from v p cc have good: "command p = command_value CALC_CHECKSUM"
        "success p = response_value SUCCESS"
        by (simp_all add: verify_good_response_passed)
      have rem: "Bootloader__get_remote_checksum (drop_bit 1 lo) (ih_len chunk) w =
          (Inr (checksum p), w1)"
        using sr rr p by (simp add: Bootloader__get_remote_checksum_def c_def)
      show ?thesis
      proof (cases "c1 = checksum p")
        case True
        with assms Inr lo rem have "res = Inr ()" "w' = w1"
          by (simp_all add: Bootloader__checksum_def)
        moreover have "checksum_reply_ok chunk bs"
          using p good Inr True by (simp add: checksum_reply_ok_def)
        ultimately show ?thesis using e ev by auto
      next
        case False
        with assms Inr lo rem have
          "res = Inl (BootloaderError ''Checksum mismatch while writing'')" "w' = w1"
          by (simp_all add: Bootloader__checksum_def)
        moreover have "\<not> checksum_reply_ok chunk bs"
          using p Inr False by (simp add: checksum_reply_ok_def)
        ultimately show ?thesis using e ev by auto
      qed
    qed
  qed
  show "\<And>u. res = Inr u \<Longrightarrow>
           \<exists>s. events w' = events w @ [checksum_event chunk, Read s] \<and>
               checksum_reply_ok chunk s"
    using main by blast
  show "\<And>e. res = Inl e \<Longrightarrow>
           events w' = events w \<or> events w' = events w @ [checksum_event chunk] \<or>
           (\<exists>s. events w' = events w @ [checksum_event chunk, Read s] \<and>
                \<not> checksum_reply_ok chunk s)"
    using main by blast
qed

lemma chunks_events_append:
  "chunks_events self cb tot (xs @ ys) wr =
     chunks_events self cb tot xs wr @
     chunks_events self cb tot ys (wr + sum_list (map ih_len (map fst xs)))"
  by (induction xs arbitrary: wr) (auto simp: add.assoc)

lemma flash_chunks_trace:
  "flash_chunks self cb tot chunks wr w = (res, w') \<Longrightarrow>
   \<exists>done es. events w' = events w @ chunks_events self cb tot done wr @ es \<and>
        list_all verified done \<and>
        (\<forall>n. res = Inr n \<longrightarrow>
           map fst done = chunks \<and> es = [] \<and> n = wr + sum_list (map ih_len chunks)) \<and>
        (\<forall>e. res = Inl e \<longrightarrow>
           (\<exists>chunk rest. chunks = map fst done @ chunk # rest \<and> unfinished self chunk es))"
proof (induction chunks arbitrary: wr w)
  case Nil
  then show ?case by (intro exI [where x = "[]"]) auto
next
  case (Cons chunk chunks)
  let ?wf = "write_flash_event chunk (self_write_size self)"
  let ?cs = "checksum_event chunk"
  obtain r1 w1 where wf: "Bootloader__write_flash chunk (self_write_size self) w = (r1, w1)"
    by (cases "Bootloader__write_flash chunk (self_write_size self) w")
  show ?case
  proof (cases r1)
    case (Inl e)
    with wf Cons.prems have r: "res = Inl e" "w' = w1" by simp_all
    from write_flash_trace(2) [OF wf Inl] obtain es where
      es: "events w1 = events w @ es" "unfinished self chunk es"
      by (auto simp: unfinished_def)
    show ?thesis
      using r es by (intro exI [where x = "[]"] exI [where x = es]) simp
  next
    case (Inr u)
    from write_flash_trace(1) [OF wf Inr] obtain r where
      e1: "events w1 = events w @ [?wf, Read r]" and okr: "write_reply_ok r"
      by blast
    obtain r2 w2 where cs: "Bootloader__checksum chunk w1 = (r2, w2)"
      by (cases "Bootloader__checksum chunk w1")
    show ?thesis
    proof (cases r2)
      case (Inl e)
      with wf cs Inr Cons.prems have res: "res = Inl e" "w' = w2" by simp_all
      from checksum_trace(2) [OF cs Inl] e1 okr obtain es where
        es: "events w2 = events w @ es" "unfinished self chunk es"
        by (auto simp: unfinished_def)
      show ?thesis
        using res es by (intro exI [where x = "[]"] exI [where x = es]) simp
    next
      case r2: (Inr u')
      from checksum_trace(1) [OF cs r2] obtain s where
        e2: "events w2 = events w1 @ [?cs, Read s]" and oks: "checksum_reply_ok chunk s"
        by blast
      define w3 where "w3 = (if cb
                  then w2\<lparr>events := events w2 @ [Progress (wr + ih_len chunk) tot]\<rparr>
                  else w2)"
      have e3: "events w3 = events w @ chunks_events self cb tot [(chunk, r, s)] wr"
        using e1 e2 by (simp add: w3_def)
      have "flash_chunks self cb tot chunks (wr + ih_len chunk) w3 = (res, w')"
        using wf cs Inr r2 Cons.prems by (simp add: w3_def)
      from Cons.IH [OF this] obtain done' es where
        d: "events w' = events w3 @ chunks_events self cb tot done' (wr + ih_len chunk) @ es"
          "list_all verified done'"
          "\<forall>n. res = Inr n \<longrightarrow> map fst done' = chunks \<and> es = [] \<and>
               n = wr + ih_len chunk + sum_list (map ih_len chunks)"
          "\<forall>e. res = Inl e \<longrightarrow>
             (\<exists>c rest. chunks = map fst done' @ c # rest \<and> unfinished self c es)"
        by blast
      have ev: "events w' = events w @ chunks_events self cb tot ((chunk, r, s) # done') wr @ es"
        using d(1) e3 by simp
      have ver: "list_all verified ((chunk, r, s) # done')"
        using d(2) okr oks by (simp add: verified_def)
      show ?thesis
      proof (intro exI [where x = "(chunk, r, s) # done'"] exI [where x = es] conjI allI impI)
        show "events w' = events w @ chunks_events self cb tot ((chunk, r, s) # done') wr @ es"
          by (rule ev)
        show "list_all verified ((chunk, r, s) # done')" by (rule ver)
      next
        fix n assume "res = Inr n"
        with d(3) show "map fst ((chunk, r, s) # done') = chunk # chunks" "es = []"
          "n = wr + sum_list (map ih_len (chunk # chunks))"
          by simp_all
      next
        fix e assume "res = Inl e"
        with d(4) obtain c rest where "chunks = map fst done' @ c # rest" "unfinished self c es"
          by blast
        then show "\<exists>c rest. chunk # chunks = map fst ((chunk, r, s) # done') @ c # rest \<and>
            unfinished self c es"
          by auto
      qed
    qed
  qed
qed

lemma flash_segments_trace:
  "flash_segments self cb tot cs segments wr w = (res, w') \<Longrightarrow>
   \<exists>done es. events w' = events w @ chunks_events self cb tot done wr @ es \<and>
        list_all verified done \<and>
        prefix (map fst done) (all_chunks cs segments) \<and>
        (\<forall>n. res = Inr n \<longrightarrow> map fst done = all_chunks cs segments \<and> es = [] \<and>
             n = wr + sum_list (map ih_len (all_chunks cs segments))) \<and>
        (\<forall>e. res = Inl e \<longrightarrow>
           es = [] \<or>
           (\<exists>chunk. prefix (map fst done @ [chunk]) (all_chunks cs segments) \<and>
                    unfinished self chunk es))"
proof (induction segments arbitrary: wr w)
  case Nil
  then show ?case by (intro exI [where x = "[]"]) (auto simp: all_chunks_def)
next
  case (Cons segment segments)
  show ?case
  proof (cases "Bootloader__chunk segment cs")
    case (Inl e)
    with Cons.prems show ?thesis by (intro exI [where x = "[]"]) auto
  next
    case (Inr chunks)
    have ac: "all_chunks cs (segment # segments) = chunks @ all_chunks cs segments"
      using Inr by (simp add: all_chunks_def)
    obtain r1 w1 where fc: "flash_chunks self cb tot chunks wr w = (r1, w1)"
      by (cases "flash_chunks self cb tot chunks wr w")
    from flash_chunks_trace [OF fc] obtain done1 es1 where
      d1: "events w1 = events w @ chunks_events self cb tot done1 wr @ es1"
        "list_all verified done1"
        "\<forall>n. r1 = Inr n \<longrightarrow> map fst done1 = chunks \<and> es1 = [] \<and>
             n = wr + sum_list (map ih_len chunks)"
        "\<forall>e. r1 = Inl e \<longrightarrow>
           (\<exists>chunk rest. chunks = map fst done1 @ chunk # rest \<and> unfinished self chunk es1)"
      by blast
    show ?thesis
    proof (cases r1)
      case (Inl e)
      with fc Inr Cons.prems have r: "res = Inl e" "w' = w1" by simp_all
      from d1(4) Inl obtain chunk rest where
        c: "chunks = map fst done1 @ chunk # rest" "unfinished self chunk es1"
        by blast
      show ?thesis
      proof (intro exI [where x = done1] exI [where x = es1] conjI allI impI)
        show "events w' = events w @ chunks_events self cb tot done1 wr @ es1"
          using r d1(1) by simp
        show "list_all verified done1" by (rule d1(2))
        show "prefix (map fst done1) (all_chunks cs (segment # segments))"
          using c(1) by (simp add: ac)
      next
        fix n assume "res = Inr n"
        with r show "map fst done1 = all_chunks cs (segment # segments)" "es1 = []"
          "n = wr + sum_list (map ih_len (all_chunks cs (segment # segments)))"
          by simp_all
      next
        fix e' assume "res = Inl e'"
        have "prefix (map fst done1 @ [chunk]) (all_chunks cs (segment # segments))"
          using c(1) by (simp add: ac)
        with c(2) show "es1 = [] \<or>
           (\<exists>chunk. prefix (map fst done1 @ [chunk]) (all_chunks cs (segment # segments)) \<and>
                    unfinished self chunk es1)"
          by blast
      qed
    next
      case r1: (Inr n)
      with d1(3) have n: "n = wr + sum_list (map ih_len chunks)"
        and full: "map fst done1 = chunks" "es1 = []"
        by simp_all
      have "flash_segments self cb tot cs segments n w1 = (res, w')"
        using fc Inr r1 Cons.prems by simp
      from Cons.IH [OF this] obtain done2 es2 where
        d2: "events w' = events w1 @ chunks_events self cb tot done2 n @ es2"
          "list_all verified done2"
          "prefix (map fst done2) (all_chunks cs segments)"
          "\<forall>m. res = Inr m \<longrightarrow> map fst done2 = all_chunks cs segments \<and> es2 = [] \<and>
               m = n + sum_list (map ih_len (all_chunks cs segments))"
          "\<forall>e. res = Inl e \<longrightarrow>
             es2 = [] \<or>
             (\<exists>chunk. prefix (map fst done2 @ [chunk]) (all_chunks cs segments) \<and>
                      unfinished self chunk es2)"
        by blast
      have n': "n = wr + sum_list (map ih_len (map fst done1))"
        using n full by simp
      show ?thesis
      proof (intro exI [where x = "done1 @ done2"] exI [where x = es2] conjI allI impI)
        show "events w' = events w @ chunks_events self cb tot (done1 @ done2) wr @ es2"
          using d1(1) d2(1) full(2) n' by (simp add: chunks_events_append)
        show "list_all verified (done1 @ done2)"
          using d1(2) d2(2) by simp
        show "prefix (map fst (done1 @ done2)) (all_chunks cs (segment # segments))"
          using d2(3) full(1) by (simp add: ac)
      next
        fix m assume "res = Inr m"
        with d2(4) full(1) n
        show "map fst (done1 @ done2) = all_chunks cs (segment # segments)" "es2 = []"
          "m = wr + sum_list (map ih_len (all_chunks cs (segment # segments)))"
          by (simp_all add: ac)
      next
        fix e assume "res = Inl e"
        with d2(5) consider "es2 = []" |
          chunk where "prefix (map fst done2 @ [chunk]) (all_chunks cs segments)"
            "unfinished self chunk es2"
          by blast
        then show "es2 = [] \<or>
           (\<exists>chunk. prefix (map fst (done1 @ done2) @ [chunk])
                       (all_chunks cs (segment # segments)) \<and>
                    unfinished self chunk es2)"
        proof cases
          case 1
          then show ?thesis by simp
        next
          case 2
          have "prefix (map fst (done1 @ done2) @ [chunk]) (all_chunks cs (segment # segments))"
            using 2(1) full(1) by (simp add: ac)
          with 2(2) show ?thesis by blast
        qed
      qed
    qed
  qed
qed

lemma range_elems_lower:
  "0 < s \<Longrightarrow> j \<in> set (range_elems a b s) \<Longrightarrow> a \<le> j"
proof (induction a b s rule: range_elems.induct)
  case (1 start stop step)
  have eq: "range_elems start stop step =
      (if (0 < step \<and> start < stop) \<or> (step < 0 \<and> stop < start)
       then start # range_elems (start + step) stop step else [])"
    by (rule range_elems.simps)
  show ?case
  proof (cases "start < stop")
    case True
    with eq "1.prems" have "j = start \<or> j \<in> set (range_elems (start + step) stop step)"
      by simp
    then show ?thesis
    proof
      assume "j = start"
      then show ?thesis by simp
    next
      assume "j \<in> set (range_elems (start + step) stop step)"
      with "1.IH" True "1.prems"(1) have "start + step \<le> j" by simp
      with "1.prems"(1) show ?thesis by simp
    qed
  next
    case False
    with eq "1.prems" show ?thesis by simp
  qed
qed

lemma range_elems_increasing:
  "0 < s \<Longrightarrow> sorted_wrt (\<lambda>i j. i + s \<le> j) (range_elems a b s)"
proof (induction a b s rule: range_elems.induct)
  case (1 start stop step)
  show ?case
  proof (cases "start < stop")
    case True
    then have eq: "range_elems start stop step = start # range_elems (start + step) stop step"
      using "1.prems" by (subst range_elems.simps) simp
    have "sorted_wrt (\<lambda>i j. i + step \<le> j) (range_elems (start + step) stop step)"
      using True 1 by simp
    moreover have "\<forall>j \<in> set (range_elems (start + step) stop step). start + step \<le> j"
      using range_elems_lower [OF "1.prems"] by blast
    ultimately show ?thesis by (subst eq) simp
  next
    case False
    then have "range_elems start stop step = []"
      using "1.prems" by (subst range_elems.simps) simp
    then show ?thesis by simp
  qed
qed

text \<open>
  The addresses of a slice lie at or above its lower bound and, unless the upper bound
  is 0, below its upper bound.
\<close>

lemma addresses_slice:
  "x \<in> addresses (ih_slice lo hi ih) \<Longrightarrow> lo \<le> int x \<and> (hi \<noteq> 0 \<longrightarrow> int x < hi)"
  by (auto simp: addresses_def ih_slice_def minaddr_def maxaddr_def Let_def
      split: list.splits if_splits)

lemma before_slices:
  "hi \<le> lo' \<Longrightarrow> hi \<noteq> 0 \<Longrightarrow> before (ih_slice lo hi ih) (ih_slice lo' hi' ih')"
  unfolding before_def
proof (intro ballI)
  fix x y
  assume "hi \<le> lo'" "hi \<noteq> 0"
    "x \<in> addresses (ih_slice lo hi ih)" "y \<in> addresses (ih_slice lo' hi' ih')"
  then have "int x < hi" "lo' \<le> int y" using addresses_slice by blast+
  with \<open>hi \<le> lo'\<close> show "x < y" by simp
qed

lemma ih_slice_sorted:
  "sorted_wrt (<) (map fst (buf ih)) \<Longrightarrow> sorted_wrt (<) (map fst (buf (ih_slice lo hi ih)))"
  by (auto simp: ih_slice_def Let_def sorted_wrt_map sorted_wrt_filter
      split: option.splits)

lemma sorted_first_last:
  "sorted_wrt (<) (map fst kvs) \<Longrightarrow> kvs \<noteq> [] \<Longrightarrow> fst (hd kvs) \<le> (fst (last kvs) :: nat)"
  by (cases kvs) (auto simp: sorted_wrt_map less_imp_le)

lemma chunk_order:
  assumes "sorted_wrt (<) (map fst (buf segment))"
    and "Bootloader__chunk segment cs = Inr chunks"
  shows "sorted_wrt before chunks"
proof -
  from assms(2) obtain a b where
    ab: "minaddr segment = Some a" "maxaddr segment = Some b" and
    ch: "chunks = map (\<lambda>i. ih_slice i (i + cs) segment) (range_elems a b cs)" and "cs \<noteq> 0"
    by (auto simp: Bootloader__chunk_def py_range_def split: option.splits if_splits)
  from ab have ne: "buf segment \<noteq> []" by (auto simp: minaddr_def)
  with ab have a: "a = int (fst (hd (buf segment)))" and b: "b = int (fst (last (buf segment)))"
    by (auto simp: minaddr_def maxaddr_def split: list.splits)
  then have "0 \<le> a" by simp
  have "a \<le> b" using sorted_first_last [OF assms(1) ne] a b by simp
  show ?thesis
  proof (cases "0 < cs")
    case True
    have "sorted_wrt (\<lambda>i j. before (ih_slice i (i + cs) segment) (ih_slice j (j + cs) segment))
            (range_elems a b cs)"
      using range_elems_increasing [OF True, of a b]
    proof (rule sorted_wrt_mono_rel [rotated])
      fix i j
      assume "i \<in> set (range_elems a b cs)" "i + cs \<le> j"
      then have "a \<le> i" using range_elems_lower [OF True] by blast
      with \<open>0 \<le> a\<close> True have "i + cs \<noteq> 0" by simp
      with \<open>i + cs \<le> j\<close>
      show "before (ih_slice i (i + cs) segment) (ih_slice j (j + cs) segment)"
        by (rule before_slices)
    qed
    then show ?thesis by (simp add: ch sorted_wrt_map)
  next
    case False
    with \<open>a \<le> b\<close> have "range_elems a b cs = []"
      by (subst range_elems.simps) simp
    then show ?thesis by (simp add: ch)
  qed
qed

lemma address_runs_start: "(u, l) \<in> set (address_runs xs) \<Longrightarrow> u \<in> set xs"
proof (induction xs arbitrary: u l)
  case Nil
  then show ?case by simp
next
  case (Cons a as)
  then show ?case
    by (cases "address_runs as") (auto split: if_splits)
qed

lemma address_runs_bounds: "(u, l) \<in> set (address_runs xs) \<Longrightarrow> u < l"
proof (induction xs arbitrary: u l)
  case Nil
  then show ?case by simp
next
  case (Cons a as)
  show ?case
  proof (cases "address_runs as")
    case Nil
    with Cons.prems show ?thesis by simp
  next
    case c: (Cons r runs)
    obtain u' l' where r: "r = (u', l')" by (cases r)
    have "u' < l'" using Cons.IH [of u' l'] c r by simp
    moreover have "\<And>p q. (p, q) \<in> set runs \<Longrightarrow> p < q" using Cons.IH c by simp
    ultimately show ?thesis using Cons.prems c r by (auto split: if_splits)
  qed
qed

lemma address_runs_sorted:
  "sorted_wrt (<) xs \<Longrightarrow> sorted_wrt (\<lambda>(u, l) (u', l'). l \<le> u') (address_runs xs)"
proof (induction xs)
  case Nil
  then show ?case by simp
next
  case (Cons a as)
  then have ih: "sorted_wrt (\<lambda>(u, l) (u', l'). l \<le> u') (address_runs as)"
    and lt: "\<forall>x \<in> set as. a < x" by simp_all
  have starts: "\<forall>r \<in> set (address_runs as). a + 1 \<le> fst r"
    using address_runs_start lt by fastforce
  show ?case
  proof (cases "address_runs as")
    case Nil
    then show ?thesis by simp
  next
    case (Cons r runs)
    obtain u l where r: "r = (u, l)" by (cases r)
    show ?thesis
      using ih starts Cons r by (auto split: if_splits)
  qed
qed

lemma segments_order:
  assumes "sorted_wrt (<) (map fst (buf hexfile))"
  shows "sorted_wrt before (flash_segments_list self hexfile)"
proof -
  define hexdata where "hexdata = ih_slice (2 * range_item (self_memory_range self) 0)
     (2 * range_item (self_memory_range self) (range_len (self_memory_range self) - 1)) hexfile"
  define runs where "runs = address_runs (map fst (buf hexdata))"
  have "sorted_wrt (<) (map fst (buf hexdata))"
    using assms unfolding hexdata_def by (rule ih_slice_sorted)
  then have "sorted_wrt (\<lambda>(u, l) (u', l'). l \<le> u') runs"
    unfolding runs_def by (rule address_runs_sorted)
  then have "sorted_wrt (\<lambda>r r'. before (case r of (u, l) \<Rightarrow> ih_slice (int u) (int l) hexdata)
                 (case r' of (u, l) \<Rightarrow> ih_slice (int u) (int l) hexdata)) runs"
  proof (rule sorted_wrt_mono_rel [rotated])
    fix r r' :: "nat \<times> nat"
    assume m: "r \<in> set runs" and le: "(case r of (u, l) \<Rightarrow> \<lambda>(u', l'). l \<le> u') r'"
    obtain u l where r: "r = (u, l)" by (cases r)
    obtain u' l' where r': "r' = (u', l')" by (cases r')
    from m r have "u < l" unfolding runs_def by (auto dest: address_runs_bounds)
    then have "int l \<noteq> 0" by simp
    moreover from le r r' have "int l \<le> int u'" by simp
    ultimately show "before (case r of (u, l) \<Rightarrow> ih_slice (int u) (int l) hexdata)
                 (case r' of (u, l) \<Rightarrow> ih_slice (int u) (int l) hexdata)"
      using r r' by (simp add: before_slices)
  qed
  then show ?thesis
    by (simp add: flash_segments_list_def ih_segments_def Let_def hexdata_def runs_def
        sorted_wrt_map case_prod_unfold)
qed

lemma self_verify_trace:
  assumes "Bootloader__self_verify w = (Inr u, w')"
  shows "\<exists>v. events w' = events w @ [sent (Command SELF_VERIFY 0 0 0) [], Read v]"
proof -
  from assms obtain r where
    "Bootloader__send_and_receive (Command SELF_VERIFY 0 0 0) [] w = (Inr r, w')"
    by (auto simp: Bootloader__self_verify_def split: prod.splits sum.splits)
  from send_and_receive_trace(1) [OF this refl] show ?thesis by blast
qed

lemma flash_success_trace:
  assumes "Bootloader_flash self hexfile cb w0 = (Inr (), w1)"
  shows "\<exists>we done v.
          Bootloader_erase_flash self (Some (self_memory_range self)) False True w0 =
            (Inr (), we) \<and>
          map fst done = all_chunks (flash_chunk_size self) (flash_segments_list self hexfile) \<and>
          list_all verified done \<and>
          events w1 = events we @
            chunks_events self cb (sum_list (map ih_len (flash_segments_list self hexfile)))
              done 0 @
            [sent (Command SELF_VERIFY 0 0 0) [], Read v]"
proof -
  let ?r = "self_memory_range self"
  let ?segs = "flash_segments_list self hexfile"
  from assms have ne: "range_len ?r \<noteq> 0"
    by (auto simp: Bootloader_flash_def range_first_def split: if_splits)
  then have rf: "range_first ?r = Inr (range_item ?r 0)"
    and rl: "range_last ?r = Inr (range_item ?r (range_len ?r - 1))"
    by (simp_all add: range_first_def range_last_def)
  have "\<exists>we n w2. Bootloader_erase_flash self (Some ?r) False True w0 = (Inr (), we) \<and>
      flash_segments self cb (sum_list (map ih_len ?segs)) (flash_chunk_size self) ?segs 0 we =
        (Inr n, w2) \<and>
      Bootloader__self_verify w2 = (Inr (), w1)"
    using assms
    unfolding Bootloader_flash_def flash_segments_list_def flash_chunk_size_def Let_def rf rl
    by (auto split: if_splits sum.splits prod.splits)
  then obtain we n w2 where
    er: "Bootloader_erase_flash self (Some ?r) False True w0 = (Inr (), we)" and
    fs: "flash_segments self cb (sum_list (map ih_len ?segs)) (flash_chunk_size self) ?segs 0 we =
        (Inr n, w2)" and
    sv: "Bootloader__self_verify w2 = (Inr (), w1)"
    by blast
  from flash_segments_trace [OF fs] obtain "done" where
    "events w2 = events we @ chunks_events self cb (sum_list (map ih_len ?segs)) done 0"
    "list_all verified done" "map fst done = all_chunks (flash_chunk_size self) ?segs"
    by auto
  with self_verify_trace [OF sv] er show ?thesis by auto
qed

text \<open>
  C8, as amended. A run of the two loops of \<open>flash\<close> that completes has, for each
  chunk in the order the loops visit them, these events and no others: the
  WRITE\_FLASH command, the read of its reply, which is good, the CALC\_CHECKSUM
  command, the read of its reply, which carries the checksum the engine computed for
  the chunk, and only then, with the advanced counter and the total, the callback when
  one is given. A run that fails has these events for the chunks it completed, followed
  by a beginning of the four port events of the chunk at which it fails: the callback
  is never called for a chunk whose checksum reply has not been read and found good.
  The chunks of a segment come in ascending address order, and so do the segments of an
  image (the addresses of an image are kept in ascending order). A run of \<open>flash\<close>
  that succeeds consists of the erase, the events of all chunks and the final
  SELF\_VERIFY exchange.
\<close>

theorem flash_order:
  "(flash_segments self cb tot cs segments wr w = (Inr n, w') \<longrightarrow>
      (\<exists>done. map fst done = all_chunks cs segments \<and>
              list_all verified done \<and>
              events w' = events w @ chunks_events self cb tot done wr)) \<and>
   (flash_segments self2 cb2 tot2 cs2 segments2 wr2 w2 = (Inl e, w2') \<longrightarrow>
      (\<exists>done es. prefix (map fst done) (all_chunks cs2 segments2) \<and>
              list_all verified done \<and>
              events w2' = events w2 @ chunks_events self2 cb2 tot2 done wr2 @ es \<and>
              (es = [] \<or>
               (\<exists>chunk. prefix (map fst done @ [chunk]) (all_chunks cs2 segments2) \<and>
                        unfinished self2 chunk es)))) \<and>
   (sorted_wrt (<) (map fst (buf segment)) \<and> Bootloader__chunk segment cs3 = Inr chunks \<longrightarrow>
      sorted_wrt before chunks) \<and>
   (sorted_wrt (<) (map fst (buf hexfile)) \<longrightarrow>
      sorted_wrt before (flash_segments_list self4 hexfile)) \<and>
   (Bootloader_flash self5 hexfile5 cb5 w5 = (Inr (), w5') \<longrightarrow>
      (\<exists>we done v.
          Bootloader_erase_flash self5 (Some (self_memory_range self5)) False True w5 =
            (Inr (), we) \<and>
          map fst done =
            all_chunks (flash_chunk_size self5) (flash_segments_list self5 hexfile5) \<and>
          list_all verified done \<and>
          events w5' = events we @
            chunks_events self5 cb5
              (sum_list (map ih_len (flash_segments_list self5 hexfile5))) done 0 @
            [sent (Command SELF_VERIFY 0 0 0) [], Read v]))"
proof (intro conjI impI)
  assume "flash_segments self cb tot cs segments wr w = (Inr n, w')"
  from flash_segments_trace [OF this]
  show "\<exists>done. map fst done = all_chunks cs segments \<and> list_all verified done \<and>
              events w' = events w @ chunks_events self cb tot done wr"
    by auto
next
  assume "flash_segments self2 cb2 tot2 cs2 segments2 wr2 w2 = (Inl e, w2')"
  from flash_segments_trace [OF this]
  show "\<exists>done es. prefix (map fst done) (all_chunks cs2 segments2) \<and>
              list_all verified done \<and>
              events w2' = events w2 @ chunks_events self2 cb2 tot2 done wr2 @ es \<and>
              (es = [] \<or>
               (\<exists>chunk. prefix (map fst done @ [chunk]) (all_chunks cs2 segments2) \<and>
                        unfinished self2 chunk es))"
    by blast
next
  assume "sorted_wrt (<) (map fst (buf segment)) \<and> Bootloader__chunk segment cs3 = Inr chunks"
  then show "sorted_wrt before chunks" using chunk_order by blast
next
  assume "sorted_wrt (<) (map fst (buf hexfile))"
  then show "sorted_wrt before (flash_segments_list self4 hexfile)" by (rule segments_order)
next
  assume "Bootloader_flash self5 hexfile5 cb5 w5 = (Inr (), w5')"
  then show "\<exists>we done v.
          Bootloader_erase_flash self5 (Some (self_memory_range self5)) False True w5 =
            (Inr (), we) \<and>
          map fst done =
            all_chunks (flash_chunk_size self5) (flash_segments_list self5 hexfile5) \<and>
          list_all verified done \<and>
          events w5' = events we @
            chunks_events self5 cb5
              (sum_list (map ih_len (flash_segments_list self5 hexfile5))) done 0 @
            [sent (Command SELF_VERIFY 0 0 0) [], Read v]"
    by (rule flash_success_trace)
qed

theorem flash_order_witness:
  "flash_segments \<lparr>self_max_packet_length = 13, self_erase_size = 1024,
      self_write_size = 2, self_memory_range = Range 0x1000 0x2000 1\<rparr> True 4 2
     [\<lparr>buf = [(0x2000, 0x11), (0x2001, 0x22), (0x2002, 0x33), (0x2003, 0x44)],
         padding = 0xFF\<rparr>] 0
     \<lparr>timeout = Some 1, fails_after = None, rx = [0x02, 0, 0, 0, 0, 0, 0, 0, 0, 0, 0,
         0x01] @ [0x08, 0, 0, 0, 0, 0, 0, 0, 0, 0, 0, 0x01, 0x11, 0x22] @ [0x02, 0, 0, 0, 0, 0,
         0, 0, 0, 0, 0, 0x01] @ [0x08, 0, 0, 0, 0, 0, 0, 0, 0, 0, 0, 0x01, 0x33, 0x44] @ [0x0A,
         0, 0, 0, 0, 0, 0, 0, 0, 0, 0, 0x01], events = [Write [0x0A, 0, 0, 0, 0, 0, 0, 0, 0, 0,
         0], Read [0x0A, 0, 0, 0, 0, 0, 0, 0, 0, 0, 0, 0xFC]]\<rparr> =
     (Inr 4,
      \<lparr>timeout = Some 1, fails_after = None, rx = [0x0A, 0, 0, 0, 0, 0, 0, 0, 0, 0, 0,
          0x01], events = [Write [0x0A, 0, 0, 0, 0, 0, 0, 0, 0, 0, 0], Read [0x0A, 0, 0, 0, 0,
          0, 0, 0, 0, 0, 0, 0xFC], Write [0x02, 2, 0, 0x55, 0, 0xAA, 0, 0x00, 0x10, 0, 0, 0x11,
          0x22], Read [0x02, 0, 0, 0, 0, 0, 0, 0, 0, 0, 0, 0x01], Write [0x08, 2, 0, 0, 0, 0,
          0, 0x00, 0x10, 0, 0], Read [0x08, 0, 0, 0, 0, 0, 0, 0, 0, 0, 0, 0x01, 0x11, 0x22],
          Progress 2 4, Write [0x02, 2, 0, 0x55, 0, 0xAA, 0, 0x01, 0x10, 0, 0, 0x33, 0x44],
          Read [0x02, 0, 0, 0, 0, 0, 0, 0, 0, 0, 0, 0x01], Write [0x08, 2, 0, 0, 0, 0, 0, 0x01,
          0x10, 0, 0], Read [0x08, 0, 0, 0, 0, 0, 0, 0, 0, 0, 0, 0x01, 0x33, 0x44],
          Progress 4 4]\<rparr>) \<and>
   flash_segments \<lparr>self_max_packet_length = 13, self_erase_size = 1024,
       self_write_size = 2, self_memory_range = Range 0x1000 0x2000 1\<rparr> True 4 2
     [\<lparr>buf = [(0x2000, 0x11), (0x2001, 0x22), (0x2002, 0x33), (0x2003, 0x44)],
         padding = 0xFF\<rparr>] 0
     \<lparr>timeout = Some 1, fails_after = None, rx = [0x02, 0, 0, 0, 0, 0, 0, 0, 0, 0, 0,
         0x01] @ [0x08, 0, 0, 0, 0, 0, 0, 0, 0, 0, 0, 0x01, 0x11, 0x22] @ [0x02, 0, 0, 0, 0, 0,
         0, 0, 0, 0, 0, 0x01] @ [0x08, 0, 0, 0, 0, 0, 0, 0, 0, 0, 0, 0x01, 0x00, 0x00] @ [0x0A,
         0, 0, 0, 0, 0, 0, 0, 0, 0, 0, 0x01], events = []\<rparr> =
     (Inl (BootloaderError ''Checksum mismatch while writing''),
      \<lparr>timeout = Some 1, fails_after = None, rx = [0x0A, 0, 0, 0, 0, 0, 0, 0, 0, 0, 0,
          0x01], events = [Write [0x02, 2, 0, 0x55, 0, 0xAA, 0, 0x00, 0x10, 0, 0, 0x11, 0x22],
          Read [0x02, 0, 0, 0, 0, 0, 0, 0, 0, 0, 0, 0x01], Write [0x08, 2, 0, 0, 0, 0, 0, 0x00,
          0x10, 0, 0], Read [0x08, 0, 0, 0, 0, 0, 0, 0, 0, 0, 0, 0x01, 0x11, 0x22],
          Progress 2 4, Write [0x02, 2, 0, 0x55, 0, 0xAA, 0, 0x01, 0x10, 0, 0, 0x33, 0x44],
          Read [0x02, 0, 0, 0, 0, 0, 0, 0, 0, 0, 0, 0x01], Write [0x08, 2, 0, 0, 0, 0, 0, 0x01,
          0x10, 0, 0], Read [0x08, 0, 0, 0, 0, 0, 0, 0, 0, 0, 0, 0x01, 0x00,
          0x00]]\<rparr>) \<and>
   Bootloader__chunk \<lparr>buf = [(0x2000, 0x11), (0x2001, 0x22), (0x2002, 0x33), (0x2003,
       0x44)], padding = 0xFF\<rparr> 2 =
     Inr [\<lparr>buf = [(0x2000, 0x11), (0x2001, 0x22)], padding = 0xFF\<rparr>,
         \<lparr>buf = [(0x2002, 0x33), (0x2003, 0x44)], padding = 0xFF\<rparr>] \<and>
   Bootloader_flash \<lparr>self_max_packet_length = 13, self_erase_size = 1024,
       self_write_size = 2, self_memory_range = Range 0x1000 0x2000 1\<rparr>
     \<lparr>buf = [(0x2000, 0x11), (0x2001, 0x22), (0x2002, 0x33), (0x2003, 0x44)],
         padding = 0xFF\<rparr> True
     \<lparr>timeout = Some 1, fails_after = None, rx = [0x0A, 0, 0, 0, 0, 0, 0, 0, 0, 0, 0,
         0xFC] @ [0x02, 0, 0, 0, 0, 0, 0, 0, 0, 0, 0, 0x01] @ [0x08, 0, 0, 0, 0, 0, 0, 0, 0, 0,
         0, 0x01, 0x11, 0x22] @ [0x02, 0, 0, 0, 0, 0, 0, 0, 0, 0, 0, 0x01] @ [0x08, 0, 0, 0, 0,
         0, 0, 0, 0, 0, 0, 0x01, 0x33, 0x44] @ [0x0A, 0, 0, 0, 0, 0, 0, 0, 0, 0, 0, 0x01],
         events = []\<rparr> =
     (Inr (),
      \<lparr>timeout = Some 1, fails_after = None, rx = [], events = [Write [0x0A, 0, 0, 0, 0,
          0, 0, 0, 0, 0, 0], Read [0x0A, 0, 0, 0, 0, 0, 0, 0, 0, 0, 0, 0xFC], Write [0x02, 2,
          0, 0x55, 0, 0xAA, 0, 0x00, 0x10, 0, 0, 0x11, 0x22], Read [0x02, 0, 0, 0, 0, 0, 0, 0,
          0, 0, 0, 0x01], Write [0x08, 2, 0, 0, 0, 0, 0, 0x00, 0x10, 0, 0], Read [0x08, 0, 0,
          0, 0, 0, 0, 0, 0, 0, 0, 0x01, 0x11, 0x22], Progress 2 4, Write [0x02, 2, 0, 0x55, 0,
          0xAA, 0, 0x01, 0x10, 0, 0, 0x33, 0x44], Read [0x02, 0, 0, 0, 0, 0, 0, 0, 0, 0, 0,
          0x01], Write [0x08, 2, 0, 0, 0, 0, 0, 0x01, 0x10, 0, 0], Read [0x08, 0, 0, 0, 0, 0,
          0, 0, 0, 0, 0, 0x01, 0x33, 0x44], Progress 4 4, Write [0x0A, 0, 0, 0, 0, 0, 0, 0, 0,
          0, 0], Read [0x0A, 0, 0, 0, 0, 0, 0, 0, 0, 0, 0, 0x01]]\<rparr>) \<and>
   (\<exists>done. map fst done = all_chunks 2 [\<lparr>buf = [(0x2000, 0x11), (0x2001, 0x22),
       (0x2002, 0x33), (0x2003, 0x44)], padding = 0xFF\<rparr>] \<and>
      list_all verified done \<and>
      events \<lparr>timeout = Some 1, fails_after = None, rx = [0x0A, 0, 0, 0, 0, 0, 0, 0, 0,
          0, 0, 0x01], events = [Write [0x0A, 0, 0, 0, 0, 0, 0, 0, 0, 0, 0], Read [0x0A, 0, 0,
          0, 0, 0, 0, 0, 0, 0, 0, 0xFC], Write [0x02, 2, 0, 0x55, 0, 0xAA, 0, 0x00, 0x10, 0, 0,
          0x11, 0x22], Read [0x02, 0, 0, 0, 0, 0, 0, 0, 0, 0, 0, 0x01], Write [0x08, 2, 0, 0,
          0, 0, 0, 0x00, 0x10, 0, 0], Read [0x08, 0, 0, 0, 0, 0, 0, 0, 0, 0, 0, 0x01, 0x11,
          0x22], Progress 2 4, Write [0x02, 2, 0, 0x55, 0, 0xAA, 0, 0x01, 0x10, 0, 0, 0x33,
          0x44], Read [0x02, 0, 0, 0, 0, 0, 0, 0, 0, 0, 0, 0x01], Write [0x08, 2, 0, 0, 0, 0,
          0, 0x01, 0x10, 0, 0], Read [0x08, 0, 0, 0, 0, 0, 0, 0, 0, 0, 0, 0x01, 0x33, 0x44],
          Progress 4 4]\<rparr> =
      events \<lparr>timeout = Some 1, fails_after = None, rx = [0x02, 0, 0, 0, 0, 0, 0, 0, 0,
          0, 0, 0x01] @ [0x08, 0, 0, 0, 0, 0, 0, 0, 0, 0, 0, 0x01, 0x11, 0x22] @ [0x02, 0, 0,
          0, 0, 0, 0, 0, 0, 0, 0, 0x01] @ [0x08, 0, 0, 0, 0, 0, 0, 0, 0, 0, 0, 0x01, 0x33,
          0x44] @ [0x0A, 0, 0, 0, 0, 0, 0, 0, 0, 0, 0, 0x01], events = [Write [0x0A, 0, 0, 0,
          0, 0, 0, 0, 0, 0, 0], Read [0x0A, 0, 0, 0, 0, 0, 0, 0, 0, 0, 0, 0xFC]]\<rparr> @
      chunks_events \<lparr>self_max_packet_length = 13, self_erase_size = 1024,
          self_write_size = 2,
          self_memory_range = Range 0x1000 0x2000 1\<rparr> True 4 done 0) \<and>
   (\<exists>done es. prefix (map fst done) (all_chunks 2 [\<lparr>buf = [(0x2000, 0x11),
       (0x2001, 0x22), (0x2002, 0x33), (0x2003, 0x44)], padding = 0xFF\<rparr>]) \<and>
      list_all verified done \<and>
      events \<lparr>timeout = Some 1, fails_after = None, rx = [0x0A, 0, 0, 0, 0, 0, 0, 0, 0,
          0, 0, 0x01], events = [Write [0x02, 2, 0, 0x55, 0, 0xAA, 0, 0x00, 0x10, 0, 0, 0x11,
          0x22], Read [0x02, 0, 0, 0, 0, 0, 0, 0, 0, 0, 0, 0x01], Write [0x08, 2, 0, 0, 0, 0,
          0, 0x00, 0x10, 0, 0], Read [0x08, 0, 0, 0, 0, 0, 0, 0, 0, 0, 0, 0x01, 0x11, 0x22],
          Progress 2 4, Write [0x02, 2, 0, 0x55, 0, 0xAA, 0, 0x01, 0x10, 0, 0, 0x33, 0x44],
          Read [0x02, 0, 0, 0, 0, 0, 0, 0, 0, 0, 0, 0x01], Write [0x08, 2, 0, 0, 0, 0, 0, 0x01,
          0x10, 0, 0], Read [0x08, 0, 0, 0, 0, 0, 0, 0, 0, 0, 0, 0x01, 0x00, 0x00]]\<rparr> =
      events \<lparr>timeout = Some 1, fails_after = None, rx = [0x02, 0, 0, 0, 0, 0, 0, 0, 0,
          0, 0, 0x01] @ [0x08, 0, 0, 0, 0, 0, 0, 0, 0, 0, 0, 0x01, 0x11, 0x22] @ [0x02, 0, 0,
          0, 0, 0, 0, 0, 0, 0, 0, 0x01] @ [0x08, 0, 0, 0, 0, 0, 0, 0, 0, 0, 0, 0x01, 0x00,
          0x00] @ [0x0A, 0, 0, 0, 0, 0, 0, 0, 0, 0, 0, 0x01], events = []\<rparr> @
      chunks_events \<lparr>self_max_packet_length = 13, self_erase_size = 1024,
          self_write_size = 2,
          self_memory_range = Range 0x1000 0x2000 1\<rparr> True 4 done 0 @ es \<and>
      (es = [] \<or>
       (\<exists>chunk. prefix (map fst done @ [chunk]) (all_chunks 2 [\<lparr>buf = [(0x2000,
           0x11), (0x2001, 0x22), (0x2002, 0x33), (0x2003, 0x44)],
           padding = 0xFF\<rparr>]) \<and>
          unfinished \<lparr>self_max_packet_length = 13, self_erase_size = 1024,
              self_write_size = 2,
              self_memory_range = Range 0x1000 0x2000 1\<rparr> chunk es))) \<and>
   sorted_wrt before [\<lparr>buf = [(0x2000, 0x11), (0x2001, 0x22)], padding = 0xFF\<rparr>,
       \<lparr>buf = [(0x2002, 0x33), (0x2003, 0x44)], padding = 0xFF\<rparr>] \<and>
   sorted_wrt before (flash_segments_list \<lparr>self_max_packet_length = 13,
       self_erase_size = 1024, self_write_size = 2,
       self_memory_range = Range 0x1000 0x2000 1\<rparr> \<lparr>buf = [(0x2000, 0x11),
       (0x2001, 0x22), (0x2002, 0x33), (0x2003, 0x44)], padding = 0xFF\<rparr>) \<and>
   (\<exists>we done v.
      Bootloader_erase_flash \<lparr>self_max_packet_length = 13, self_erase_size = 1024,
          self_write_size = 2,
          self_memory_range = Range 0x1000 0x2000 1\<rparr> (Some (Range 0x1000 0x2000 1)) False True
        \<lparr>timeout = Some 1, fails_after = None, rx = [0x0A, 0, 0, 0, 0, 0, 0, 0, 0, 0, 0,
            0xFC] @ [0x02, 0, 0, 0, 0, 0, 0, 0, 0, 0, 0, 0x01] @ [0x08, 0, 0, 0, 0, 0, 0, 0, 0,
            0, 0, 0x01, 0x11, 0x22] @ [0x02, 0, 0, 0, 0, 0, 0, 0, 0, 0, 0, 0x01] @ [0x08, 0, 0,
            0, 0, 0, 0, 0, 0, 0, 0, 0x01, 0x33, 0x44] @ [0x0A, 0, 0, 0, 0, 0, 0, 0, 0, 0, 0,
            0x01], events = []\<rparr> = (Inr (), we) \<and>
      map fst done = all_chunks (flash_chunk_size \<lparr>self_max_packet_length = 13,
          self_erase_size = 1024, self_write_size = 2,
          self_memory_range = Range 0x1000 0x2000 1\<rparr>) (flash_segments_list \<lparr>self_max_packet_length = 13, self_erase_size = 1024, self_write_size = 2, self_memory_range = Range 0x1000 0x2000 1\<rparr> \<lparr>buf = [(0x2000, 0x11), (0x2001, 0x22), (0x2002, 0x33), (0x2003, 0x44)], padding = 0xFF\<rparr>) \<and>
      list_all verified done \<and>
      events \<lparr>timeout = Some 1, fails_after = None, rx = [], events = [Write [0x0A, 0,
          0, 0, 0, 0, 0, 0, 0, 0, 0], Read [0x0A, 0, 0, 0, 0, 0, 0, 0, 0, 0, 0, 0xFC],
          Write [0x02, 2, 0, 0x55, 0, 0xAA, 0, 0x00, 0x10, 0, 0, 0x11, 0x22], Read [0x02, 0, 0,
          0, 0, 0, 0, 0, 0, 0, 0, 0x01], Write [0x08, 2, 0, 0, 0, 0, 0, 0x00, 0x10, 0, 0],
          Read [0x08, 0, 0, 0, 0, 0, 0, 0, 0, 0, 0, 0x01, 0x11, 0x22], Progress 2 4,
          Write [0x02, 2, 0, 0x55, 0, 0xAA, 0, 0x01, 0x10, 0, 0, 0x33, 0x44], Read [0x02, 0, 0,
          0, 0, 0, 0, 0, 0, 0, 0, 0x01], Write [0x08, 2, 0, 0, 0, 0, 0, 0x01, 0x10, 0, 0],
          Read [0x08, 0, 0, 0, 0, 0, 0, 0, 0, 0, 0, 0x01, 0x33, 0x44], Progress 4 4,
          Write [0x0A, 0, 0, 0, 0, 0, 0, 0, 0, 0, 0], Read [0x0A, 0, 0, 0, 0, 0, 0, 0, 0, 0, 0,
          0x01]]\<rparr> =
      events we @
      chunks_events \<lparr>self_max_packet_length = 13, self_erase_size = 1024,
          self_write_size = 2,
          self_memory_range = Range 0x1000 0x2000 1\<rparr> True (sum_list (map ih_len (flash_segments_list \<lparr>self_max_packet_length = 13, self_erase_size = 1024, self_write_size = 2, self_memory_range = Range 0x1000 0x2000 1\<rparr> \<lparr>buf = [(0x2000, 0x11), (0x2001, 0x22), (0x2002, 0x33), (0x2003, 0x44)], padding = 0xFF\<rparr>))) done 0 @
      [sent (Command SELF_VERIFY 0 0 0) [], Read v]) \<and>
   all_chunks 2 [\<lparr>buf = [(0x2000, 0x11), (0x2001, 0x22), (0x2002, 0x33), (0x2003,
       0x44)], padding = 0xFF\<rparr>] = [\<lparr>buf = [(0x2000, 0x11), (0x2001, 0x22)],
       padding = 0xFF\<rparr>, \<lparr>buf = [(0x2002, 0x33), (0x2003, 0x44)],
       padding = 0xFF\<rparr>] \<and>
   list_all verified [(\<lparr>buf = [(0x2000, 0x11), (0x2001, 0x22)], padding = 0xFF\<rparr>,
       [0x02, 0, 0, 0, 0, 0, 0, 0, 0, 0, 0, 0x01], [0x08, 0, 0, 0, 0, 0, 0, 0, 0, 0, 0, 0x01,
       0x11, 0x22]), (\<lparr>buf = [(0x2002, 0x33), (0x2003, 0x44)], padding = 0xFF\<rparr>,
       [0x02, 0, 0, 0, 0, 0, 0, 0, 0, 0, 0, 0x01], [0x08, 0, 0, 0, 0, 0, 0, 0, 0, 0, 0, 0x01,
       0x33, 0x44])] \<and>
   chunks_events \<lparr>self_max_packet_length = 13, self_erase_size = 1024,
       self_write_size = 2,
       self_memory_range = Range 0x1000 0x2000 1\<rparr> True 4 [(\<lparr>buf = [(0x2000,
       0x11), (0x2001, 0x22)], padding = 0xFF\<rparr>, [0x02, 0, 0, 0, 0, 0, 0, 0, 0, 0, 0,
       0x01], [0x08, 0, 0, 0, 0, 0, 0, 0, 0, 0, 0, 0x01, 0x11, 0x22]), (\<lparr>buf = [(0x2002,
       0x33), (0x2003, 0x44)], padding = 0xFF\<rparr>, [0x02, 0, 0, 0, 0, 0, 0, 0, 0, 0, 0,
       0x01], [0x08, 0, 0, 0, 0, 0, 0, 0, 0, 0, 0, 0x01, 0x33, 0x44])] 0 =
     [Write [0x02, 2, 0, 0x55, 0, 0xAA, 0, 0x00, 0x10, 0, 0, 0x11, 0x22], Read [0x02, 0, 0, 0,
         0, 0, 0, 0, 0, 0, 0, 0x01], Write [0x08, 2, 0, 0, 0, 0, 0, 0x00, 0x10, 0, 0],
         Read [0x08, 0, 0, 0, 0, 0, 0, 0, 0, 0, 0, 0x01, 0x11, 0x22], Progress 2 4,
         Write [0x02, 2, 0, 0x55, 0, 0xAA, 0, 0x01, 0x10, 0, 0, 0x33, 0x44], Read [0x02, 0, 0,
         0, 0, 0, 0, 0, 0, 0, 0, 0x01], Write [0x08, 2, 0, 0, 0, 0, 0, 0x01, 0x10, 0, 0],
         Read [0x08, 0, 0, 0, 0, 0, 0, 0, 0, 0, 0, 0x01, 0x33, 0x44], Progress 4 4] \<and>
   chunks_events \<lparr>self_max_packet_length = 13, self_erase_size = 1024,
       self_write_size = 2,
       self_memory_range = Range 0x1000 0x2000 1\<rparr> True 4 [(\<lparr>buf = [(0x2000,
       0x11), (0x2001, 0x22)], padding = 0xFF\<rparr>, [0x02, 0, 0, 0, 0, 0, 0, 0, 0, 0, 0,
       0x01], [0x08, 0, 0, 0, 0, 0, 0, 0, 0, 0, 0, 0x01, 0x11, 0x22])] 0 =
     [Write [0x02, 2, 0, 0x55, 0, 0xAA, 0, 0x00, 0x10, 0, 0, 0x11, 0x22], Read [0x02, 0, 0, 0,
         0, 0, 0, 0, 0, 0, 0, 0x01], Write [0x08, 2, 0, 0, 0, 0, 0, 0x00, 0x10, 0, 0],
         Read [0x08, 0, 0, 0, 0, 0, 0, 0, 0, 0, 0, 0x01, 0x11, 0x22], Progress 2 4] \<and>
   unfinished \<lparr>self_max_packet_length = 13, self_erase_size = 1024, self_write_size = 2,
       self_memory_range = Range 0x1000 0x2000 1\<rparr> \<lparr>buf = [(0x2002, 0x33),
       (0x2003, 0x44)], padding = 0xFF\<rparr>
     [Write [0x02, 2, 0, 0x55, 0, 0xAA, 0, 0x01, 0x10, 0, 0, 0x33, 0x44], Read [0x02, 0, 0, 0,
         0, 0, 0, 0, 0, 0, 0, 0x01], Write [0x08, 2, 0, 0, 0, 0, 0, 0x01, 0x10, 0, 0],
         Read [0x08, 0, 0, 0, 0, 0, 0, 0, 0, 0, 0, 0x01, 0x00, 0x00]]"
  using flash_order
    [where self = "\<lparr>self_max_packet_length = 13, self_erase_size = 1024,
        self_write_size = 2, self_memory_range = Range 0x1000 0x2000 1\<rparr>"
        and cb = True and tot = 4 and cs = 2
       and segments = "[\<lparr>buf = [(0x2000, 0x11), (0x2001, 0x22), (0x2002, 0x33), (0x2003,
           0x44)], padding = 0xFF\<rparr>]" and wr = 0
       and w = "\<lparr>timeout = Some 1, fails_after = None, rx = [0x02, 0, 0, 0, 0, 0, 0, 0,
           0, 0, 0, 0x01] @ [0x08, 0, 0, 0, 0, 0, 0, 0, 0, 0, 0, 0x01, 0x11, 0x22] @ [0x02, 0,
           0, 0, 0, 0, 0, 0, 0, 0, 0, 0x01] @ [0x08, 0, 0, 0, 0, 0, 0, 0, 0, 0, 0, 0x01, 0x33,
           0x44] @ [0x0A, 0, 0, 0, 0, 0, 0, 0, 0, 0, 0, 0x01], events = [Write [0x0A, 0, 0, 0,
           0, 0, 0, 0, 0, 0, 0], Read [0x0A, 0, 0, 0, 0, 0, 0, 0, 0, 0, 0, 0xFC]]\<rparr>"
       and n = 4
       and w' = "\<lparr>timeout = Some 1, fails_after = None, rx = [0x0A, 0, 0, 0, 0, 0, 0, 0,
           0, 0, 0, 0x01], events = [Write [0x0A, 0, 0, 0, 0, 0, 0, 0, 0, 0, 0], Read [0x0A, 0,
           0, 0, 0, 0, 0, 0, 0, 0, 0, 0xFC], Write [0x02, 2, 0, 0x55, 0, 0xAA, 0, 0x00, 0x10,
           0, 0, 0x11, 0x22], Read [0x02, 0, 0, 0, 0, 0, 0, 0, 0, 0, 0, 0x01], Write [0x08, 2,
           0, 0, 0, 0, 0, 0x00, 0x10, 0, 0], Read [0x08, 0, 0, 0, 0, 0, 0, 0, 0, 0, 0, 0x01,
           0x11, 0x22], Progress 2 4, Write [0x02, 2, 0, 0x55, 0, 0xAA, 0, 0x01, 0x10, 0, 0,
           0x33, 0x44], Read [0x02, 0, 0, 0, 0, 0, 0, 0, 0, 0, 0, 0x01], Write [0x08, 2, 0, 0,
           0, 0, 0, 0x01, 0x10, 0, 0], Read [0x08, 0, 0, 0, 0, 0, 0, 0, 0, 0, 0, 0x01, 0x33,
           0x44], Progress 4 4]\<rparr>"
       and ?self2.0 = "\<lparr>self_max_packet_length = 13, self_erase_size = 1024,
           self_write_size = 2, self_memory_range = Range 0x1000 0x2000 1\<rparr>"
           and ?cb2.0 = True and ?tot2.0 = 4 and ?cs2.0 = 2
       and ?segments2.0 = "[\<lparr>buf = [(0x2000, 0x11), (0x2001, 0x22), (0x2002, 0x33),
           (0x2003, 0x44)], padding = 0xFF\<rparr>]" and ?wr2.0 = 0
       and ?w2.0 = "\<lparr>timeout = Some 1, fails_after = None, rx = [0x02, 0, 0, 0, 0, 0, 0,
           0, 0, 0, 0, 0x01] @ [0x08, 0, 0, 0, 0, 0, 0, 0, 0, 0, 0, 0x01, 0x11, 0x22] @ [0x02,
           0, 0, 0, 0, 0, 0, 0, 0, 0, 0, 0x01] @ [0x08, 0, 0, 0, 0, 0, 0, 0, 0, 0, 0, 0x01,
           0x00, 0x00] @ [0x0A, 0, 0, 0, 0, 0, 0, 0, 0, 0, 0, 0x01], events = []\<rparr>"
       and e = "BootloaderError ''Checksum mismatch while writing''"
       and ?w2' = "\<lparr>timeout = Some 1, fails_after = None, rx = [0x0A, 0, 0, 0, 0, 0, 0,
           0, 0, 0, 0, 0x01], events = [Write [0x02, 2, 0, 0x55, 0, 0xAA, 0, 0x00, 0x10, 0, 0,
           0x11, 0x22], Read [0x02, 0, 0, 0, 0, 0, 0, 0, 0, 0, 0, 0x01], Write [0x08, 2, 0, 0,
           0, 0, 0, 0x00, 0x10, 0, 0], Read [0x08, 0, 0, 0, 0, 0, 0, 0, 0, 0, 0, 0x01, 0x11,
           0x22], Progress 2 4, Write [0x02, 2, 0, 0x55, 0, 0xAA, 0, 0x01, 0x10, 0, 0, 0x33,
           0x44], Read [0x02, 0, 0, 0, 0, 0, 0, 0, 0, 0, 0, 0x01], Write [0x08, 2, 0, 0, 0, 0,
           0, 0x01, 0x10, 0, 0], Read [0x08, 0, 0, 0, 0, 0, 0, 0, 0, 0, 0, 0x01, 0x00,
           0x00]]\<rparr>"
       and segment = "\<lparr>buf = [(0x2000, 0x11), (0x2001, 0x22), (0x2002, 0x33), (0x2003,
           0x44)], padding = 0xFF\<rparr>" and ?cs3.0 = 2
       and chunks = "[\<lparr>buf = [(0x2000, 0x11), (0x2001, 0x22)], padding = 0xFF\<rparr>,
           \<lparr>buf = [(0x2002, 0x33), (0x2003, 0x44)], padding = 0xFF\<rparr>]"
       and hexfile = "\<lparr>buf = [(0x2000, 0x11), (0x2001, 0x22), (0x2002, 0x33), (0x2003,
           0x44)], padding = 0xFF\<rparr>" and ?self4.0 = "\<lparr>self_max_packet_length = 13,
           self_erase_size = 1024, self_write_size = 2,
           self_memory_range = Range 0x1000 0x2000 1\<rparr>"
       and ?self5.0 = "\<lparr>self_max_packet_length = 13, self_erase_size = 1024,
           self_write_size = 2, self_memory_range = Range 0x1000 0x2000 1\<rparr>"
           and ?hexfile5.0 = "\<lparr>buf = [(0x2000, 0x11), (0x2001, 0x22), (0x2002, 0x33),
           (0x2003, 0x44)], padding = 0xFF\<rparr>" and ?cb5.0 = True
       and ?w5.0 = "\<lparr>timeout = Some 1, fails_after = None, rx = [0x0A, 0, 0, 0, 0, 0, 0,
           0, 0, 0, 0, 0xFC] @ [0x02, 0, 0, 0, 0, 0, 0, 0, 0, 0, 0, 0x01] @ [0x08, 0, 0, 0, 0,
           0, 0, 0, 0, 0, 0, 0x01, 0x11, 0x22] @ [0x02, 0, 0, 0, 0, 0, 0, 0, 0, 0, 0, 0x01]
           @ [0x08, 0, 0, 0, 0, 0, 0, 0, 0, 0, 0, 0x01, 0x33, 0x44] @ [0x0A, 0, 0, 0, 0, 0, 0,
           0, 0, 0, 0, 0x01], events = []\<rparr>"
       and ?w5' = "\<lparr>timeout = Some 1, fails_after = None, rx = [],
           events = [Write [0x0A, 0, 0, 0, 0, 0, 0, 0, 0, 0, 0], Read [0x0A, 0, 0, 0, 0, 0, 0,
           0, 0, 0, 0, 0xFC], Write [0x02, 2, 0, 0x55, 0, 0xAA, 0, 0x00, 0x10, 0, 0, 0x11,
           0x22], Read [0x02, 0, 0, 0, 0, 0, 0, 0, 0, 0, 0, 0x01], Write [0x08, 2, 0, 0, 0, 0,
           0, 0x00, 0x10, 0, 0], Read [0x08, 0, 0, 0, 0, 0, 0, 0, 0, 0, 0, 0x01, 0x11, 0x22],
           Progress 2 4, Write [0x02, 2, 0, 0x55, 0, 0xAA, 0, 0x01, 0x10, 0, 0, 0x33, 0x44],
           Read [0x02, 0, 0, 0, 0, 0, 0, 0, 0, 0, 0, 0x01], Write [0x08, 2, 0, 0, 0, 0, 0,
           0x01, 0x10, 0, 0], Read [0x08, 0, 0, 0, 0, 0, 0, 0, 0, 0, 0, 0x01, 0x33, 0x44],
           Progress 4 4, Write [0x0A, 0, 0, 0, 0, 0, 0, 0, 0, 0, 0], Read [0x0A, 0, 0, 0, 0, 0,
           0, 0, 0, 0, 0, 0x01]]\<rparr>"]
  by (simp add: all_chunks_def flash_segments_list_def flash_chunk_size_def sent_def
      write_flash_event_def checksum_event_def verified_def write_reply_ok_def
      checksum_reply_ok_def unfinished_def flash_defs image_defs erase_defs exchange_defs
      codec_defs)

section \<open>Further properties\<close>

text \<open>
  The response class is looked up by the command code alone: the table has an entry
  for a value exactly when the value is a command code.
\<close>

theorem response_type_total:
  "(map_of RESPONSE_TYPE_MAP v \<noteq> None) = (BootCommand_of v \<noteq> None)"
  by (simp add: RESPONSE_TYPE_MAP_def BootCommand_of_def)

text \<open>
  Whatever the field values, an encoded packet has the size \<open>get_size\<close> gives for its
  class, and these sizes are 11, 12, 37, 20 and 14 bytes.
\<close>

lemma get_size_values:
  "Packet_get_size = 11 \<and> ResponsePacket_get_size = 12 \<and> VersionResponsePacket_get_size = 37 \<and>
   MemoryRangePacket_get_size = 20 \<and> ChecksumPacket_get_size = 14"
  by (simp add: codec_defs)

theorem encoded_size:
  "(Packet_bytes c = Inr bs1 \<longrightarrow> length bs1 = Packet_get_size) \<and>
   (ResponsePacket_bytes r = Inr bs2 \<longrightarrow> length bs2 = ResponsePacket_get_size) \<and>
   (VersionResponsePacket_bytes v = Inr bs3 \<longrightarrow> length bs3 = VersionResponsePacket_get_size) \<and>
   (MemoryRangePacket_bytes m = Inr bs4 \<longrightarrow> length bs4 = MemoryRangePacket_get_size) \<and>
   (ChecksumPacket_bytes k = Inr bs5 \<longrightarrow> length bs5 = ChecksumPacket_get_size)"
  unfolding Packet_bytes_def ResponsePacket_bytes_def VersionResponsePacket_bytes_def
    MemoryRangePacket_bytes_def ChecksumPacket_bytes_def Packet_get_size_def
    ResponsePacket_get_size_def VersionResponsePacket_get_size_def
    MemoryRangePacket_get_size_def ChecksumPacket_get_size_def
  using struct_pack_unpack by blast

theorem encoded_size_witness:
  "length [0x03, 3, 0, 0x55, 0, 0xAA, 0, 0, 0x10, 0, 0 :: byte] = Packet_get_size \<and>
   length [0x0A, 0, 0, 0, 0, 0, 0, 0, 0, 0, 0, 0xFC :: byte] = ResponsePacket_get_size \<and>
   length [0, 0, 0, 0, 0, 0, 0, 0, 0, 0, 0, 0x02, 0x01, 0x00, 0x01, 0, 0, 0x56, 0x34, 0, 0,
           0x00, 0x04, 0x08, 0x00, 0, 0, 0, 0, 0, 0, 0, 0, 0, 0, 0, 0 :: byte] =
     VersionResponsePacket_get_size \<and>
   length [0x0B, 0, 0, 0, 0, 0, 0, 0, 0, 0, 0, 0x01, 0x00, 0x10, 0, 0, 0x00, 0x20, 0, 0 :: byte] =
     MemoryRangePacket_get_size \<and>
   length [0x08, 0, 0, 0, 0, 0, 0, 0, 0, 0, 0, 0x01, 0x12, 0x34 :: byte] =
     ChecksumPacket_get_size"
  using encoded_size
    [where c = "Command ERASE_FLASH 3 FLASH_UNLOCK_KEY 0x1000"
       and ?bs1.0 = "[0x03, 3, 0, 0x55, 0, 0xAA, 0, 0, 0x10, 0, 0]"
       and r = "\<lparr>command = 0x0A, data_length = 0, unlock_sequence = 0, address = 0,
          success = 0xFC\<rparr>"
       and ?bs2.0 = "[0x0A, 0, 0, 0, 0, 0, 0, 0, 0, 0, 0, 0xFC]"
       and v = "\<lparr>command = 0, data_length = 0, unlock_sequence = 0, address = 0,
          version = 0x0102, max_packet_length = 256, device_id = 0x3456,
          erase_size = 1024, write_size = 8\<rparr>"
       and ?bs3.0 = "[0, 0, 0, 0, 0, 0, 0, 0, 0, 0, 0, 0x02, 0x01, 0x00, 0x01, 0, 0, 0x56, 0x34,
          0, 0, 0x00, 0x04, 0x08, 0x00, 0, 0, 0, 0, 0, 0, 0, 0, 0, 0, 0, 0]"
       and m = "\<lparr>command = 0x0B, data_length = 0, unlock_sequence = 0, address = 0,
          success = 1, program_start = 0x1000, program_end = 0x2000\<rparr>"
       and ?bs4.0 = "[0x0B, 0, 0, 0, 0, 0, 0, 0, 0, 0, 0, 0x01, 0x00, 0x10, 0, 0, 0x00, 0x20, 0, 0]"
       and k = "\<lparr>command = 8, data_length = 0, unlock_sequence = 0, address = 0,
          success = 1, checksum = 0x3412\<rparr>"
       and ?bs5.0 = "[0x08, 0, 0, 0, 0, 0, 0, 0, 0, 0, 0, 0x01, 0x12, 0x34]"]
  by (simp add: codec_defs Command_def FLASH_UNLOCK_KEY_def)

text \<open>
  \<open>erase_flash\<close> without \<open>force\<close> on a device that holds no program (the probe
  answers VERIFY\_FAIL) returns after the probe: nothing else is sent or read.
\<close>

theorem erase_skipped_without_program:
  assumes "2 \<le> range_len (self_memory_range self)"
    and "Bootloader__detect_program w = (Inr False, w')"
  shows "Bootloader_erase_flash self None False verify w = (Inr (), w')"
  using assms by (simp add: Bootloader_erase_flash_def unpack_first_last_def)

theorem erase_skipped_without_program_witness:
  "Bootloader_erase_flash
     \<lparr>self_max_packet_length = 256, self_erase_size = 1024, self_write_size = 8,
      self_memory_range = Range 0x1000 0x2000 1\<rparr>
     None False True
     \<lparr>timeout = Some 1, fails_after = None,
      rx = [0x0A, 0, 0, 0, 0, 0, 0, 0, 0, 0, 0, 0xFC], events = []\<rparr> =
     (Inr (),
      \<lparr>timeout = Some 1, fails_after = None, rx = [],
       events = [Write [0x0A, 0, 0, 0, 0, 0, 0, 0, 0, 0, 0],
                 Read [0x0A, 0, 0, 0, 0, 0, 0, 0, 0, 0, 0, 0xFC]]\<rparr>)"
  using erase_skipped_without_program
    [where self = "\<lparr>self_max_packet_length = 256, self_erase_size = 1024,
          self_write_size = 8, self_memory_range = Range 0x1000 0x2000 1\<rparr>"
       and verify = True
       and w = "\<lparr>timeout = Some 1, fails_after = None,
          rx = [0x0A, 0, 0, 0, 0, 0, 0, 0, 0, 0, 0, 0xFC], events = []\<rparr>"
       and w' = "\<lparr>timeout = Some 1, fails_after = None, rx = [],
          events = [Write [0x0A, 0, 0, 0, 0, 0, 0, 0, 0, 0, 0],
                    Read [0x0A, 0, 0, 0, 0, 0, 0, 0, 0, 0, 0, 0xFC]]\<rparr>"]
  by (simp add: Bootloader__detect_program_def Bootloader__self_verify_def exchange_defs
      codec_defs)

text \<open>
  When the erase exchange succeeds, \<open>_erase_flash\<close> has written one ERASE\_FLASH
  command, with the difference of the two addresses it is given divided by the erase
  size as \<open>data_length\<close>, the unlock key and the start address, and read its
  answer, and the timeout is back at its value.
\<close>

theorem erase_flash_private_command:
  assumes "Bootloader__erase_flash self a b w = (Inr u, w')"
  shows "timeout w' = timeout w \<and>
         (\<exists>v. events w' = events w @
           [sent (Command ERASE_FLASH ((b - a) div self_erase_size self) FLASH_UNLOCK_KEY a) [],
            Read v])"
proof -
  define w1 where
    "w1 = (case timeout w of None \<Rightarrow> w | Some t \<Rightarrow> w\<lparr>timeout := Some (t * 10)\<rparr>)"
  define c where
    "c = Command ERASE_FLASH ((b - a) div self_erase_size self) FLASH_UNLOCK_KEY a"
  have ev: "events w1 = events w" by (simp add: w1_def split: option.splits)
  obtain res w2 where sr: "Bootloader__send_and_receive c [] w1 = (res, w2)"
    by (cases "Bootloader__send_and_receive c [] w1")
  have nz: "self_erase_size self \<noteq> 0"
    using assms by (auto simp: Bootloader__erase_flash_def Let_def)
  show ?thesis
  proof (cases res)
    case (Inl e)
    with sr assms nz show ?thesis
      by (simp add: Bootloader__erase_flash_def Let_def w1_def c_def)
  next
    case (Inr r)
    with sr assms nz have w': "w' = w2\<lparr>timeout := timeout w\<rparr>"
      by (simp add: Bootloader__erase_flash_def Let_def w1_def c_def)
    from send_and_receive_trace(1) [OF sr Inr] ev w' show ?thesis
      by (auto simp: c_def)
  qed
qed

theorem erase_flash_private_command_witness:
  "timeout \<lparr>timeout = Some 1, fails_after = None, rx = [],
       events = [Write [0x03, 3, 0, 0x55, 0, 0xAA, 0, 0, 0x10, 0, 0],
                 Read [0x03, 0, 0, 0, 0, 0, 0, 0, 0, 0, 0, 0x01]]\<rparr> = Some 1 \<and>
   (\<exists>v. [Write [0x03, 3, 0, 0x55, 0, 0xAA, 0, 0, 0x10, 0, 0],
         Read [0x03, 0, 0, 0, 0, 0, 0, 0, 0, 0, 0, 0x01]] =
     [sent (Command ERASE_FLASH ((0x1FFF - 0x1000) div 1024) FLASH_UNLOCK_KEY 0x1000) [],
      Read v])"
  using erase_flash_private_command
    [where self = "\<lparr>self_max_packet_length = 256, self_erase_size = 1024,
          self_write_size = 8, self_memory_range = Range 0x1000 0x2000 1\<rparr>"
       and a = "0x1000" and b = "0x1FFF" and u = "()"
       and w = "\<lparr>timeout = Some 1, fails_after = None,
          rx = [0x03, 0, 0, 0, 0, 0, 0, 0, 0, 0, 0, 0x01], events = []\<rparr>"
       and w' = "\<lparr>timeout = Some 1, fails_after = None, rx = [],
          events = [Write [0x03, 3, 0, 0x55, 0, 0xAA, 0, 0, 0x10, 0, 0],
                    Read [0x03, 0, 0, 0, 0, 0, 0, 0, 0, 0, 0, 0x01]]\<rparr>"]
  by (simp add: Bootloader__erase_flash_def sent_def exchange_defs codec_defs)

text \<open>
  A device that answers the first WRITE\_FLASH with BAD\_ADDRESS: \<open>flash\<close> raises
  BadAddress and sends nothing after that command; the answers not yet read stay unread.
\<close>

theorem flash_aborts_on_bad_address:
  "Bootloader_flash
     \<lparr>self_max_packet_length = 13, self_erase_size = 1024, self_write_size = 2,
      self_memory_range = Range 0x1000 0x2000 1\<rparr>
     \<lparr>buf = [(0x2000, 0x11), (0x2001, 0x22), (0x2002, 0x33), (0x2003, 0x44)], padding = 0xFF\<rparr> True
     \<lparr>timeout = Some 1, fails_after = None,
      rx = [0x0A, 0, 0, 0, 0, 0, 0, 0, 0, 0, 0, 0xFC] @
           [0x02, 0, 0, 0, 0, 0, 0, 0, 0, 0, 0, 0xFE] @
           [0x08, 0, 0, 0, 0, 0, 0, 0, 0, 0, 0, 0x01, 0x11, 0x22],
      events = []\<rparr> =
     (Inl BadAddress,
      \<lparr>timeout = Some 1, fails_after = None,
       rx = [0x08, 0, 0, 0, 0, 0, 0, 0, 0, 0, 0, 0x01, 0x11, 0x22],
       events = [Write [0x0A, 0, 0, 0, 0, 0, 0, 0, 0, 0, 0],
                 Read [0x0A, 0, 0, 0, 0, 0, 0, 0, 0, 0, 0, 0xFC],
                 Write [0x02, 2, 0, 0x55, 0, 0xAA, 0, 0x00, 0x10, 0, 0, 0x11, 0x22],
                 Read [0x02, 0, 0, 0, 0, 0, 0, 0, 0, 0, 0, 0xFE]]\<rparr>)"
  by (simp add: flash_defs image_defs erase_defs exchange_defs codec_defs)

text \<open>
  A port that breaks after five calls, in the middle of the first chunk: the
  CALC\_CHECKSUM command is written, the read of its reply raises SerialException,
  \<open>flash\<close> raises it unchanged, and the callback is not called.
\<close>

theorem flash_aborts_on_port_failure:
  "Bootloader_flash
     \<lparr>self_max_packet_length = 13, self_erase_size = 1024, self_write_size = 2,
      self_memory_range = Range 0x1000 0x2000 1\<rparr>
     \<lparr>buf = [(0x2000, 0x11), (0x2001, 0x22), (0x2002, 0x33), (0x2003, 0x44)], padding = 0xFF\<rparr> True
     \<lparr>timeout = Some 1, fails_after = Some 5,
      rx = [0x0A, 0, 0, 0, 0, 0, 0, 0, 0, 0, 0, 0xFC] @
           [0x02, 0, 0, 0, 0, 0, 0, 0, 0, 0, 0, 0x01] @
           [0x08, 0, 0, 0, 0, 0, 0, 0, 0, 0, 0, 0x01, 0x11, 0x22],
      events = []\<rparr> =
     (Inl SerialException,
      \<lparr>timeout = Some 1, fails_after = Some 0,
       rx = [0x08, 0, 0, 0, 0, 0, 0, 0, 0, 0, 0, 0x01, 0x11, 0x22],
       events = [Write [0x0A, 0, 0, 0, 0, 0, 0, 0, 0, 0, 0],
                 Read [0x0A, 0, 0, 0, 0, 0, 0, 0, 0, 0, 0, 0xFC],
                 Write [0x02, 2, 0, 0x55, 0, 0xAA, 0, 0x00, 0x10, 0, 0, 0x11, 0x22],
                 Read [0x02, 0, 0, 0, 0, 0, 0, 0, 0, 0, 0, 0x01],
                 Write [0x08, 2, 0, 0, 0, 0, 0, 0x00, 0x10, 0, 0]]\<rparr>)"
  by (simp add: flash_defs image_defs erase_defs exchange_defs codec_defs)

text \<open>
  The checksum of the specification splits at a multiple of four bytes, and so does the
  local checksum the engine computes: an image cut after a multiple of four bytes has
  the sum of the checksums of its two parts, modulo 65536.
\<close>

lemma four_dvd_small:
  "\<not> (4::nat) dvd Suc (Suc 0)" "\<not> (4::nat) dvd Suc (Suc (Suc 0))"
  by presburger+

lemma groups_of_four_append:
  "4 dvd length xs \<Longrightarrow> groups_of_four (xs @ ys) = groups_of_four xs @ groups_of_four ys"
proof (induction xs rule: groups_of_four.induct)
  case (1 a b c d rest)
  have "length (a # b # c # d # rest) = 4 + length rest" by simp
  with "1.prems" have "4 dvd 4 + length rest" by (simp only:)
  then have "4 dvd length rest" by (simp only: dvd_add_triv_left_iff)
  with "1.IH" show ?case by simp
qed (simp_all add: four_dvd_small)

lemma spec_checksum_append:
  "4 dvd length xs \<Longrightarrow>
   spec_checksum (xs @ ys) = (spec_checksum xs + spec_checksum ys) mod 65536"
  by (simp add: spec_checksum_def groups_of_four_append mod_add_eq)

theorem local_checksum_split:
  assumes "contiguous d" "contiguous d1" "contiguous d2"
    and "buf d1 \<noteq> []" "buf d2 \<noteq> []" "buf d = buf d1 @ buf d2"
    and "4 dvd length (buf d1)"
  shows "\<exists>c c1 c2. Bootloader__get_local_checksum d = Inr c \<and>
           Bootloader__get_local_checksum d1 = Inr c1 \<and>
           Bootloader__get_local_checksum d2 = Inr c2 \<and>
           c = (c1 + c2) mod 65536"
proof -
  have "buf d \<noteq> []" using assms(4,6) by simp
  then have "Bootloader__get_local_checksum d = Inr (spec_checksum (map snd (buf d)))"
    using assms(1) by (simp add: get_local_checksum_spec tobinstr_contiguous)
  moreover have "Bootloader__get_local_checksum d1 = Inr (spec_checksum (map snd (buf d1)))"
    using assms(2,4) by (simp add: get_local_checksum_spec tobinstr_contiguous)
  moreover have "Bootloader__get_local_checksum d2 = Inr (spec_checksum (map snd (buf d2)))"
    using assms(3,5) by (simp add: get_local_checksum_spec tobinstr_contiguous)
  moreover have "spec_checksum (map snd (buf d)) =
      (spec_checksum (map snd (buf d1)) + spec_checksum (map snd (buf d2))) mod 65536"
    using assms(6,7) by (simp add: spec_checksum_append)
  ultimately show ?thesis by simp
qed

theorem local_checksum_split_witness:
  "\<exists>c c1 c2.
     Bootloader__get_local_checksum
       \<lparr>buf = [(0x2000, 0x11), (0x2001, 0x22), (0x2002, 0x33), (0x2003, 0x44),
               (0x2004, 0x55), (0x2005, 0x66)], padding = 0xFF\<rparr> = Inr c \<and>
     Bootloader__get_local_checksum
       \<lparr>buf = [(0x2000, 0x11), (0x2001, 0x22), (0x2002, 0x33), (0x2003, 0x44)],
        padding = 0xFF\<rparr> = Inr c1 \<and>
     Bootloader__get_local_checksum
       \<lparr>buf = [(0x2004, 0x55), (0x2005, 0x66)], padding = 0xFF\<rparr> = Inr c2 \<and>
     c = (c1 + c2) mod 65536"
proof -
  have h: "4 dvd length (buf \<lparr>buf = [(0x2000, 0x11 :: byte), (0x2001 :: nat, 0x22), (0x2002, 0x33),
      (0x2003, 0x44)], padding = 0xFF :: byte\<rparr>)"
    by (simp add: numeral_eq_Suc)
  show ?thesis
    using h local_checksum_split
      [where d = "\<lparr>buf = [(0x2000, 0x11), (0x2001, 0x22), (0x2002, 0x33), (0x2003, 0x44),
                 (0x2004, 0x55), (0x2005, 0x66)], padding = 0xFF\<rparr>"
         and ?d1.0 = "\<lparr>buf = [(0x2000, 0x11), (0x2001, 0x22), (0x2002, 0x33), (0x2003, 0x44)],
          padding = 0xFF\<rparr>"
         and ?d2.0 = "\<lparr>buf = [(0x2004, 0x55), (0x2005, 0x66)], padding = 0xFF\<rparr>"]
    by (simp add: contiguous_def)
qed

text \<open>
  An image with no byte in the slice \<open>flash\<close> takes is refused before anything is
  sent: here the only byte lies below the device's memory.
\<close>

theorem flash_empty_image_witness:
  "Bootloader_flash
     \<lparr>self_max_packet_length = 256, self_erase_size = 1024, self_write_size = 8,
      self_memory_range = Range 0x1000 0x2000 1\<rparr>
     \<lparr>buf = [(0x0100, 0x12)], padding = 0xFF\<rparr> False
     \<lparr>timeout = Some 1, fails_after = None,
      rx = [0x0A, 0, 0, 0, 0, 0, 0, 0, 0, 0, 0, 0x01], events = []\<rparr> =
     (Inl (BootloaderError
        ''HEX file contains no data that fits entirely within program memory''),
      \<lparr>timeout = Some 1, fails_after = None,
       rx = [0x0A, 0, 0, 0, 0, 0, 0, 0, 0, 0, 0, 0x01], events = []\<rparr>)"
  using flash_empty_image
    [where self = "\<lparr>self_max_packet_length = 256, self_erase_size = 1024,
          self_write_size = 8, self_memory_range = Range 0x1000 0x2000 1\<rparr>"
       and a = "0x1000" and b = "0x1FFF"
       and hexfile = "\<lparr>buf = [(0x0100, 0x12)], padding = 0xFF\<rparr>"
       and progress_callback = False
       and w = "\<lparr>timeout = Some 1, fails_after = None,
          rx = [0x0A, 0, 0, 0, 0, 0, 0, 0, 0, 0, 0, 0x01], events = []\<rparr>"]
  by (simp add: range_first_def range_last_def image_defs)

text \<open>
  A slice bound of 0 is no bound. For a device whose memory range is \<open>range(0, 1)\<close>
  the slice \<open>flash\<close> takes is \<open>[0:0]\<close>, which keeps the whole image; \<open>flash\<close>
  then goes on to \<open>erase_flash\<close>, which fails on unpacking the one-item range,
  before any exchange.
\<close>

theorem flash_slice_zero_bound:
  "ih_slice 0 0 \<lparr>buf = [(0x10, 0x12), (0x11, 0x34)], padding = 0x00\<rparr> =
     \<lparr>buf = [(0x10, 0x12), (0x11, 0x34)], padding = 0xFF\<rparr> \<and>
   ih_slice 0x11 0 \<lparr>buf = [(0x10, 0x12), (0x11, 0x34)], padding = 0x00\<rparr> =
     \<lparr>buf = [(0x11, 0x34)], padding = 0xFF\<rparr> \<and>
   ih_slice 0 0x11 \<lparr>buf = [(0x10, 0x12), (0x11, 0x34)], padding = 0x00\<rparr> =
     \<lparr>buf = [(0x10, 0x12)], padding = 0xFF\<rparr> \<and>
   Bootloader_flash
     \<lparr>self_max_packet_length = 256, self_erase_size = 1024, self_write_size = 8,
      self_memory_range = Range 0 1 1\<rparr>
     \<lparr>buf = [(0x10, 0x12), (0x11, 0x34)], padding = 0xFF\<rparr> False
     \<lparr>timeout = Some 1, fails_after = None,
      rx = [0x0A, 0, 0, 0, 0, 0, 0, 0, 0, 0, 0, 0x01], events = []\<rparr> =
     (Inl (ValueError ''not enough values to unpack''),
      \<lparr>timeout = Some 1, fails_after = None,
       rx = [0x0A, 0, 0, 0, 0, 0, 0, 0, 0, 0, 0, 0x01], events = []\<rparr>)"
  by (simp add: flash_defs image_defs erase_defs exchange_defs codec_defs)

end
